(* ===== verification/Prelude.thy ===== *)
theory Prelude
  imports Main "HOL-Library.Word" "HOL-Library.Sublist"
begin

text \<open>
  Shared vocabulary of the rollingwriter model: the byte and path types, the error values
  the Go code returns or panics with, the bind of the error sum that threads a fallible
  step into the next, and the generic list and map lemmas that the component theories use
  through the \<open>model_simps\<close> collection.
\<close>

named_theorems model_simps "equations of the model that evaluate concrete inputs"

type_synonym byte = "8 word"
type_synonym bytes = "byte list"
type_synonym path = string

text \<open>
  Go's int64, as the bit pattern the hardware keeps: multiplication wraps modulo
  \<open>2^64\<close> and a value is read as a signed integer by \<^const>\<open>sint\<close>.
\<close>

type_synonym int64 = "64 word"

text \<open>
  The error values of the program. \<open>ErrInvalidArgument\<close>, \<open>ErrClosed\<close> and
  \<open>ErrInternal\<close> are the package's own (src/rollingwriter/part_001 lines 26-28);
  the others are what the operating system, the cron parser and the Go runtime report.
  A Go panic is a value \<open>Panic\<close> of the model, so that the code paths that crash are
  branches of the definitions and not missing cases.
\<close>

datatype go_error =
    ErrInvalidArgument
  | ErrClosed
  | ErrInternal
  | ErrNotExist
  | ErrPermission
  | ErrFileClosed
  | ErrCronSpec
  | Panic string

type_synonym 'a result = "go_error + 'a"

definition sbind :: "'a result \<Rightarrow> ('a \<Rightarrow> 'b result) \<Rightarrow> 'b result" where
  "sbind r f = (case r of Inl e \<Rightarrow> Inl e | Inr a \<Rightarrow> f a)"

lemma sbind_Inl [simp]: "sbind (Inl e) f = Inl e"
  by (simp add: sbind_def)

lemma sbind_Inr [simp]: "sbind (Inr a) f = f a"
  by (simp add: sbind_def)

lemma sbind_eq_Inr:
  "sbind r f = Inr b \<longleftrightarrow> (\<exists>a. r = Inr a \<and> f a = Inr b)"
  by (cases r) auto

lemma sbind_eq_Inl:
  "sbind r f = Inl e \<longleftrightarrow> r = Inl e \<or> (\<exists>a. r = Inr a \<and> f a = Inl e)"
  by (cases r) auto

lemma map_sum_eq_Inr [simp]: "map_sum f g x = Inr y \<longleftrightarrow> (\<exists>z. x = Inr z \<and> y = g z)"
  by (cases x) auto

lemma map_sum_eq_Inl [simp]: "map_sum f g x = Inl y \<longleftrightarrow> (\<exists>z. x = Inl z \<and> y = f z)"
  by (cases x) auto

subsection \<open>Generic list facts\<close>

lemma take_length_minus_append:
  "take (length (xs @ ys) - length ys) (xs @ ys) = xs"
  by simp

lemma drop_length_minus_append:
  "drop (length (xs @ ys) - length ys) (xs @ ys) = ys"
  by simp

lemma concat_take_drop_split:
  "concat (take n xss) @ concat (drop n xss) = concat xss"
  by (metis append_take_drop_id concat_append)

lemma drop_append_le:
  "n \<le> length xs \<Longrightarrow> drop n (xs @ ys) = drop n xs @ ys"
  by simp

lemma drop_Suc_append_last:
  "length xs = Suc k \<Longrightarrow> drop 1 (xs @ [y]) = drop 1 xs @ [y]"
  by simp

lemma mem_butlast_if_not_last:
  "x \<in> set xs \<Longrightarrow> x \<noteq> last xs \<Longrightarrow> x \<in> set (butlast xs)"
  by (metis append_butlast_last_id butlast.simps(1) in_set_butlast_appendI rotate1.simps(2) set_ConsD set_rotate1)

lemma butlast_butlast_split:
  "xs = butlast (butlast xs) @ [last (butlast xs), last xs]" if "2 \<le> length xs"
proof (cases xs rule: rev_cases)
  case Nil
  then show ?thesis using that by simp
next
  case (snoc ys y)
  then show ?thesis
  proof (cases ys rule: rev_cases)
    case Nil
    with snoc that show ?thesis by simp
  next
    case (snoc zs z)
    with \<open>xs = ys @ [y]\<close> show ?thesis by (simp add: butlast_append)
  qed
qed

subsection \<open>Generic map facts\<close>

lemma map_upd_other [simp]: "a \<noteq> b \<Longrightarrow> (m(a \<mapsto> v)) b = m b"
  by simp

lemma dom_upd_None: "dom (m(a := None)) = dom m - {a}"
  by auto


text \<open>Arithmetic on the int64 wrap-around.\<close>

lemma word_times_two: "(word_of_int t * 2 :: 'a::len word) = word_of_int (t * 2)"
  by simp

lemma mod_shift: "0 < (m::int) \<Longrightarrow> k * m \<le> x \<Longrightarrow> x < k * m + m \<Longrightarrow> x mod m = x - k * m"
proof -
  assume m: "0 < m" and lo: "k * m \<le> x" and hi: "x < k * m + m"
  have "x mod m = (x - k * m + k * m) mod m" by simp
  also have "\<dots> = (x - k * m) mod m" by (rule mod_mult_self1)
  also have "\<dots> = x - k * m" using lo hi by (intro mod_pos_pos_trivial) simp_all
  finally show ?thesis .
qed

text \<open>Removing the \<open>i\<close>-th element of a list whose first components are distinct.\<close>

lemma distinct_fst_remove:
  assumes "distinct (map fst T)" and "i < length T"
  shows "distinct (map fst (take i T @ drop (Suc i) T)) \<and>
         (\<forall>(x, q) \<in> set (take i T @ drop (Suc i) T). x \<noteq> fst (T ! i))"
proof -
  have "distinct (map fst (take i T @ T ! i # drop (Suc i) T))"
    using assms by (simp add: id_take_nth_drop [symmetric])
  then show ?thesis by (auto simp: image_iff)
qed

lemma filter_conv_nth: "filter P xs = map ((!) xs) (filter (\<lambda>i. P (xs ! i)) [0..<length xs])"
proof (induction xs rule: rev_induct)
  case (snoc x xs)
  have f: "filter (\<lambda>i. P ((xs @ [x]) ! i)) [0..<length xs] = filter (\<lambda>i. P (xs ! i)) [0..<length xs]"
    by (rule filter_cong) (auto simp: nth_append)
  have m: "map ((!) (xs @ [x])) (filter (\<lambda>i. P (xs ! i)) [0..<length xs]) =
        map ((!) xs) (filter (\<lambda>i. P (xs ! i)) [0..<length xs])"
    by (rule map_cong) (auto simp: nth_append)
  have u: "[0..<length (xs @ [x])] = [0..<length xs] @ [length xs]" by simp
  show ?case
    unfolding u filter_append map_append f m snoc.IH [symmetric]
    by (simp add: nth_append)
qed simp

lemma nth_of_map_eq:
  "map f xs = map g ys \<Longrightarrow> i < length xs \<Longrightarrow> f (xs ! i) = g (ys ! i)"
  by (metis length_map nth_map)

end
