(* ===== verification/GoLib.thy ===== *)
theory GoLib
  imports Prelude
begin

text \<open>
  Models of the Go standard library functions that the package calls:
  \<open>strings.ToUpper\<close> on ASCII text, \<open>strings.Contains\<close>, \<open>strconv.Atoi\<close>,
  \<open>path.Clean\<close> and \<open>path.Join\<close>; for the zap front end \<open>strings.TrimSpace\<close>,
  \<open>strings.ToLower\<close>, \<open>filepath.Abs\<close> and \<open>filepath.Dir\<close>; and a decimal
  printer used to build time tags in examples. They are written from the Go library's documented algorithm (Go 1.x
  \<open>strconv/atoi.go\<close>, \<open>path/path.go\<close>), not from the package's sources, and each
  comes with the lemma that states its contract.
\<close>

subsection \<open>strings.ToUpper and strings.Contains\<close>

text \<open>
  \<open>strings.ToUpper\<close> maps the bytes \<open>a\<close>..\<open>z\<close> to \<open>A\<close>..\<open>Z\<close>; a string is a list
  of bytes here, so bytes of non-ASCII runes are kept as they are (Go maps them through
  \<open>unicode.ToUpper\<close>; the size strings this package reads are ASCII).
\<close>

definition go_upper_char :: "char \<Rightarrow> char" where
  "go_upper_char c =
     (if 97 \<le> (of_char c :: nat) \<and> (of_char c :: nat) \<le> 122
      then char_of (of_char c - (32::nat)) else c)"

definition go_lower_char :: "char \<Rightarrow> char" where
  "go_lower_char c =
     (if 65 \<le> (of_char c :: nat) \<and> (of_char c :: nat) \<le> 90
      then char_of (of_char c + (32::nat)) else c)"

definition go_to_upper :: "string \<Rightarrow> string" where
  "go_to_upper s = map go_upper_char s"

definition go_to_lower :: "string \<Rightarrow> string" where
  "go_to_lower s = map go_lower_char s"

fun go_has_prefix :: "string \<Rightarrow> string \<Rightarrow> bool" where
  "go_has_prefix s [] = True"
| "go_has_prefix [] (c # t) = False"
| "go_has_prefix (a # s) (c # t) = (a = c \<and> go_has_prefix s t)"

fun go_contains :: "string \<Rightarrow> string \<Rightarrow> bool" where
  "go_contains [] t = (t = [])"
| "go_contains (a # s) t = (go_has_prefix (a # s) t \<or> go_contains s t)"

subsection \<open>strconv.Atoi\<close>

text \<open>
  \<open>strconv.Atoi\<close> on a 64-bit platform: an optional sign, then decimal digits. The
  unsigned scan (\<open>ParseUint\<close>) stops with a syntax error at the first non-digit and
  with a range error as soon as the value read so far exceeds \<open>2^64 - 1\<close>;
  \<open>ParseInt\<close> then clamps to the int64 range. The package ignores the error, so the
  value returned with it is what matters: 0 after a syntax error, the clamped bound after
  a range error. The fast path of \<open>Atoi\<close> for strings shorter than 19 bytes computes the
  same value, since such strings cannot overflow.
\<close>

datatype uscan = SynErr | RangeErr | UVal nat

definition go_is_digit :: "char \<Rightarrow> bool" where
  "go_is_digit c \<longleftrightarrow> 48 \<le> (of_char c :: nat) \<and> (of_char c :: nat) \<le> 57"

definition digit_val :: "char \<Rightarrow> nat" where
  "digit_val c = of_char c - 48"

fun uscan_from :: "nat \<Rightarrow> string \<Rightarrow> uscan" where
  "uscan_from n [] = UVal n"
| "uscan_from n (c # cs) =
     (if \<not> go_is_digit c then SynErr
      else if 18446744073709551615 < n * 10 + digit_val c then RangeErr
      else uscan_from (n * 10 + digit_val c) cs)"

definition go_parse_uint :: "string \<Rightarrow> uscan" where
  "go_parse_uint s = (if s = [] then SynErr else uscan_from 0 s)"

definition go_atoi :: "string \<Rightarrow> int" where
  "go_atoi s =
     (let neg = (s \<noteq> [] \<and> hd s = CHR ''-'');
          body = (if s \<noteq> [] \<and> (hd s = CHR ''-'' \<or> hd s = CHR ''+'') then tl s else s)
      in case go_parse_uint body of
           SynErr \<Rightarrow> 0
         | RangeErr \<Rightarrow> (if neg then - (2 ^ 63) else 2 ^ 63 - 1)
         | UVal u \<Rightarrow>
             (if \<not> neg \<and> 2 ^ 63 \<le> u then 2 ^ 63 - 1
              else if neg \<and> 2 ^ 63 < u then - (2 ^ 63)
              else if neg then - int u else int u))"

text \<open>The decimal value of a digit string, the reference the scan is proved against.\<close>

fun dec_value :: "nat \<Rightarrow> string \<Rightarrow> nat" where
  "dec_value n [] = n"
| "dec_value n (c # cs) = dec_value (n * 10 + digit_val c) cs"

subsection \<open>Decimal printing\<close>

fun go_itoa :: "nat \<Rightarrow> string" where
  "go_itoa n =
     (if n < 10 then [char_of (48 + n)] else go_itoa (n div 10) @ [char_of (48 + n mod 10)])"

declare go_itoa.simps [simp del]

subsection \<open>path.Clean and path.Join\<close>

text \<open>
  \<open>path.Clean\<close> read segment by segment: empty and \<open>.\<close> segments vanish, \<open>..\<close>
  removes the segment before it, or stays when there is none (dropped at the root of a
  rooted path); the result is \<open>.\<close> when nothing is left of a relative path.
\<close>

fun split_slash :: "string \<Rightarrow> string list" where
  "split_slash [] = [[]]"
| "split_slash (c # cs) =
     (if c = CHR ''/'' then [] # split_slash cs
      else (case split_slash cs of seg # segs \<Rightarrow> (c # seg) # segs | [] \<Rightarrow> [[c]]))"

definition clean_step :: "bool \<Rightarrow> string list \<Rightarrow> string \<Rightarrow> string list" where
  "clean_step rooted st seg =
     (if seg = [] \<or> seg = ''.'' then st
      else if seg = ''..'' then
        (case st of
           s # ss \<Rightarrow> (if s = ''..'' then ''..'' # st else ss)
         | [] \<Rightarrow> (if rooted then [] else [''..'']))
      else seg # st)"

fun join_slash :: "string list \<Rightarrow> string" where
  "join_slash [] = []"
| "join_slash [s] = s"
| "join_slash (s # ss) = s @ ''/'' @ join_slash ss"

definition go_clean :: "string \<Rightarrow> string" where
  "go_clean p =
     (if p = [] then ''.''
      else let rooted = (hd p = CHR ''/'');
               st = rev (fold (\<lambda>seg st. clean_step rooted st seg) (split_slash p) []);
               body = join_slash st
           in if rooted then CHR ''/'' # body else if body = [] then ''.'' else body)"

text \<open>
  \<open>path.Join\<close>: the non-empty elements joined by slashes (an empty element after a
  non-empty one still adds a slash, which \<open>Clean\<close> then removes), cleaned; the empty
  string when every element is empty.
\<close>

fun join_raw :: "string \<Rightarrow> string list \<Rightarrow> string" where
  "join_raw buf [] = buf"
| "join_raw buf (e # es) =
     join_raw (if buf \<noteq> [] \<or> e \<noteq> [] then (if buf \<noteq> [] then buf @ ''/'' else buf) @ e else buf) es"

definition go_path_join :: "string list \<Rightarrow> string" where
  "go_path_join es = (if concat es = [] then [] else go_clean (join_raw [] es))"

subsection \<open>strings.TrimSpace and strings.ToLower on UTF-8 text\<close>

text \<open>
  \<open>strings.TrimSpace\<close> removes the leading and trailing runes for which
  \<open>unicode.IsSpace\<close> holds: the six ASCII spaces, U+0085, U+00A0 and the Unicode
  \<open>White_Space\<close> runes U+1680, U+2000-U+200A, U+2028, U+2029, U+202F, U+205F and
  U+3000, read here as their UTF-8 byte sequences (\<open>go_space_runes\<close>). A prefix
  matching one of them is a rune that \<open>utf8.DecodeRune\<close> decodes as that space, and a
  suffix matching one of them is one that \<open>utf8.DecodeLastRune\<close> does, so stripping
  matching prefixes and (on the reversed string) suffixes is Go's \<open>TrimLeftFunc\<close> and
  \<open>TrimRightFunc\<close>.

  \<open>strings.ToLower\<close> maps \<open>A\<close>..\<open>Z\<close> to \<open>a\<close>..\<open>z\<close>; of the non-ASCII runes
  exactly two lower-case to ASCII letters, U+0130 (to \<open>i\<close>) and the Kelvin sign U+212A
  (to \<open>k\<close>), and these are mapped too. Other non-ASCII runes keep their bytes here
  while Go may replace them by their lower-case form (and invalid bytes by U+FFFD); such
  a result still holds a non-ASCII byte where Go's does, so comparisons with ASCII words,
  the only use the package makes of it, agree.
\<close>

definition go_space_runes :: "string list" where
  "go_space_runes =
     [[CHR 0x09], [CHR 0x0A], [CHR 0x0B], [CHR 0x0C], [CHR 0x0D], [CHR 0x20],
      [CHR 0xC2, CHR 0x85], [CHR 0xC2, CHR 0xA0], [CHR 0xE1, CHR 0x9A, CHR 0x80]] @
     map (\<lambda>c. [CHR 0xE2, CHR 0x80, c])
       [CHR 0x80, CHR 0x81, CHR 0x82, CHR 0x83, CHR 0x84, CHR 0x85, CHR 0x86, CHR 0x87, CHR 0x88,
        CHR 0x89, CHR 0x8A] @
     [[CHR 0xE2, CHR 0x80, CHR 0xA8], [CHR 0xE2, CHR 0x80, CHR 0xA9], [CHR 0xE2, CHR 0x80, CHR 0xAF],
      [CHR 0xE2, CHR 0x81, CHR 0x9F], [CHR 0xE3, CHR 0x80, CHR 0x80]]"

function go_trim_lead :: "string list \<Rightarrow> string \<Rightarrow> string" where
  "go_trim_lead rs s =
     (case find (\<lambda>r. r \<noteq> [] \<and> prefix r s) rs of
        None \<Rightarrow> s
      | Some r \<Rightarrow> go_trim_lead rs (drop (length r) s))"
  by pat_completeness auto
termination
proof (relation "measure (\<lambda>(rs, s). length s)")
  fix rs s r
  assume "find (\<lambda>r. r \<noteq> [] \<and> prefix r s) rs = Some r"
  then have "r \<noteq> []" "prefix r s" by (auto simp: find_Some_iff)
  then show "((rs, drop (length r) s), rs, s) \<in> measure (\<lambda>(rs, s). length s)"
    by (auto simp: prefix_def)
qed simp

declare go_trim_lead.simps [simp del]

definition go_trim_space :: "string \<Rightarrow> string" where
  "go_trim_space s = rev (go_trim_lead (map rev go_space_runes) (rev (go_trim_lead go_space_runes s)))"

fun go_to_lower_utf8 :: "string \<Rightarrow> string" where
  "go_to_lower_utf8 (a # b # c # s) =
     (if [a, b, c] = [CHR 0xE2, CHR 0x84, CHR 0xAA] then CHR ''k'' # go_to_lower_utf8 s
      else if [a, b] = [CHR 0xC4, CHR 0xB0] then CHR ''i'' # go_to_lower_utf8 (c # s)
      else go_lower_char a # go_to_lower_utf8 (b # c # s))"
| "go_to_lower_utf8 [a, b] =
     (if [a, b] = [CHR 0xC4, CHR 0xB0] then ''i'' else [go_lower_char a, go_lower_char b])"
| "go_to_lower_utf8 [a] = [go_lower_char a]"
| "go_to_lower_utf8 [] = []"

definition go_is_ascii :: "char \<Rightarrow> bool" where
  "go_is_ascii c \<longleftrightarrow> (of_char c :: nat) < 128"

definition go_ascii_spaces :: "char list" where
  "go_ascii_spaces = [CHR 0x09, CHR 0x0A, CHR 0x0B, CHR 0x0C, CHR 0x0D, CHR 0x20]"

text \<open>
  \<open>filepath.Abs\<close>: a rooted path is cleaned, a relative one joined to the working
  directory; \<open>filepath.Dir\<close>: everything up to the last slash, cleaned.
\<close>

definition go_filepath_abs :: "path \<Rightarrow> string \<Rightarrow> path" where
  "go_filepath_abs cwd p = (if p \<noteq> [] \<and> hd p = CHR ''/'' then go_clean p else go_path_join [cwd, p])"

definition go_filepath_dir :: "path \<Rightarrow> path" where
  "go_filepath_dir p = go_clean (take (length p - length (takeWhile (\<lambda>c. c \<noteq> CHR ''/'') (rev p))) p)"

subsection \<open>Contracts of the library models\<close>

lemma go_has_prefix_iff: "go_has_prefix s t \<longleftrightarrow> (\<exists>r. s = t @ r)"
  by (induction s t rule: go_has_prefix.induct) auto

lemma go_contains_iff: "go_contains s t \<longleftrightarrow> sublist t s"
proof (induction s)
  case Nil
  then show ?case by simp
next
  case (Cons a s)
  have "sublist t (a # s) \<longleftrightarrow> prefix t (a # s) \<or> sublist t s"
    by (simp add: sublist_Cons_right)
  then show ?case
    using Cons.IH by (auto simp: go_has_prefix_iff prefix_def)
qed

lemma go_contains_append_right [simp]: "go_contains (s @ t) t"
  by (simp add: go_contains_iff)

lemma go_upper_lower_char: "go_upper_char (go_lower_char c) = go_upper_char c"
proof (cases "65 \<le> (of_char c :: nat) \<and> (of_char c :: nat) \<le> 90")
  case True
  have "(of_char (char_of (of_char c + (32::nat)) :: char) :: nat) = of_char c + 32"
    using True by (simp add: of_char_of)
  with True show ?thesis
    by (simp add: go_upper_char_def go_lower_char_def)
next
  case False
  then show ?thesis by (auto simp add: go_lower_char_def)
qed

lemma go_to_upper_lower [model_simps]: "go_to_upper (go_to_lower s) = go_to_upper s"
  by (simp add: go_to_upper_def go_to_lower_def go_upper_lower_char)

lemma dec_value_ge: "n \<le> dec_value n cs"
proof (induction cs arbitrary: n)
  case Nil
  then show ?case by simp
next
  case (Cons c cs)
  have "n \<le> n * 10 + digit_val c" by simp
  also have "\<dots> \<le> dec_value (n * 10 + digit_val c) cs" by (rule Cons.IH)
  finally show ?case by simp
qed

lemma uscan_from_digits:
  "\<forall>c \<in> set cs. go_is_digit c \<Longrightarrow> dec_value n cs < 2 ^ 64 \<Longrightarrow>
   uscan_from n cs = UVal (dec_value n cs)"
proof (induction n cs rule: uscan_from.induct)
  case (1 n)
  then show ?case by simp
next
  case (2 n c cs)
  have "n * 10 + digit_val c \<le> dec_value (n * 10 + digit_val c) cs" by (rule dec_value_ge)
  with "2.prems" have "\<not> 18446744073709551615 < n * 10 + digit_val c" by simp
  with "2.prems" "2.IH" show ?case by simp
qed

lemma go_atoi_digits:
  assumes "cs \<noteq> []" and "\<forall>c \<in> set cs. go_is_digit c" and "dec_value 0 cs < 2 ^ 63"
  shows "go_atoi cs = int (dec_value 0 cs)"
proof -
  have "hd cs \<noteq> CHR ''-'' \<and> hd cs \<noteq> CHR ''+''"
    using assms(1,2) by (cases cs) (auto simp: go_is_digit_def)
  moreover have "go_parse_uint cs = UVal (dec_value 0 cs)"
    using assms uscan_from_digits [of cs 0] by (simp add: go_parse_uint_def)
  ultimately show ?thesis
    using assms by (simp add: go_atoi_def)
qed
lemma of_char_less_256': "(of_char c :: nat) < 256"
  by (metis of_char_mod_256 mod_less_divisor zero_less_numeral)

lemma char_eq_of_char: "(of_char c :: nat) = n \<Longrightarrow> c = char_of n"
  by (metis char_of_char)

lemma go_upper_char_eq:
  assumes "go_upper_char c = d"
  shows "c = d \<or> (of_char c :: nat) = of_char d + 32"
proof (cases "97 \<le> (of_char c :: nat) \<and> (of_char c :: nat) \<le> 122")
  case True
  with assms have "d = char_of (of_char c - (32::nat))" by (simp add: go_upper_char_def)
  then have "(of_char d :: nat) = (of_char c - 32) mod 256" by simp
  also have "\<dots> = of_char c - 32"
  proof (rule mod_less)
    show "(of_char c :: nat) - 32 < 256" using of_char_less_256' [of c] by linarith
  qed
  finally show ?thesis using True by simp
next
  case False
  with assms show ?thesis by (simp add: go_upper_char_def)
qed

lemma go_contains_Cons_mem: "go_contains s (x # t) \<Longrightarrow> x \<in> set s"
  by (induction s) (auto simp: go_has_prefix_iff)

lemma upper_unit_letter_from:
  assumes "go_upper_char c \<in> set ''KMGT''"
  shows "c \<in> set ''kKmMgGtT''"
proof -
  from assms consider "go_upper_char c = CHR ''K''" | "go_upper_char c = CHR ''M''"
    | "go_upper_char c = CHR ''G''" | "go_upper_char c = CHR ''T''" by auto
  then show ?thesis
  proof cases
    case 1
    then have "c = CHR ''K'' \<or> of_char c = (107::nat)" using go_upper_char_eq by fastforce
    then show ?thesis by (auto simp: char_of_def bit_0 dest: char_eq_of_char)
  next
    case 2
    then have "c = CHR ''M'' \<or> of_char c = (109::nat)" using go_upper_char_eq by fastforce
    then show ?thesis by (auto simp: char_of_def bit_0 dest: char_eq_of_char)
  next
    case 3
    then have "c = CHR ''G'' \<or> of_char c = (103::nat)" using go_upper_char_eq by fastforce
    then show ?thesis by (auto simp: char_of_def bit_0 dest: char_eq_of_char)
  next
    case 4
    then have "c = CHR ''T'' \<or> of_char c = (116::nat)" using go_upper_char_eq by fastforce
    then show ?thesis by (auto simp: char_of_def bit_0 dest: char_eq_of_char)
  qed
qed

lemma go_upper_char_digit: "go_is_digit c \<Longrightarrow> go_upper_char c = c"
  by (simp add: go_is_digit_def go_upper_char_def)

lemma go_to_upper_digits: "\<forall>c \<in> set ds. go_is_digit c \<Longrightarrow> go_to_upper ds = ds"
  by (induction ds) (simp_all add: go_to_upper_def go_upper_char_digit)

lemma digit_val_le: "go_is_digit d \<Longrightarrow> digit_val d \<le> 9"
  unfolding go_is_digit_def digit_val_def by linarith

lemma uscan_from_nondigit:
  "\<forall>d \<in> set pre. go_is_digit d \<Longrightarrow> \<not> go_is_digit c \<Longrightarrow> length pre \<le> 19 \<Longrightarrow>
   n < 10 ^ (19 - length pre) \<Longrightarrow> uscan_from n (pre @ c # post) = SynErr"
proof (induction pre arbitrary: n)
  case Nil
  then show ?case by simp
next
  case (Cons d pre)
  define m where "m = 19 - length (d # pre)"
  have d: "go_is_digit d" and dv: "digit_val d \<le> 9"
    using Cons.prems(1) digit_val_le by auto
  have n: "n < 10 ^ m" using Cons.prems(4) by (simp add: m_def)
  have "n * 10 + digit_val d < 10 ^ m * 10"
    using n dv by linarith
  moreover have "19 - length pre = Suc m"
    using Cons.prems(3) by (simp add: m_def)
  ultimately have lt: "n * 10 + digit_val d < 10 ^ (19 - length pre)" by simp
  have "(10::nat) ^ (19 - length pre) \<le> 10 ^ 19"
    by (rule power_increasing) simp_all
  with lt have "\<not> 18446744073709551615 < n * 10 + digit_val d" by simp
  with d lt Cons show ?case by simp
qed

lemma go_atoi_unit_letter:
  assumes "length s \<le> 20" and "c \<in> set s" and "c \<in> set ''KMGT''"
  shows "go_atoi s = 0"
proof -
  define body where "body = (if s \<noteq> [] \<and> (hd s = CHR ''-'' \<or> hd s = CHR ''+'') then tl s else s)"
  have cb: "c \<in> set body"
    using assms(2,3) by (cases s) (auto simp: body_def)
  define pre where "pre = takeWhile go_is_digit body"
  have nd: "\<not> go_is_digit c" using assms(3) by (auto simp: go_is_digit_def)
  have "dropWhile go_is_digit body \<noteq> []"
    using cb nd by (metis dropWhile_eq_Nil_conv)
  then obtain c' post where dw: "dropWhile go_is_digit body = c' # post"
    by (cases "dropWhile go_is_digit body") auto
  have c': "\<not> go_is_digit c'"
    using dw by (metis hd_dropWhile list.sel(1) list.simps(3))
  have split: "body = pre @ c' # post"
    using dw by (metis pre_def takeWhile_dropWhile_id)
  have "length body \<le> 20"
    using assms(1) by (auto simp: body_def)
  then have lp: "length pre \<le> 19"
    using split by simp
  have "\<forall>d \<in> set pre. go_is_digit d"
    by (simp add: pre_def) (meson set_takeWhileD)
  then have "uscan_from 0 body = SynErr"
    using split c' lp uscan_from_nondigit by simp
  moreover have "body \<noteq> []" using cb by auto
  ultimately have "go_parse_uint body = SynErr" by (simp add: go_parse_uint_def)
  then show ?thesis by (simp add: go_atoi_def body_def [symmetric] Let_def)
qed

lemma go_contains_singleton: "x \<in> set s \<Longrightarrow> go_contains s [x]"
  by (induction s) auto

lemma upper_unit_letter_to:
  assumes "c \<in> set ''kKmMgGtT''"
  shows "go_upper_char c \<in> set ''KMGT''"
proof -
  from assms have "c = CHR ''k'' \<or> c = CHR ''K'' \<or> c = CHR ''m'' \<or> c = CHR ''M'' \<or>
      c = CHR ''g'' \<or> c = CHR ''G'' \<or> c = CHR ''t'' \<or> c = CHR ''T''" by simp
  then show ?thesis
    by (elim disjE) (simp_all add: go_upper_char_def char_of_def bit_0)
qed

lemma go_to_lower_utf8_ascii:
  "\<forall>c \<in> set s. go_is_ascii c \<Longrightarrow> go_to_lower_utf8 s = map go_lower_char s"
  by (induction s rule: go_to_lower_utf8.induct) (auto simp: go_is_ascii_def)

lemma go_trim_lead_Cons_space:
  assumes "c \<in> set go_ascii_spaces"
  shows "go_trim_lead go_space_runes (c # s) = go_trim_lead go_space_runes s"
    and "go_trim_lead (map rev go_space_runes) (c # s) = go_trim_lead (map rev go_space_runes) s"
  using assms
  by (auto simp: go_ascii_spaces_def go_space_runes_def intro!: trans [OF go_trim_lead.simps])

lemma go_trim_lead_spaces:
  assumes "\<forall>c \<in> set ws. c \<in> set go_ascii_spaces"
  shows "go_trim_lead go_space_runes (ws @ s) = go_trim_lead go_space_runes s"
    and "go_trim_lead (map rev go_space_runes) (ws @ s) = go_trim_lead (map rev go_space_runes) s"
  using assms by (induction ws) (simp_all add: go_trim_lead_Cons_space)

text \<open>
  \<open>TrimSpace\<close> stops at an ASCII character that is not a space (no space rune starts or
  ends with one), so padding a word by ASCII spaces is undone.
\<close>

lemma go_lower_char_ascii: "go_is_ascii (go_lower_char c) \<longleftrightarrow> go_is_ascii c"
  by (auto simp: go_is_ascii_def go_lower_char_def)

lemma go_space_runes_heads:
  "\<forall>r \<in> set go_space_runes. r \<noteq> [] \<and> (hd r \<in> set go_ascii_spaces \<or> 128 \<le> (of_char (hd r) :: nat))"
  "\<forall>r \<in> set (map rev go_space_runes). r \<noteq> [] \<and> (hd r \<in> set go_ascii_spaces \<or> 128 \<le> (of_char (hd r) :: nat))"
  by (simp_all add: go_space_runes_def go_ascii_spaces_def)

lemma go_trim_lead_stop:
  assumes heads: "\<forall>r \<in> set rs. r \<noteq> [] \<and> (hd r \<in> set go_ascii_spaces \<or> 128 \<le> (of_char (hd r) :: nat))"
    and c: "go_is_ascii c" "c \<notin> set go_ascii_spaces"
  shows "go_trim_lead rs (c # s) = c # s"
proof -
  have "find (\<lambda>r. r \<noteq> [] \<and> prefix r (c # s)) rs = None"
  proof (unfold find_None_iff, intro notI, elim exE conjE)
    fix r assume r: "r \<in> set rs" "r \<noteq> []" "prefix r (c # s)"
    have "hd r = c" using r(2,3) by (cases r) auto
    then show False using r using heads c by (auto simp: go_is_ascii_def)
  qed
  then show ?thesis by (subst go_trim_lead.simps) simp
qed

lemmas go_trim_lead_nonspace = go_trim_lead_stop [OF go_space_runes_heads(1)] go_trim_lead_stop [OF go_space_runes_heads(2)]

lemma go_trim_space_pad:
  assumes ws: "\<forall>c \<in> set (ws @ ws'). c \<in> set go_ascii_spaces"
    and s: "s \<noteq> []" "go_is_ascii (hd s)" "hd s \<notin> set go_ascii_spaces"
           "go_is_ascii (last s)" "last s \<notin> set go_ascii_spaces"
  shows "go_trim_space (ws @ s @ ws') = s"
proof -
  obtain c r where cr: "s = c # r" using s(1) by (cases s) auto
  obtain r' d where rd: "s = r' @ [d]" using s(1) by (cases s rule: rev_cases) auto
  have l: "go_trim_lead go_space_runes (ws @ s @ ws') = s @ ws'"
    using go_trim_lead_spaces(1) [of ws "s @ ws'"] go_trim_lead_nonspace(1) [of c "r @ ws'"] ws s cr
    by simp
  have "go_trim_lead (map rev go_space_runes) (rev ws' @ rev s) = rev s"
    using go_trim_lead_spaces(2) [of "rev ws'" "rev s"] go_trim_lead_nonspace(2) [of d "rev r'"] ws s rd
    by simp
  then show ?thesis using l by (simp add: go_trim_space_def)
qed

lemma go_ascii_spaces_ascii: "c \<in> set go_ascii_spaces \<Longrightarrow> go_is_ascii c \<and> go_lower_char c = c"
  by (auto simp: go_ascii_spaces_def go_is_ascii_def go_lower_char_def)

end
