(* ===== verification/Config.thy ===== *)
theory Config
  imports GoLib
begin

text \<open>
  The configuration of a rolling writer (src/unnamed/part_001, the file that declares
  \<open>Config\<close>, the rolling-policy constants, the package defaults, \<open>NewDefaultConfig\<close>,
  \<open>LogFilePath\<close> and the functional options \<open>With...\<close>), and the interface record
  \<open>env\<close> of the collaborators the package only calls: time formatting and parsing, the
  cron parser and gzip.
\<close>

subsection \<open>Constants and defaults\<close>

text \<open>The rolling policies are Go \<open>int\<close> constants (\<open>iota\<close>), and \<open>Config\<close> stores an int.\<close>

definition WithoutRolling :: int where "WithoutRolling = 0"
definition TimeRolling :: int where "TimeRolling = 1"
definition VolumeRolling :: int where "VolumeRolling = 2"

lemmas rolling_policy_defs [model_simps] = WithoutRolling_def TimeRolling_def VolumeRolling_def

text \<open>The package-level defaults: pooled buffer size, queue capacity, poll period (s).\<close>

definition BufferSize :: nat where "BufferSize = 1048576"
definition QueueSize :: nat where "QueueSize = 1024"
definition Precision :: nat where "Precision = 1"

subsection \<open>Config\<close>

record config =
  TimeTagFormat :: string
  LogPath :: string
  FileName :: string
  MaxRemain :: int
  RollingPolicy :: int
  RollingTimePattern :: string
  RollingVolumeSize :: string
  WriterMode :: string
  BufferWriterThreshold :: int
  Compress :: bool

definition NewDefaultConfig :: config where
  "NewDefaultConfig =
     \<lparr>TimeTagFormat = ''200601021504'', LogPath = ''./log'', FileName = ''log'',
      MaxRemain = -1, RollingPolicy = 1, RollingTimePattern = ''0 0 * * *'',
      RollingVolumeSize = ''1G'', WriterMode = ''lock'', BufferWriterThreshold = 64,
      Compress = False\<rparr>"

text \<open>\<open>path.Join(c.LogPath, c.FileName) + ".log"\<close>: the path of the active file.\<close>

definition LogFilePath :: "config \<Rightarrow> path" where
  "LogFilePath c = go_path_join [LogPath c, FileName c] @ ''.log''"

subsection \<open>Functional options\<close>

type_synonym cfg_option = "config \<Rightarrow> config"

definition WithTimeTagFormat :: "string \<Rightarrow> cfg_option" where
  "WithTimeTagFormat f = (\<lambda>c. c\<lparr>TimeTagFormat := f\<rparr>)"

definition WithLogPath :: "string \<Rightarrow> cfg_option" where
  "WithLogPath p = (\<lambda>c. c\<lparr>LogPath := p\<rparr>)"

definition WithFileName :: "string \<Rightarrow> cfg_option" where
  "WithFileName n = (\<lambda>c. c\<lparr>FileName := n\<rparr>)"

definition WithAsynchronous :: cfg_option where
  "WithAsynchronous = (\<lambda>c. c\<lparr>WriterMode := ''async''\<rparr>)"

definition WithLock :: cfg_option where
  "WithLock = (\<lambda>c. c\<lparr>WriterMode := ''lock''\<rparr>)"

definition WithBuffer :: cfg_option where
  "WithBuffer = (\<lambda>c. c\<lparr>WriterMode := ''buffer''\<rparr>)"

definition WithBufferThreshold :: "int \<Rightarrow> cfg_option" where
  "WithBufferThreshold n = (\<lambda>c. c\<lparr>BufferWriterThreshold := n\<rparr>)"

definition WithCompress :: cfg_option where
  "WithCompress = (\<lambda>c. c\<lparr>Compress := True\<rparr>)"

definition WithMaxRemain :: "int \<Rightarrow> cfg_option" where
  "WithMaxRemain m = (\<lambda>c. c\<lparr>MaxRemain := m\<rparr>)"

definition WithoutRollingPolicy :: cfg_option where
  "WithoutRollingPolicy = (\<lambda>c. c\<lparr>RollingPolicy := WithoutRolling\<rparr>)"

definition WithRollingTimePattern :: "string \<Rightarrow> cfg_option" where
  "WithRollingTimePattern p = (\<lambda>c. c\<lparr>RollingPolicy := TimeRolling, RollingTimePattern := p\<rparr>)"

definition WithRollingVolumeSize :: "string \<Rightarrow> cfg_option" where
  "WithRollingVolumeSize s = (\<lambda>c. c\<lparr>RollingPolicy := VolumeRolling, RollingVolumeSize := s\<rparr>)"

text \<open>The loop of \<open>NewWriter\<close> that applies the options to the default config in order.\<close>

definition apply_options :: "cfg_option list \<Rightarrow> config" where
  "apply_options ops = fold (\<lambda>opt c. opt c) ops NewDefaultConfig"

lemmas option_defs [model_simps] =
  WithTimeTagFormat_def WithLogPath_def WithFileName_def WithAsynchronous_def WithLock_def
  WithBuffer_def WithBufferThreshold_def WithCompress_def WithMaxRemain_def
  WithoutRollingPolicy_def WithRollingTimePattern_def WithRollingVolumeSize_def

subsection \<open>Collaborators\<close>

text \<open>
  What the package takes from outside: \<open>time.Time.Format\<close> and \<open>time.Parse\<close> for a
  layout (times are seconds as \<^typ>\<open>nat\<close>), whether \<open>cron.AddFunc\<close> accepts a
  pattern, and the bytes \<open>gzip.Writer\<close> produces for a content. The lemmas of the
  components hold for every such environment.
\<close>

record env =
  time_format :: "string \<Rightarrow> nat \<Rightarrow> string"
  time_parse :: "string \<Rightarrow> string \<Rightarrow> nat option"
  cron_valid :: "string \<Rightarrow> bool"
  gzip :: "bytes \<Rightarrow> bytes"

text \<open>
  A concrete environment for the examples: tags are the minute count in decimal (the
  resolution of the default layout \<open>200601021504\<close>), a tag parses back to the start
  of its minute, every non-empty cron pattern is accepted, and the compressor is an
  invertible stand-in (byte reversal).
\<close>

definition demo_env :: env where
  "demo_env =
     \<lparr>time_format = (\<lambda>_ t. go_itoa (t div 60)),
      time_parse = (\<lambda>_ s. if s \<noteq> [] \<and> (\<forall>c \<in> set s. go_is_digit c)
                           then Some (dec_value 0 s * 60) else None),
      cron_valid = (\<lambda>p. p \<noteq> []),
      gzip = rev\<rparr>"

text \<open>
  The package's own test \<open>TestOptions\<close> (src/unnamed/part_000): the option list it
  applies to the default configuration, the configuration it expects, and its assertion.
\<close>

definition test_options :: "cfg_option list" where
  "test_options =
     [WithTimeTagFormat ''200601021504'', WithLogPath ''./'', WithFileName ''foo'',
      WithAsynchronous, WithBuffer, WithBufferThreshold 8, WithCompress, WithLock,
      WithMaxRemain 3, WithRollingVolumeSize ''100mb'', WithRollingTimePattern ''0 0 * * *'']"

definition test_destcfg :: config where
  "test_destcfg =
     \<lparr>TimeTagFormat = ''200601021504'', LogPath = ''./'', FileName = ''foo'', MaxRemain = 3,
      RollingPolicy = TimeRolling, RollingTimePattern = ''0 0 * * *'', RollingVolumeSize = ''100mb'',
      WriterMode = ''lock'', BufferWriterThreshold = 8, Compress = True\<rparr>"

definition TestOptions :: bool where
  "TestOptions \<longleftrightarrow> apply_options test_options = test_destcfg"

subsection \<open>Properties of the options\<close>

text \<open>
  The package's test passes: the options applied in order give the expected configuration;
  each option sets its field, and of the two rolling options the later one decides the policy.
\<close>

theorem options_test_config: "TestOptions"
  by (simp add: TestOptions_def test_options_def test_destcfg_def apply_options_def option_defs
                NewDefaultConfig_def)

lemma apply_options_append:
  "apply_options (ops @ [opt]) = opt (apply_options ops)"
  by (simp add: apply_options_def)

end
