(* ===== verification/SizeParser.thy ===== *)
theory SizeParser
  imports Config
begin

text \<open>
  The size parser of the volume policy, \<open>manager.ParseVolume\<close>
  (src/rollingwriter/manager.go lines 103-142): the size string is upper-cased; without
  any of the unit letters K, M, G, T the threshold is 1 GiB; otherwise the number before
  the unit (one letter, or two when the last is B) is read by \<open>strconv.Atoi\<close> with its
  error ignored, and multiplied, as an int64 that wraps, by the power of 1024 that the
  \<open>switch\<close> with \<open>fallthrough\<close> builds: \<open>T\<close>, \<open>TB\<close> and every unrecognised unit
  multiply four times, \<open>G\<close>/\<open>GB\<close> three, \<open>M\<close>/\<open>MB\<close> two, \<open>K\<close>/\<open>KB\<close> once.
\<close>

text \<open>
  The number of \<open>unit *= 1024\<close> statements the \<open>switch unitstr\<close> executes: the case
  that matches and every case below it, through the \<open>fallthrough\<close>s; \<open>default\<close>
  falls through into the \<open>T\<close> case.
\<close>

definition unit_shifts :: "string \<Rightarrow> nat" where
  "unit_shifts u =
     (if u = ''T'' \<or> u = ''TB'' then 4
      else if u = ''G'' \<or> u = ''GB'' then 3
      else if u = ''M'' \<or> u = ''MB'' then 2
      else if u = ''K'' \<or> u = ''KB'' then 1
      else 4)"

definition volume_unit :: "string \<Rightarrow> int64" where
  "volume_unit u = 1024 ^ unit_shifts u"

definition has_unit_letter :: "string \<Rightarrow> bool" where
  "has_unit_letter s \<longleftrightarrow>
     go_contains s ''K'' \<or> go_contains s ''KB'' \<or> go_contains s ''M'' \<or> go_contains s ''MB'' \<or>
     go_contains s ''G'' \<or> go_contains s ''GB'' \<or> go_contains s ''T'' \<or> go_contains s ''TB''"

text \<open>
  The threshold \<open>ParseVolume\<close> stores into \<open>m.thresholdSize\<close>. \<open>p\<close> and
  \<open>unitstr\<close> are first read with a one-letter unit and re-read with a two-letter one
  when the last byte is B, as the code does.
\<close>

definition parse_volume_size :: "string \<Rightarrow> int64" where
  "parse_volume_size v =
     (let s = go_to_upper v in
      if \<not> has_unit_letter s then 1024 * 1024 * 1024
      else
        let n = length s;
            p1 = go_atoi (take (n - 1) s);
            u1 = [s ! (n - 1)];
            (p, unitstr) = (if s ! (n - 1) = CHR ''B''
                            then (go_atoi (take (n - 2) s), drop (n - 2) s)
                            else (p1, u1))
        in word_of_int p * volume_unit unitstr)"

text \<open>The units the spec names, with the power of 1024 each stands for.\<close>

definition unit_table :: "(string \<times> nat) list" where
  "unit_table = [(''K'', 1), (''KB'', 1), (''M'', 2), (''MB'', 2),
                 (''G'', 3), (''GB'', 3), (''T'', 4), (''TB'', 4)]"

subsection \<open>Properties of the size parser\<close>

lemma unit_table_cases:
  "(u, k) \<in> set unit_table \<longleftrightarrow>
     (u = ''K'' \<and> k = 1) \<or> (u = ''KB'' \<and> k = 1) \<or> (u = ''M'' \<and> k = 2) \<or> (u = ''MB'' \<and> k = 2) \<or>
     (u = ''G'' \<and> k = 3) \<or> (u = ''GB'' \<and> k = 3) \<or> (u = ''T'' \<and> k = 4) \<or> (u = ''TB'' \<and> k = 4)"
  by (auto simp: unit_table_def)

lemma has_unit_letter_mem:
  "has_unit_letter s \<Longrightarrow> \<exists>c \<in> set s. c \<in> set ''KMGT''"
  by (auto simp: has_unit_letter_def dest!: go_contains_Cons_mem)

lemma parse_volume_size_digits_unit:
  assumes ds: "ds \<noteq> []" "\<forall>c \<in> set ds. go_is_digit c" "dec_value 0 ds < 2 ^ 63"
    and u: "(u, k) \<in> set unit_table"
  shows "parse_volume_size (ds @ u) = word_of_int (int (dec_value 0 ds)) * 1024 ^ k"
proof -
  have atoi: "go_atoi ds = int (dec_value 0 ds)"
    using ds by (rule go_atoi_digits)
  have up: "go_to_upper (ds @ u) = ds @ u"
    using u go_to_upper_digits [OF ds(2)]
    by (auto simp: unit_table_cases go_to_upper_def go_upper_char_def)
  have has: "has_unit_letter (ds @ u)"
    using u by (auto simp: unit_table_cases has_unit_letter_def)
  show ?thesis
    using u up has atoi
    by (auto simp: unit_table_cases parse_volume_size_def volume_unit_def unit_shifts_def
                   nth_append)
qed

lemmas size_eval [model_simps] =
  parse_volume_size_def has_unit_letter_def volume_unit_def unit_shifts_def
  go_to_upper_def go_upper_char_def go_atoi_def go_parse_uint_def go_is_digit_def
  digit_val_def char_of_def bit_0

text \<open>The examples of the spec: 1K, 2MB, 3GB and an unparseable string.\<close>

theorem parse_volume_size_examples:
  "parse_volume_size ''1K'' = 1024 \<and> parse_volume_size ''2MB'' = 2097152 \<and>
   parse_volume_size ''3GB'' = 3221225472 \<and> parse_volume_size ''weird'' = 1073741824"
  by (simp add: size_eval)

text \<open>
  C32: a decimal number followed by one of the units K, KB, M, MB, G, GB, T, TB is
  multiplied by the unit's power of 1024, computed in int64.
\<close>

theorem parse_volume_size_unit:
  assumes "ds \<noteq> []" "\<forall>c \<in> set ds. go_is_digit c" "dec_value 0 ds < 2 ^ 63"
    and "(u, k) \<in> set unit_table"
  shows "parse_volume_size (ds @ u) = word_of_int (int (dec_value 0 ds)) * 1024 ^ k"
  using assms by (rule parse_volume_size_digits_unit)

text \<open>The parser is case-insensitive.\<close>

theorem parse_volume_size_case_insensitive:
  "parse_volume_size (go_to_lower v) = parse_volume_size v"
  by (simp add: parse_volume_size_def go_to_upper_lower)

text \<open>A size string with none of the unit letters k, m, g, t means 1 GiB.\<close>

theorem parse_volume_size_default:
  assumes "\<forall>c \<in> set v. c \<notin> set ''kKmMgGtT''"
  shows "parse_volume_size v = 1073741824"
proof -
  have "\<not> has_unit_letter (go_to_upper v)"
  proof
    assume "has_unit_letter (go_to_upper v)"
    then obtain c where "c \<in> set v" "go_upper_char c \<in> set ''KMGT''"
      by (auto simp: go_to_upper_def dest!: has_unit_letter_mem)
    with assms show False using upper_unit_letter_from by blast
  qed
  then show ?thesis by (simp add: parse_volume_size_def)
qed

text \<open>
  The product is an int64 that wraps: the threshold read as a signed value is the
  mathematical product reduced into the int64 range, so a large size becomes negative.
\<close>

theorem parse_volume_size_sint:
  assumes ds: "ds \<noteq> []" "\<forall>c \<in> set ds. go_is_digit c" "dec_value 0 ds < 2 ^ 63"
    and u: "(u, k) \<in> set unit_table"
  shows "sint (parse_volume_size (ds @ u)) =
           (int (dec_value 0 ds) * 1024 ^ k + 2 ^ 63) mod 2 ^ 64 - 2 ^ 63"
proof -
  have "parse_volume_size (ds @ u) = word_of_int (int (dec_value 0 ds) * 1024 ^ k)"
    using parse_volume_size_digits_unit [OF ds u] by simp
  then show ?thesis by (simp only: int_word_sint) simp
qed

text \<open>
  C33: a size string that contains a unit letter but does not end in a unit the
  \<open>switch\<close> recognises (say \<open>1MiB\<close>, or \<open>100MB \<close> with a trailing blank)
  gives the threshold 0 and not the 1 GiB default: the unit letter is left in the number
  that \<open>Atoi\<close> reads, which then fails.
\<close>

theorem parse_volume_size_unknown_unit:
  assumes len: "length v \<le> 21" and c: "c \<in> set v" "c \<in> set ''kKmMgGtT''"
    and last_unit: "go_upper_char (last v) \<notin> set ''KMGTB'' \<or>
       (go_upper_char (last v) = CHR ''B'' \<and> go_upper_char (last (butlast v)) \<notin> set ''KMGT'')"
  shows "parse_volume_size v = 0"
proof -
  define s where "s = go_to_upper v"
  define x where "x = go_upper_char c"
  have x: "x \<in> set ''KMGT''" and xs: "x \<in> set s"
    using c upper_unit_letter_to by (auto simp: x_def s_def go_to_upper_def)
  have ne: "v \<noteq> []" using c by auto
  have ls: "length s = length v" by (simp add: s_def go_to_upper_def)
  have lst: "last s = go_upper_char (last v)"
    using ne by (simp add: s_def go_to_upper_def last_map)
  have has: "has_unit_letter s"
    using x xs go_contains_singleton [OF xs] by (auto simp: has_unit_letter_def)
  have nth_last: "s ! (length s - 1) = last s"
  proof -
    have "s \<noteq> []" using ne ls by auto
    then show ?thesis by (simp add: last_conv_nth)
  qed
  from last_unit show ?thesis
  proof
    assume nb: "go_upper_char (last v) \<notin> set ''KMGTB''"
    have "x \<in> set (butlast s)"
      using xs x nb lst by (intro mem_butlast_if_not_last) auto
    then have "go_atoi (take (length s - 1) s) = 0"
      using len ls x by (intro go_atoi_unit_letter [of _ x]) (simp_all add: butlast_conv_take)
    moreover have "s ! (length s - 1) \<noteq> CHR ''B''"
      using nb lst nth_last by auto
    ultimately show ?thesis
      using has by (simp add: parse_volume_size_def s_def [symmetric] Let_def)
  next
    assume b: "go_upper_char (last v) = CHR ''B'' \<and> go_upper_char (last (butlast v)) \<notin> set ''KMGT''"
    have two: "2 \<le> length s"
    proof (rule ccontr)
      assume "\<not> 2 \<le> length s"
      with xs have "s = [last s]" by (cases s) (auto simp: not_le)
      then have "x \<in> set [last s]" using xs by simp
      then have "x = last s" by simp
      with x b lst show False by simp
    qed
    have lb: "last (butlast s) = go_upper_char (last (butlast v))"
    proof -
      have "1 \<le> length (butlast v)" using two ls by simp
      then have "butlast v \<noteq> []" by (metis le_zero_eq list.size(3) one_neq_zero)
      then show ?thesis by (simp add: s_def go_to_upper_def last_map map_butlast [symmetric])
    qed
    have "x \<in> set (butlast (butlast s))"
    proof -
      have "set s = set (butlast (butlast s)) \<union> {last (butlast s), last s}"
        by (subst butlast_butlast_split [OF two]) auto
      with xs x b lst lb show ?thesis by auto
    qed
    then have "go_atoi (take (length s - 2) s) = 0"
      using len ls x by (intro go_atoi_unit_letter [of _ x]) (simp_all add: butlast_conv_take numeral_2_eq_2)
    moreover have "s ! (length s - 1) = CHR ''B''"
      using b lst nth_last by simp
    ultimately show ?thesis
      using has by (simp add: parse_volume_size_def s_def [symmetric] Let_def)
  qed
qed


subsection \<open>Witnesses\<close>

theorem parse_volume_size_unit_witness:
  "''2'' \<noteq> [] \<and> go_is_digit (CHR ''2'') \<and> dec_value 0 ''2'' < 2 ^ 63 \<and>
   (''MB'', 2) \<in> set unit_table \<and>
   parse_volume_size (''2'' @ ''MB'') = word_of_int (int (dec_value 0 ''2'')) * 1024 ^ 2"
  using parse_volume_size_unit [of "''2''" "''MB''" 2]
  by (simp add: unit_table_def go_is_digit_def digit_val_def)

theorem parse_volume_size_default_witness:
  "parse_volume_size ''weird'' = 1073741824"
  using parse_volume_size_default [of "''weird''"] by simp

theorem parse_volume_size_sint_witness:
  "''8388608'' \<noteq> [] \<and> go_is_digit (CHR ''8'') \<and> go_is_digit (CHR ''3'') \<and> go_is_digit (CHR ''6'') \<and>
   go_is_digit (CHR ''0'') \<and>
   dec_value 0 ''8388608'' < 2 ^ 63 \<and> (''T'', 4) \<in> set unit_table \<and>
   sint (parse_volume_size (''8388608'' @ ''T'')) = - (2 ^ 63)"
  using parse_volume_size_sint [of "''8388608''" "''T''" 4]
  by (simp add: unit_table_def go_is_digit_def digit_val_def)

theorem parse_volume_size_unknown_unit_witness:
  "length ''1MiB'' \<le> 21 \<and> CHR ''M'' \<in> set ''1MiB'' \<and> CHR ''M'' \<in> set ''kKmMgGtT'' \<and>
   go_upper_char (last ''1MiB'') = CHR ''B'' \<and>
   go_upper_char (last (butlast ''1MiB'')) \<notin> set ''KMGT'' \<and>
   parse_volume_size ''1MiB'' = 0"
  using parse_volume_size_unknown_unit [of "''1MiB''" "CHR ''M''"]
  by (simp add: go_upper_char_def char_of_def bit_0)

end
