(* ===== verification/Manager.thy ===== *)
theory Manager
  imports SizeParser
begin

text \<open>
  The rotation manager (src/rollingwriter/manager.go): its state, the constructor
  \<open>NewManager\<close>, the name generator \<open>GenLogFileName\<close>, the two triggers (the cron job
  of the time policy and the one-second size poller of the volume policy), \<open>Close\<close>, and
  the receive a writer performs on the \<open>fire\<close> channel.

  The channel \<open>fire\<close> is unbuffered: a trigger that has computed a name blocks in
  \<open>m.fire <- name\<close> until a writer receives it. The state keeps the names offered by
  blocked senders, oldest first (Go's channel queues blocked senders in FIFO order). The
  cron library runs every job in a goroutine of its own, so several cron jobs can be
  blocked at once; the poller is one goroutine and cannot tick while it is blocked.
  Time is a \<^typ>\<open>nat\<close> (seconds), given to every step that calls \<open>time.Now()\<close>.
\<close>

datatype trigger = NoTrigger | CronJob | VolumePoller

record manager =
  thresholdSize :: int64
  startAt :: nat
  fire :: "path list"
  ctx_closed :: bool
  trigger :: trigger
  cron_running :: bool
  poller_running :: bool

text \<open>\<open>ParseVolume\<close> as the update of \<open>m.thresholdSize\<close>.\<close>

definition ParseVolume :: "config \<Rightarrow> manager \<Rightarrow> manager" where
  "ParseVolume c m = m\<lparr>thresholdSize := parse_volume_size (RollingVolumeSize c)\<rparr>"

text \<open>
  \<open>NewManager\<close>: the \<open>switch\<close> on the policy; \<open>default\<close> falls through to
  \<open>WithoutRolling\<close>, which returns the idle manager. The time policy registers the
  cron job, failing when the cron parser rejects the pattern, and starts the scheduler;
  the volume policy parses the threshold and starts the poller.
\<close>

definition NewManager :: "env \<Rightarrow> config \<Rightarrow> nat \<Rightarrow> manager result" where
  "NewManager e c now =
     (let m = \<lparr>thresholdSize = 0, startAt = now, fire = [], ctx_closed = False,
               trigger = NoTrigger, cron_running = False, poller_running = False\<rparr>
      in if RollingPolicy c = TimeRolling then
           (if cron_valid e (RollingTimePattern c)
            then Inr (m\<lparr>trigger := CronJob, cron_running := True\<rparr>)
            else Inl ErrCronSpec)
         else if RollingPolicy c = VolumeRolling then
           Inr ((ParseVolume c m)\<lparr>trigger := VolumePoller, poller_running := True\<rparr>)
         else Inr m)"

text \<open>
  \<open>GenLogFileName\<close>: the historical name carries the start of the segment it closes,
  formatted with \<open>TimeTagFormat\<close>, with \<open>.gz\<close> when compression is on; the start is
  then reset to now.
\<close>

definition GenLogFileName :: "env \<Rightarrow> config \<Rightarrow> nat \<Rightarrow> manager \<Rightarrow> path \<times> manager" where
  "GenLogFileName e c now m =
     (let filename =
        (if Compress c
         then go_path_join [LogPath c, FileName c @ ''.log.gz.'' @ time_format e (TimeTagFormat c) (startAt m)]
         else go_path_join [LogPath c, FileName c @ ''.log.'' @ time_format e (TimeTagFormat c) (startAt m)])
      in (filename, m\<lparr>startAt := now\<rparr>))"

text \<open>A tick of the cron schedule: a new job goroutine computes a name and blocks on \<open>fire\<close>.\<close>

definition cron_tick :: "env \<Rightarrow> config \<Rightarrow> nat \<Rightarrow> manager \<Rightarrow> manager" where
  "cron_tick e c now m =
     (if trigger m = CronJob \<and> cron_running m
      then (let (n, m') = GenLogFileName e c now m in m'\<lparr>fire := fire m' @ [n]\<rparr>)
      else m)"

text \<open>
  A tick of the poller's timer: \<open>os.Open\<close> and \<open>Stat\<close> of the active file give its size
  (\<open>None\<close> when the open fails, and the loop continues); a size above the threshold,
  compared as int64, generates a name and blocks the poller on \<open>fire\<close>. A blocked poller
  does not tick.
\<close>

definition poll_tick :: "env \<Rightarrow> config \<Rightarrow> nat \<Rightarrow> nat option \<Rightarrow> manager \<Rightarrow> manager" where
  "poll_tick e c now fsize m =
     (if trigger m = VolumePoller \<and> poller_running m \<and> fire m = []
      then (case fsize of
              None \<Rightarrow> m
            | Some sz \<Rightarrow>
                if sint (thresholdSize m) < int sz
                then (let (n, m') = GenLogFileName e c now m in m'\<lparr>fire := [n]\<rparr>)
                else m)
      else m)"

text \<open>The poller's \<open>select\<close> takes the closed \<open>context\<close> channel and returns.\<close>

definition poll_exit :: "manager \<Rightarrow> manager" where
  "poll_exit m =
     (if poller_running m \<and> ctx_closed m \<and> fire m = [] then m\<lparr>poller_running := False\<rparr> else m)"

text \<open>
  \<open>Close\<close>: \<open>close(m.context)\<close> panics when the channel is already closed;
  \<open>cron.Stop\<close> stops the schedule.
\<close>

definition manager_Close :: "manager \<Rightarrow> manager result" where
  "manager_Close m =
     (if ctx_closed m then Inl (Panic ''close of closed channel'')
      else Inr (m\<lparr>ctx_closed := True, cron_running := False\<rparr>))"

text \<open>A writer's \<open>case filename := <-w.fire\<close>: the oldest blocked sender hands its name over.\<close>

definition fire_recv :: "manager \<Rightarrow> (path \<times> manager) option" where
  "fire_recv m = (case fire m of [] \<Rightarrow> None | n # ns \<Rightarrow> Some (n, m\<lparr>fire := ns\<rparr>))"

subsection \<open>The manager's steps and reachable states\<close>

inductive mgr_step :: "env \<Rightarrow> config \<Rightarrow> manager \<Rightarrow> manager \<Rightarrow> bool" where
  cron: "mgr_step e c m (cron_tick e c now m)"
| poll: "mgr_step e c m (poll_tick e c now fsize m)"
| exit: "mgr_step e c m (poll_exit m)"
| recv: "fire_recv m = Some (n, m') \<Longrightarrow> mgr_step e c m m'"
| close: "manager_Close m = Inr m' \<Longrightarrow> mgr_step e c m m'"

inductive mgr_reach :: "env \<Rightarrow> config \<Rightarrow> nat \<Rightarrow> manager \<Rightarrow> bool" where
  init: "NewManager e c now = Inr m \<Longrightarrow> mgr_reach e c now m"
| step: "mgr_reach e c now m \<Longrightarrow> mgr_step e c m m' \<Longrightarrow> mgr_reach e c now m'"

definition mgr_inv :: "manager \<Rightarrow> bool" where
  "mgr_inv m \<longleftrightarrow> (trigger m \<noteq> CronJob \<longrightarrow> length (fire m) \<le> 1) \<and>
                 (trigger m = NoTrigger \<longrightarrow> fire m = [])"


subsection \<open>Properties of the manager\<close>

lemma NewManager_Inr:
  "NewManager e c now = Inr m \<Longrightarrow>
   fire m = [] \<and> \<not> ctx_closed m \<and>
   trigger m = (if RollingPolicy c = TimeRolling then CronJob
                else if RollingPolicy c = VolumeRolling then VolumePoller else NoTrigger)"
  by (auto simp: NewManager_def ParseVolume_def Let_def split: if_splits)

lemma mgr_step_trigger: "mgr_step e c m m' \<Longrightarrow> trigger m' = trigger m"
  by (induction rule: mgr_step.induct)
     (auto simp: cron_tick_def poll_tick_def poll_exit_def fire_recv_def manager_Close_def
                 GenLogFileName_def Let_def split: option.splits list.splits if_splits)

lemma mgr_step_inv: "mgr_step e c m m' \<Longrightarrow> mgr_inv m \<Longrightarrow> mgr_inv m'"
  by (induction rule: mgr_step.induct)
     (auto simp: mgr_inv_def cron_tick_def poll_tick_def poll_exit_def fire_recv_def
                 manager_Close_def GenLogFileName_def Let_def split: option.splits list.splits if_splits)

lemma mgr_reach_inv:
  "mgr_reach e c now m \<Longrightarrow> mgr_inv m \<and>
     trigger m = (if RollingPolicy c = TimeRolling then CronJob
                  else if RollingPolicy c = VolumeRolling then VolumePoller else NoTrigger)"
proof (induction rule: mgr_reach.induct)
  case (init e c now m)
  then show ?case by (auto simp: mgr_inv_def dest: NewManager_Inr)
next
  case (step e c now m m')
  then show ?case using mgr_step_inv mgr_step_trigger by metis
qed

text \<open>
  C27: under the volume policy at most one historical name waits on the \<open>fire\<close>
  channel in every reachable state of the manager: the poller blocks until a writer
  takes its name (the spec's single-pending-name invariant).
\<close>

theorem volume_fire_at_most_one:
  assumes "mgr_reach e c now m" and "RollingPolicy c = VolumeRolling"
  shows "length (fire m) \<le> 1"
proof -
  have "TimeRolling \<noteq> VolumeRolling" by (simp add: TimeRolling_def VolumeRolling_def)
  with assms mgr_reach_inv [OF assms(1)] show ?thesis
    by (auto simp: mgr_inv_def)
qed

text \<open>
  C28: under the time policy the invariant fails: each cron tick starts a goroutine that
  blocks on \<open>fire\<close> with a name of its own, so two (or more) names can be pending.
\<close>

theorem cron_fire_two_pending:
  assumes "RollingPolicy c = TimeRolling" and "cron_valid e (RollingTimePattern c)"
  shows "\<exists>m. mgr_reach e c now m \<and> length (fire m) = 2"
proof -
  obtain m0 where m0: "NewManager e c now = Inr m0"
    using assms by (simp add: NewManager_def Let_def)
  have t: "trigger m0 = CronJob" "cron_running m0" "fire m0 = []"
    using m0 assms by (auto simp: NewManager_def Let_def split: if_splits)
  define m1 where "m1 = cron_tick e c now m0"
  define m2 where "m2 = cron_tick e c now m1"
  have r2: "mgr_reach e c now m2"
    unfolding m2_def m1_def
    by (rule mgr_reach.step [OF mgr_reach.step [OF mgr_reach.init [OF m0] mgr_step.cron] mgr_step.cron])
  have "length (fire m2) = 2"
    using t by (simp add: m2_def m1_def cron_tick_def GenLogFileName_def Let_def)
  with r2 show ?thesis by blast
qed

text \<open>
  \<open>NewManager\<close> fails exactly when the time policy is chosen and the cron parser
  rejects the pattern, and the error is the parser's.
\<close>

theorem NewManager_error:
  "NewManager e c now = Inl err \<longleftrightarrow>
     RollingPolicy c = TimeRolling \<and> \<not> cron_valid e (RollingTimePattern c) \<and> err = ErrCronSpec"
  by (auto simp: NewManager_def Let_def)

text \<open>
  C29: \<open>Close\<close> of the manager is not idempotent: a second call panics on the closed
  \<open>context\<close> channel (the spec requires it to be harmless).
\<close>

theorem manager_Close_twice_panics:
  assumes "NewManager e c now = Inr m"
  shows "\<exists>m'. manager_Close m = Inr m' \<and> manager_Close m' = Inl (Panic ''close of closed channel'')"
  using NewManager_Inr [OF assms] by (simp add: manager_Close_def)

subsection \<open>Witnesses\<close>

definition demo_volume_config :: config where
  "demo_volume_config = WithRollingVolumeSize ''1K'' NewDefaultConfig"

definition demo_time_config :: config where
  "demo_time_config = WithRollingTimePattern ''* * * * *'' NewDefaultConfig"

theorem volume_fire_at_most_one_witness:
  "mgr_reach demo_env demo_volume_config 0 (projr (NewManager demo_env demo_volume_config 0)) \<and>
   RollingPolicy demo_volume_config = VolumeRolling \<and>
   length (fire (projr (NewManager demo_env demo_volume_config 0))) \<le> 1"
proof -
  have r: "mgr_reach demo_env demo_volume_config 0 (projr (NewManager demo_env demo_volume_config 0))"
    by (rule mgr_reach.init)
       (simp add: NewManager_def demo_volume_config_def option_defs rolling_policy_defs
                  NewDefaultConfig_def Let_def)
  have p: "RollingPolicy demo_volume_config = VolumeRolling"
    by (simp add: demo_volume_config_def option_defs)
  show ?thesis using r p volume_fire_at_most_one [OF r p] by simp
qed

theorem cron_fire_two_pending_witness:
  "RollingPolicy demo_time_config = TimeRolling \<and>
   cron_valid demo_env (RollingTimePattern demo_time_config) \<and>
   (\<exists>m. mgr_reach demo_env demo_time_config 0 m \<and> length (fire m) = 2)"
proof -
  have p: "RollingPolicy demo_time_config = TimeRolling"
    and v: "cron_valid demo_env (RollingTimePattern demo_time_config)"
    by (simp_all add: demo_time_config_def option_defs demo_env_def)
  show ?thesis using p v cron_fire_two_pending [OF p v] by blast
qed

theorem manager_Close_twice_panics_witness:
  "NewManager demo_env demo_volume_config 0 = Inr (projr (NewManager demo_env demo_volume_config 0)) \<and>
   (\<exists>m'. manager_Close (projr (NewManager demo_env demo_volume_config 0)) = Inr m' \<and>
         manager_Close m' = Inl (Panic ''close of closed channel''))"
proof -
  have n: "NewManager demo_env demo_volume_config 0 = Inr (projr (NewManager demo_env demo_volume_config 0))"
    by (simp add: NewManager_def demo_volume_config_def option_defs rolling_policy_defs
                  NewDefaultConfig_def Let_def)
  show ?thesis using n manager_Close_twice_panics [OF n] by blast
qed

end
