(* ===== verification/FileSys.thy ===== *)
theory FileSys
  imports Config
begin

text \<open>
  The part of the operating system the writer drives through package \<open>os\<close>: a flat
  directory from paths to inodes, the bytes of each inode, and the open file handles.
  A handle names an inode, not a path, as a POSIX file descriptor does: after
  \<open>os.Rename\<close> a handle still writes into the renamed file. Files are opened with
  \<open>O_RDWR|O_CREATE|O_APPEND\<close> (\<open>DefualtFileFlag\<close>), so every write appends.
  Creating a file fails for the paths in \<open>fs_denied\<close> (a permission error); renaming or
  removing a path that does not exist fails with \<open>ErrNotExist\<close>; writing or closing a
  closed handle fails with \<open>ErrFileClosed\<close>. Disk-full and I/O errors are not modelled.
\<close>

record fsys =
  fs_dir :: "path \<rightharpoonup> nat"
  fs_data :: "nat \<Rightarrow> bytes"
  fs_next_ino :: nat
  fs_handles :: "nat \<rightharpoonup> nat"
  fs_next_fd :: nat
  fs_denied :: "path list"

text \<open>\<open>os.OpenFile(p, O_RDWR|O_CREATE|O_APPEND, 0644)\<close>: a new handle on the file at
  \<open>p\<close>, created empty when there is none.\<close>

definition os_open_append :: "fsys \<Rightarrow> path \<Rightarrow> (nat \<times> fsys) result" where
  "os_open_append fs p =
     (case fs_dir fs p of
        Some i \<Rightarrow> Inr (fs_next_fd fs,
                     fs\<lparr>fs_handles := (fs_handles fs)(fs_next_fd fs \<mapsto> i),
                        fs_next_fd := Suc (fs_next_fd fs)\<rparr>)
      | None \<Rightarrow>
          if p \<in> set (fs_denied fs) then Inl ErrPermission
          else Inr (fs_next_fd fs,
                    fs\<lparr>fs_dir := (fs_dir fs)(p \<mapsto> fs_next_ino fs),
                       fs_data := (fs_data fs)(fs_next_ino fs := []),
                       fs_next_ino := Suc (fs_next_ino fs),
                       fs_handles := (fs_handles fs)(fs_next_fd fs \<mapsto> fs_next_ino fs),
                       fs_next_fd := Suc (fs_next_fd fs)\<rparr>))"

text \<open>\<open>os.Rename(a, b)\<close>: POSIX \<open>rename\<close>, which replaces an existing \<open>b\<close>.\<close>

definition os_rename :: "fsys \<Rightarrow> path \<Rightarrow> path \<Rightarrow> fsys result" where
  "os_rename fs a b =
     (case fs_dir fs a of
        None \<Rightarrow> Inl ErrNotExist
      | Some i \<Rightarrow> Inr (if a = b then fs else fs\<lparr>fs_dir := ((fs_dir fs)(b \<mapsto> i))(a := None)\<rparr>))"

definition os_remove :: "fsys \<Rightarrow> path \<Rightarrow> fsys result" where
  "os_remove fs p =
     (case fs_dir fs p of
        None \<Rightarrow> Inl ErrNotExist
      | Some _ \<Rightarrow> Inr (fs\<lparr>fs_dir := (fs_dir fs)(p := None)\<rparr>))"

definition os_write :: "fsys \<Rightarrow> nat \<Rightarrow> bytes \<Rightarrow> (nat \<times> fsys) result" where
  "os_write fs fd b =
     (case fs_handles fs fd of
        None \<Rightarrow> Inl ErrFileClosed
      | Some i \<Rightarrow> Inr (length b, fs\<lparr>fs_data := (fs_data fs)(i := fs_data fs i @ b)\<rparr>))"

definition os_close :: "fsys \<Rightarrow> nat \<Rightarrow> fsys result" where
  "os_close fs fd =
     (case fs_handles fs fd of
        None \<Rightarrow> Inl ErrFileClosed
      | Some _ \<Rightarrow> Inr (fs\<lparr>fs_handles := (fs_handles fs)(fd := None)\<rparr>))"

text \<open>\<open>os.Open(p)\<close> (read only, no creation) and \<open>ioutil.ReadAll\<close> of a handle.\<close>

definition os_open :: "fsys \<Rightarrow> path \<Rightarrow> (nat \<times> fsys) result" where
  "os_open fs p =
     (case fs_dir fs p of
        None \<Rightarrow> Inl ErrNotExist
      | Some i \<Rightarrow> Inr (fs_next_fd fs,
                     fs\<lparr>fs_handles := (fs_handles fs)(fs_next_fd fs \<mapsto> i),
                        fs_next_fd := Suc (fs_next_fd fs)\<rparr>))"

definition os_read_all :: "fsys \<Rightarrow> nat \<Rightarrow> bytes result" where
  "os_read_all fs fd = (case fs_handles fs fd of None \<Rightarrow> Inl ErrFileClosed | Some i \<Rightarrow> Inr (fs_data fs i))"

text \<open>\<open>os.Open\<close> and \<open>Stat().Size()\<close>, as the size poller uses them.\<close>

definition os_size :: "fsys \<Rightarrow> path \<Rightarrow> nat option" where
  "os_size fs p = map_option (\<lambda>i. length (fs_data fs i)) (fs_dir fs p)"

text \<open>The bytes of the file at a path, for the statements.\<close>

definition file_at :: "fsys \<Rightarrow> path \<Rightarrow> bytes option" where
  "file_at fs p = map_option (fs_data fs) (fs_dir fs p)"

text \<open>An error the code only logs: the state after a step whose error is dropped.\<close>

definition ignore_err :: "fsys \<Rightarrow> fsys result \<Rightarrow> fsys" where
  "ignore_err fs r = (case r of Inl _ \<Rightarrow> fs | Inr fs' \<Rightarrow> fs')"

text \<open>
  Well-formedness: every directory entry and every open handle names an allocated inode
  (below \<open>fs_next_ino\<close>), and no open handle is numbered at or above \<open>fs_next_fd\<close>.
\<close>

definition fs_wf :: "fsys \<Rightarrow> bool" where
  "fs_wf fs \<longleftrightarrow>
     (\<forall>p i. fs_dir fs p = Some i \<longrightarrow> i < fs_next_ino fs) \<and>
     (\<forall>h i. fs_handles fs h = Some i \<longrightarrow> i < fs_next_ino fs) \<and>
     (\<forall>h. fs_next_fd fs \<le> h \<longrightarrow> fs_handles fs h = None)"

text \<open>A small directory for the examples: two log files, nothing open.\<close>

definition demo_fs :: fsys where
  "demo_fs =
     \<lparr>fs_dir = Map.empty(''/l/a'' \<mapsto> 0, ''/l/b'' \<mapsto> 1), fs_data = (\<lambda>_. []), fs_next_ino = 2,
      fs_handles = Map.empty, fs_next_fd = 0, fs_denied = []\<rparr>"

subsection \<open>Facts about the operations\<close>

lemma os_open_append_wf:
  "os_open_append fs p = Inr (fd, fs') \<Longrightarrow> fs_wf fs \<Longrightarrow> fs_wf fs'"
  unfolding os_open_append_def fs_wf_def
  by (auto split: option.splits if_splits simp: less_Suc_eq)

lemma os_rename_wf: "os_rename fs a b = Inr fs' \<Longrightarrow> fs_wf fs \<Longrightarrow> fs_wf fs'"
  by (auto simp: os_rename_def fs_wf_def split: option.splits if_splits)

lemma os_remove_wf: "os_remove fs p = Inr fs' \<Longrightarrow> fs_wf fs \<Longrightarrow> fs_wf fs'"
  by (auto simp: os_remove_def fs_wf_def split: option.splits if_splits)

lemma os_write_wf: "os_write fs fd b = Inr (n, fs') \<Longrightarrow> fs_wf fs \<Longrightarrow> fs_wf fs'"
  by (auto simp: os_write_def fs_wf_def split: option.splits)

lemma os_close_wf: "os_close fs fd = Inr fs' \<Longrightarrow> fs_wf fs \<Longrightarrow> fs_wf fs'"
  by (auto simp: os_close_def fs_wf_def split: option.splits if_splits)

lemma ignore_err_wf: "fs_wf fs \<Longrightarrow> (\<And>fs'. r = Inr fs' \<Longrightarrow> fs_wf fs') \<Longrightarrow> fs_wf (ignore_err fs r)"
  by (cases r) (simp_all add: ignore_err_def)

lemma os_open_wf: "os_open fs p = Inr (fd, fs') \<Longrightarrow> fs_wf fs \<Longrightarrow> fs_wf fs'"
  by (auto simp: os_open_def fs_wf_def split: option.splits if_splits)

lemmas fs_wf_intros [intro] =
  os_open_append_wf os_open_wf os_rename_wf os_remove_wf os_write_wf os_close_wf

text \<open>A new handle is fresh: no handle had its number.\<close>

lemma os_open_append_fresh:
  "os_open_append fs p = Inr (fd, fs') \<Longrightarrow> fs_wf fs \<Longrightarrow>
   fs_handles fs fd = None \<and> fs_handles fs' fd = Some (the (fs_dir fs' p)) \<and> fs_dir fs' p \<noteq> None"
  by (auto simp: os_open_append_def fs_wf_def split: option.splits if_splits)

lemma os_open_append_data:
  "os_open_append fs p = Inr (fd, fs') \<Longrightarrow> fs_wf fs \<Longrightarrow>
   file_at fs' p = Some (case file_at fs p of None \<Rightarrow> [] | Some d \<Rightarrow> d) \<and>
   (\<forall>q. q \<noteq> p \<longrightarrow> file_at fs' q = file_at fs q)"
  by (auto simp: os_open_append_def file_at_def fs_wf_def split: option.splits if_splits
           intro!: option.map_cong0) (meson less_irrefl_nat)

lemma os_rename_file_at:
  "os_rename fs a b = Inr fs' \<Longrightarrow>
   file_at fs' b = file_at fs a \<and> (a \<noteq> b \<longrightarrow> file_at fs' a = None) \<and>
   (\<forall>q. q \<noteq> a \<and> q \<noteq> b \<longrightarrow> file_at fs' q = file_at fs q)"
  by (auto simp: os_rename_def file_at_def split: option.splits if_splits)

lemma os_write_file_at:
  "os_write fs fd b = Inr (n, fs') \<Longrightarrow>
   n = length b \<and>
   (\<forall>q. file_at fs' q = (if fs_dir fs q = fs_handles fs fd
                         then map_option (\<lambda>d. d @ b) (file_at fs q) else file_at fs q))"
  by (auto simp: os_write_def file_at_def split: option.splits intro!: option.map_cong0)

end
