(* ===== verification/Retention.thy ===== *)
theory Retention
  imports FileSys
begin

text \<open>
  The retention queue of historical file names, \<open>Writer.rollingfilech\<close>: a buffered Go
  channel of capacity \<open>MaxRemain\<close> (created only when \<open>MaxRemain > 0\<close>). The state is
  the list of names in the channel, oldest first. \<open>DoRemove\<close>
  (src/rollingwriter/writer.go lines 212-220) receives the oldest name and deletes the
  file, only logging a failure; its \<open>select\<close> has no \<open>default\<close>, so on an empty
  channel it blocks, which is \<open>None\<close> here. The enqueue loop (lines 131-138 at startup
  and 281-287 after a rotation) tries a non-blocking send and, when the channel is full,
  calls \<open>DoRemove\<close> and retries. The startup scan (lines 92-128) collects the files of
  the log directory whose name contains \<open>FileName + ".log"\<close> and whose extension parses
  as a time tag, sorts them by that time and pushes them through the same loop.
\<close>

definition DoRemove :: "fsys \<Rightarrow> path list \<Rightarrow> (fsys \<times> path list) option" where
  "DoRemove fs q = (case q of [] \<Rightarrow> None | f # q' \<Rightarrow> Some (ignore_err fs (os_remove fs f), q'))"

lemma DoRemove_shorter: "DoRemove fs q = Some (fs', q') \<Longrightarrow> length q' < length q"
  by (auto simp: DoRemove_def split: list.splits)

function try_enqueue :: "nat \<Rightarrow> fsys \<Rightarrow> path list \<Rightarrow> path \<Rightarrow> (fsys \<times> path list) option" where
  "try_enqueue cap fs q n =
     (if length q < cap then Some (fs, q @ [n])
      else (case DoRemove fs q of
              None \<Rightarrow> None
            | Some (fs', q') \<Rightarrow> try_enqueue cap fs' q' n))"
  by pat_completeness auto
termination
  by (relation "measure (\<lambda>(cap, fs, q, n). length q)") (auto dest: DoRemove_shorter)

declare try_enqueue.simps [simp del]

text \<open>Pushing a list of names one after the other, as the startup loop does.\<close>

fun enqueue_all :: "nat \<Rightarrow> fsys \<Rightarrow> path list \<Rightarrow> path list \<Rightarrow> (fsys \<times> path list) option" where
  "enqueue_all cap fs q [] = Some (fs, q)"
| "enqueue_all cap fs q (n # ns) =
     (case try_enqueue cap fs q n of
        None \<Rightarrow> None
      | Some (fs', q') \<Rightarrow> enqueue_all cap fs' q' ns)"

subsection \<open>The startup scan\<close>

text \<open>\<open>path.Ext\<close>: the suffix from the last dot of the last path element, or empty.\<close>

definition go_ext :: "string \<Rightarrow> string" where
  "go_ext p =
     (let r = takeWhile (\<lambda>ch. ch \<noteq> CHR ''/'') (rev p)
      in if CHR ''.'' \<in> set r then CHR ''.'' # rev (takeWhile (\<lambda>ch. ch \<noteq> CHR ''.'') r) else [])"

definition is_history_file :: "env \<Rightarrow> config \<Rightarrow> string \<Rightarrow> bool" where
  "is_history_file e c name \<longleftrightarrow>
     go_contains name (FileName c @ ''.log'') \<and>
     (let suffix = go_ext name
      in 1 < length suffix \<and> time_parse e (TimeTagFormat c) (tl suffix) \<noteq> None)"

definition history_time :: "env \<Rightarrow> config \<Rightarrow> string \<Rightarrow> nat" where
  "history_time e c name = the (time_parse e (TimeTagFormat c) (tl (go_ext name)))"

text \<open>
  The files of the directory listing (the non-directory entries \<open>ioutil.ReadDir\<close>
  returns) that are taken for historical logs, ordered by their time tag. Go's
  \<open>sort.Slice\<close> is not stable; \<^const>\<open>sort_key\<close> is, and the lemmas below do not
  depend on the order of files with equal tags.
\<close>

definition scan_history :: "env \<Rightarrow> config \<Rightarrow> string list \<Rightarrow> string list" where
  "scan_history e c listing = sort_key (history_time e c) (filter (is_history_file e c) listing)"

definition startup_trim :: "env \<Rightarrow> config \<Rightarrow> fsys \<Rightarrow> string list \<Rightarrow> (fsys \<times> path list) option" where
  "startup_trim e c fs listing =
     enqueue_all (nat (MaxRemain c)) fs []
       (map (\<lambda>f. go_path_join [LogPath c, f]) (scan_history e c listing))"

subsection \<open>The removals as one function\<close>

definition remove_all :: "fsys \<Rightarrow> path list \<Rightarrow> fsys" where
  "remove_all fs xs = fold (\<lambda>f fs. ignore_err fs (os_remove fs f)) xs fs"

lemma remove_all_Nil [simp]: "remove_all fs [] = fs"
  by (simp add: remove_all_def)

lemma remove_all_Cons [simp]:
  "remove_all fs (f # xs) = remove_all (ignore_err fs (os_remove fs f)) xs"
  by (simp add: remove_all_def)

lemma remove_all_append: "remove_all fs (xs @ ys) = remove_all (remove_all fs xs) ys"
  by (simp add: remove_all_def)

lemma os_remove_dir:
  "fs_dir (ignore_err fs (os_remove fs f)) = (fs_dir fs)(f := None)"
  by (auto simp: ignore_err_def os_remove_def split: option.splits)

lemma remove_all_dir:
  "fs_dir (remove_all fs xs) p = (if p \<in> set xs then None else fs_dir fs p)"
  by (induction xs arbitrary: fs) (auto simp: os_remove_dir)

lemma remove_all_data: "fs_data (remove_all fs xs) = fs_data fs"
  by (induction xs arbitrary: fs) (auto simp: ignore_err_def os_remove_def split: option.splits sum.splits)

definition retain :: "nat \<Rightarrow> 'a list \<Rightarrow> 'a list" where
  "retain cap ns = drop (length ns - cap) ns"


definition demo_retention_config :: config where
  "demo_retention_config = NewDefaultConfig\<lparr>LogPath := ''/l'', FileName := ''app'', MaxRemain := 1\<rparr>"


subsection \<open>Properties of the retention queue\<close>

lemma try_enqueue_eq:
  assumes "0 < cap" and "length q \<le> cap"
  shows "try_enqueue cap fs q n =
           Some (remove_all fs (take (Suc (length q) - cap) q), drop (Suc (length q) - cap) q @ [n])"
proof (cases "length q < cap")
  case True
  then show ?thesis by (simp add: try_enqueue.simps)
next
  case False
  with assms have len: "length q = cap" by simp
  with assms obtain f q' where q: "q = f # q'" by (cases q) auto
  have "try_enqueue cap fs q n = try_enqueue cap (ignore_err fs (os_remove fs f)) q' n"
    using False by (subst try_enqueue.simps) (simp add: q DoRemove_def)
  also have "\<dots> = Some (ignore_err fs (os_remove fs f), q' @ [n])"
    using len q by (subst try_enqueue.simps) simp
  finally show ?thesis using len q by simp
qed

lemma enqueue_all_eq:
  assumes "0 < cap" and "length q \<le> cap"
  shows "enqueue_all cap fs q ns =
           Some (remove_all fs (take (length (q @ ns) - cap) (q @ ns)), drop (length (q @ ns) - cap) (q @ ns))"
  using assms(2)
proof (induction ns arbitrary: fs q)
  case Nil
  then show ?case
    by (simp add: take_eq_Nil)
next
  case (Cons n ns)
  define k where "k = Suc (length q) - cap"
  define X where "X = q @ n # ns"
  have k_le: "k \<le> length q" using assms(1) by (simp add: k_def)
  have step: "try_enqueue cap fs q n = Some (remove_all fs (take k q), drop k q @ [n])"
    using try_enqueue_eq [OF assms(1) Cons.prems] by (simp add: k_def)
  have len1: "length (drop k q @ [n]) \<le> cap"
    using Cons.prems assms(1) by (simp add: k_def)
  have q1: "drop k q @ n # ns = drop k X"
    using k_le by (simp add: X_def)
  define j where "j = length (drop k X) - cap"
  have m: "length X - cap = k + j"
    using Cons.prems assms(1) k_le by (simp add: X_def j_def k_def)
  define fs1 where "fs1 = remove_all fs (take k q)"
  have ih: "enqueue_all cap fs1 (drop k q @ [n]) ns = Some (remove_all fs1 (take j (drop k X)), drop j (drop k X))"
    using Cons.IH [OF len1, of fs1] unfolding j_def
    by (simp only: append_assoc append_Cons append_Nil q1)
  have "enqueue_all cap fs q (n # ns) =
          enqueue_all cap (remove_all fs (take k q)) (drop k q @ [n]) ns"
    by (simp add: step)
  also have "\<dots> = Some (remove_all (remove_all fs (take k q)) (take j (drop k X)), drop j (drop k X))"
    using ih by (simp add: fs1_def)
  also have "take k q = take k X"
    using k_le by (simp add: X_def)
  also have "remove_all (remove_all fs (take k X)) (take j (drop k X)) = remove_all fs (take (k + j) X)"
    by (simp add: remove_all_append take_add)
  finally have e: "enqueue_all cap fs q (n # ns) = Some (remove_all fs (take (k + j) X), drop (k + j) X)"
    by (simp add: add.commute)
  show ?case
    using e m by (simp only: X_def)
qed

text \<open>
  C23: with a positive capacity the enqueue loop always returns (the blocking receive of
  \<open>DoRemove\<close> is never reached on an empty channel): a name is appended, and when the
  channel is full exactly the oldest name is received and its file removed first.
\<close>

theorem try_enqueue_evicts_oldest:
  assumes "0 < cap" and "length q \<le> cap"
  shows "try_enqueue cap fs q n =
           Some (remove_all fs (take (Suc (length q) - cap) q), drop (Suc (length q) - cap) q @ [n])"
  using assms by (rule try_enqueue_eq)

text \<open>
  C24: refinement of the abstract retention policy: pushing names one after another into
  the channel keeps exactly the last \<open>cap\<close> of them, in order (\<open>retain\<close>), and
  removes the files of the others; the channel never holds more than \<open>cap\<close> names.
\<close>

theorem enqueue_all_refines_retain:
  assumes "0 < cap"
  shows "enqueue_all cap fs [] ns = Some (remove_all fs (take (length ns - cap) ns), retain cap ns) \<and>
         length (retain cap ns) = min cap (length ns)"
  using enqueue_all_eq [OF assms, of "[]" fs ns] by (simp add: retain_def)

text \<open>
  C25: after any number of rotations whose historical names are distinct and exist, the
  files left on disk among them are exactly the \<open>cap\<close> most recent ones.
\<close>

theorem retention_keeps_latest:
  assumes "0 < cap" and "distinct ns" and "\<forall>f \<in> set ns. fs_dir fs f \<noteq> None"
  shows "\<exists>fs'. enqueue_all cap fs [] ns = Some (fs', retain cap ns) \<and>
               (\<forall>f \<in> set ns. fs_dir fs' f \<noteq> None \<longleftrightarrow> f \<in> set (retain cap ns))"
proof -
  define k where "k = length ns - cap"
  have e: "enqueue_all cap fs [] ns = Some (remove_all fs (take k ns), retain cap ns)"
    using enqueue_all_eq [OF assms(1), of "[]" fs ns] by (simp add: retain_def k_def)
  have disj: "set (take k ns) \<inter> set (drop k ns) = {}"
    using assms(2) by (simp add: set_take_disj_set_drop_if_distinct)
  have un: "set ns = set (take k ns) \<union> set (drop k ns)"
    by (metis append_take_drop_id set_append)
  have "\<forall>f \<in> set ns. fs_dir (remove_all fs (take k ns)) f \<noteq> None \<longleftrightarrow> f \<in> set (retain cap ns)"
    using assms(3) disj un by (auto simp: remove_all_dir retain_def k_def)
  with e show ?thesis by blast
qed

text \<open>
  C26: when two rotations produce the same historical name (two rotations within one
  minute with the default tag layout), the name's second entry survives in the channel
  but its file is deleted when the first entry is evicted: the newest history is lost.
\<close>

theorem retention_same_name_deleted:
  assumes "0 < cap" and "length (a # xs) = cap"
  shows "\<exists>fs'. enqueue_all cap fs [] (a # xs @ [a]) = Some (fs', xs @ [a]) \<and> fs_dir fs' a = None"
proof -
  have "length (a # xs @ [a]) - cap = 1" using assms(2) by simp
  then show ?thesis
    using enqueue_all_eq [OF assms(1), of "[]" fs "a # xs @ [a]"]
    by (simp add: remove_all_dir del: enqueue_all.simps remove_all_Cons)
qed

lemma go_ext_tag:
  assumes "CHR ''.'' \<notin> set t" and "CHR ''/'' \<notin> set t"
  shows "go_ext (p @ CHR ''.'' # t) = CHR ''.'' # t"
proof -
  have r: "rev (p @ CHR ''.'' # t) = rev t @ CHR ''.'' # rev p" by simp
  have a: "takeWhile (\<lambda>ch. ch \<noteq> CHR ''/'') (rev t @ CHR ''.'' # rev p) =
             rev t @ CHR ''.'' # takeWhile (\<lambda>ch. ch \<noteq> CHR ''/'') (rev p)"
    using assms(2) by (subst takeWhile_append2) auto
  have b: "takeWhile (\<lambda>ch. ch \<noteq> CHR ''.'') (rev t @ CHR ''.'' # q) = rev t" for q
    using assms(1) by (subst takeWhile_append2) auto
  show ?thesis unfolding go_ext_def Let_def r a b by simp
qed

lemma is_history_file_tag:
  assumes "time_parse e (TimeTagFormat c) tag = Some t"
    and "CHR ''.'' \<notin> set tag" and "CHR ''/'' \<notin> set tag" and "tag \<noteq> []"
  shows "is_history_file e c (pre @ FileName c @ ''.log.'' @ tag)"
    and "history_time e c (pre @ FileName c @ ''.log.'' @ tag) = t"
proof -
  have n: "pre @ FileName c @ ''.log.'' @ tag = (pre @ FileName c @ ''.log'') @ CHR ''.'' # tag" by simp
  have x: "go_ext (pre @ FileName c @ ''.log.'' @ tag) = CHR ''.'' # tag"
    unfolding n using assms(2,3) by (rule go_ext_tag)
  have s: "sublist (FileName c @ ''.log'') (pre @ (FileName c @ ''.log'') @ CHR ''.'' # tag)"
    by (rule sublist_appendI)
  show "is_history_file e c (pre @ FileName c @ ''.log.'' @ tag)"
    unfolding is_history_file_def Let_def x using s assms(1,4) by (simp add: go_contains_iff n)
  show "history_time e c (pre @ FileName c @ ''.log.'' @ tag) = t"
    unfolding history_time_def x using assms(1) by simp
qed

text \<open>
  C34: the startup scan selects files by \<open>strings.Contains\<close>: in every environment, a
  file \<open>pre ++ FileName ++ .log.tag1\<close> whose tag parses with \<open>TimeTagFormat\<close> (so
  also the file of another logger whose name ends in \<open>FileName\<close>) is taken for a
  historical log of this writer; with retention 1 and a newer log of the writer's own, it
  is deleted.
\<close>

theorem startup_trim_removes_foreign_file:
  assumes mr: "MaxRemain c = 1"
    and p1: "time_parse e (TimeTagFormat c) tag1 = Some t1"
    and p2: "time_parse e (TimeTagFormat c) tag2 = Some t2" and le: "t1 \<le> t2"
    and g1: "CHR ''.'' \<notin> set tag1" "CHR ''/'' \<notin> set tag1" "tag1 \<noteq> []"
    and g2: "CHR ''.'' \<notin> set tag2" "CHR ''/'' \<notin> set tag2" "tag2 \<noteq> []"
  shows "\<exists>fs'. startup_trim e c fs [pre @ FileName c @ ''.log.'' @ tag1, FileName c @ ''.log.'' @ tag2] =
                 Some (fs', [go_path_join [LogPath c, FileName c @ ''.log.'' @ tag2]]) \<and>
               fs_dir fs' (go_path_join [LogPath c, pre @ FileName c @ ''.log.'' @ tag1]) = None"
proof -
  let ?f1 = "pre @ FileName c @ ''.log.'' @ tag1" and ?f2 = "FileName c @ ''.log.'' @ tag2"
  have h1: "is_history_file e c ?f1" "history_time e c ?f1 = t1"
    using is_history_file_tag [OF p1 g1] by simp_all
  have h2: "is_history_file e c ?f2" "history_time e c ?f2 = t2"
    using is_history_file_tag [OF p2 g2, of "[]"] by simp_all
  have scan: "scan_history e c [?f1, ?f2] = [?f1, ?f2]"
    unfolding scan_history_def using h1 h2 le by simp
  have cap: "nat (MaxRemain c) = 1" using mr by simp
  show ?thesis
    unfolding startup_trim_def cap scan
    using enqueue_all_eq [of 1 "[]" fs "[go_path_join [LogPath c, ?f1], go_path_join [LogPath c, ?f2]]"]
    by (simp add: remove_all_dir del: enqueue_all.simps remove_all_Cons)
qed

subsection \<open>Witnesses\<close>

theorem startup_trim_removes_foreign_file_witness:
  "\<exists>fs'. startup_trim demo_env demo_retention_config demo_fs
            [''webapp.log.202301010000'', ''app.log.202301010100''] =
          Some (fs', [''/l/app.log.202301010100'']) \<and> fs_dir fs' ''/l/webapp.log.202301010000'' = None"
proof -
  have c: "MaxRemain demo_retention_config = 1" "FileName demo_retention_config = ''app''"
    "LogPath demo_retention_config = ''/l''" "TimeTagFormat demo_retention_config = ''200601021504''"
    by (simp_all add: demo_retention_config_def NewDefaultConfig_def)
  have p: "time_parse demo_env ''200601021504'' ''202301010000'' = Some (202301010000 * 60)"
          "time_parse demo_env ''200601021504'' ''202301010100'' = Some (202301010100 * 60)"
    by (simp_all add: demo_env_def go_is_digit_def digit_val_def)
  have j: "go_path_join [''/l'', ''webapp.log.202301010000''] = ''/l/webapp.log.202301010000''"
          "go_path_join [''/l'', ''app.log.202301010100''] = ''/l/app.log.202301010100''"
    by (simp_all add: go_path_join_def go_clean_def clean_step_def)
  show ?thesis
    using startup_trim_removes_foreign_file [of demo_retention_config demo_env "''202301010000''"
            "202301010000 * 60" "''202301010100''" "202301010100 * 60" demo_fs "''web''"]
    by (simp add: c p j)
qed

theorem try_enqueue_evicts_oldest_witness:
  "0 < (1::nat) \<and> length [''/l/a''] \<le> 1 \<and>
   try_enqueue 1 demo_fs [''/l/a''] ''/l/b'' =
     Some (remove_all demo_fs (take (Suc (length [''/l/a'']) - 1) [''/l/a'']),
           drop (Suc (length [''/l/a'']) - 1) [''/l/a''] @ [''/l/b''])"
  using try_enqueue_evicts_oldest [of 1 "[''/l/a'']" demo_fs "''/l/b''"] by simp

theorem enqueue_all_refines_retain_witness:
  "0 < (1::nat) \<and>
   enqueue_all 1 demo_fs [] [''/l/a'', ''/l/b''] =
     Some (remove_all demo_fs (take (length [''/l/a'', ''/l/b''] - 1) [''/l/a'', ''/l/b'']),
           retain 1 [''/l/a'', ''/l/b'']) \<and>
   length (retain 1 [''/l/a'', ''/l/b'']) = min 1 (length [''/l/a'', ''/l/b''])"
  using enqueue_all_refines_retain [of 1 demo_fs "[''/l/a'', ''/l/b'']"] by simp

theorem retention_keeps_latest_witness:
  "distinct [''/l/a'', ''/l/b''] \<and> fs_dir demo_fs ''/l/a'' \<noteq> None \<and> fs_dir demo_fs ''/l/b'' \<noteq> None \<and>
   (\<exists>fs'. enqueue_all 1 demo_fs [] [''/l/a'', ''/l/b''] = Some (fs', [''/l/b'']) \<and>
          fs_dir fs' ''/l/a'' = None \<and> fs_dir fs' ''/l/b'' \<noteq> None)"
proof -
  have h: "0 < (1::nat)" "distinct [''/l/a'', ''/l/b'']"
    "\<forall>f \<in> set [''/l/a'', ''/l/b'']. fs_dir demo_fs f \<noteq> None"
    by (simp_all add: demo_fs_def)
  from retention_keeps_latest [OF h] obtain fs' where
    "enqueue_all 1 demo_fs [] [''/l/a'', ''/l/b''] = Some (fs', retain 1 [''/l/a'', ''/l/b''])"
    "\<forall>f \<in> set [''/l/a'', ''/l/b'']. fs_dir fs' f \<noteq> None \<longleftrightarrow> f \<in> set (retain 1 [''/l/a'', ''/l/b''])"
    by blast
  then show ?thesis using h by (simp add: retain_def demo_fs_def del: enqueue_all.simps)
qed

theorem retention_same_name_deleted_witness:
  "0 < (1::nat) \<and> length [''/l/a''] = 1 \<and>
   (\<exists>fs'. enqueue_all 1 demo_fs [] (''/l/a'' # [] @ [''/l/a'']) = Some (fs', [] @ [''/l/a'']) \<and>
          fs_dir fs' ''/l/a'' = None)"
  using retention_same_name_deleted [of 1 "''/l/a''" "[]" demo_fs] by simp

end
