(* ===== verification/WriterCore.thy ===== *)
theory WriterCore
  imports Manager Retention
begin

text \<open>
  The rotation-and-write protocol shared by the writers (src/rollingwriter/writer.go):
  \<open>Writer.Reopen\<close> (lines 248-291), the goroutine it starts, \<open>Writer.CompressFile\<close>
  (lines 222-246), the check-then-write of \<open>Writer.Write\<close> and \<open>LockedWriter.Write\<close>
  (lines 293-326) and \<open>Close\<close> (lines 385-395).

  The sink's state is the file system, the manager (whose \<open>fire\<close> channel the writer
  polls), the writer's own fields, and the background goroutines \<open>Reopen\<close> has started
  and that have not run yet, each given by the handle it must close and the historical
  name it works on. \<open>Reopen\<close> changes the file system even when it fails (a rename that
  succeeded before the open failed stays done), so it returns the file system beside its
  result.
\<close>

record writer =
  w_file :: nat
  w_absPath :: path
  w_rolling :: "path list"

record sink =
  sk_fs :: fsys
  sk_mgr :: manager
  sk_w :: writer
  sk_tasks :: "(nat \<times> path) list"

text \<open>
  \<open>Reopen(file)\<close>: rename the active file to \<open>file\<close>, open a fresh active file, swap
  the handle (\<open>atomic.SwapPointer\<close> returns the old one) and start the background task
  for the old handle.
\<close>

definition Reopen :: "writer \<Rightarrow> fsys \<Rightarrow> path \<Rightarrow> (go_error + (writer \<times> (nat \<times> path))) \<times> fsys" where
  "Reopen w fs file =
     (case os_rename fs (w_absPath w) file of
        Inl err \<Rightarrow> (Inl err, fs)
      | Inr fs1 \<Rightarrow>
          (case os_open_append fs1 (w_absPath w) of
             Inl err \<Rightarrow> (Inl err, fs1)
           | Inr (newfd, fs2) \<Rightarrow> (Inr (w\<lparr>w_file := newfd\<rparr>, (w_file w, file)), fs2)))"

text \<open>
  The deferred \<open>gw.Close()\<close> and \<open>cmpfile.Close()\<close> of \<open>CompressFile\<close>: the gzip
  stream of what was copied is flushed into the output, which is then closed.
\<close>

definition gzip_close :: "env \<Rightarrow> nat \<Rightarrow> bytes \<Rightarrow> fsys \<Rightarrow> fsys" where
  "gzip_close e cfd copied fs =
     (let fs' = (case os_write fs cfd (gzip e copied) of Inl _ \<Rightarrow> fs | Inr (_, fs') \<Rightarrow> fs')
      in ignore_err fs' (os_close fs' cfd))"

text \<open>
  \<open>CompressFile(oldfile, cmpname)\<close>: open (create) \<open>cmpname\<close>; \<open>oldfile.Seek(0, 0)\<close>
  fails on a closed handle; otherwise \<open>io.Copy\<close> streams the whole content of the old
  handle's file into the gzip writer (reads of an open handle do not fail in this model,
  so the branch that removes a partial output is not reached), and \<open>cmpname + ".tmp"\<close>
  is removed; the deferred closes run last.
\<close>

definition CompressFile :: "env \<Rightarrow> fsys \<Rightarrow> nat \<Rightarrow> path \<Rightarrow> unit result \<times> fsys" where
  "CompressFile e fs oldfd cmpname =
     (case os_open_append fs cmpname of
        Inl err \<Rightarrow> (Inl err, fs)
      | Inr (cfd, fs1) \<Rightarrow>
          (case fs_handles fs1 oldfd of
             None \<Rightarrow> (Inl ErrFileClosed, gzip_close e cfd [] fs1)
           | Some ino \<Rightarrow>
               (case os_remove fs1 (cmpname @ ''.tmp'') of
                  Inl err \<Rightarrow> (Inl err, gzip_close e cfd (fs_data fs1 ino) fs1)
                | Inr fs2 \<Rightarrow> (Inr (), gzip_close e cfd (fs_data fs1 ino) fs2))))"

text \<open>
  The goroutine of \<open>Reopen\<close>: with compression, rename the historical file to
  \<open>.tmp\<close> and compress it back under its name, giving up (after logging) on an error;
  then, with a bounded retention, push the name through the eviction loop. The deferred
  close of the old handle runs last. \<open>None\<close>: the goroutine blocks for ever.
\<close>

definition retention_push :: "config \<Rightarrow> fsys \<Rightarrow> path list \<Rightarrow> path \<Rightarrow> (fsys \<times> path list) option" where
  "retention_push c fs q file =
     (if 0 < MaxRemain c then try_enqueue (nat (MaxRemain c)) fs q file else Some (fs, q))"

definition bg_task :: "env \<Rightarrow> config \<Rightarrow> fsys \<Rightarrow> path list \<Rightarrow> nat \<times> path \<Rightarrow> (fsys \<times> path list) option" where
  "bg_task e c fs q task =
     (let (oldfd, file) = task;
          close_old = (\<lambda>(fs', q'). (ignore_err fs' (os_close fs' oldfd), q'))
      in if Compress c then
           (case os_rename fs file (file @ ''.tmp'') of
              Inl _ \<Rightarrow> Some (close_old (fs, q))
            | Inr fs1 \<Rightarrow>
                (case CompressFile e fs1 oldfd file of
                   (Inl _, fs2) \<Rightarrow> Some (close_old (fs2, q))
                 | (Inr _, fs2) \<Rightarrow> map_option close_old (retention_push c fs2 q file)))
         else map_option close_old (retention_push c fs q file))"

text \<open>
  The write of the caller's bytes to the active handle (\<open>file.Write(b)\<close>): a short
  write returns an error and no count here.
\<close>

definition file_write :: "bytes \<Rightarrow> sink \<Rightarrow> nat result \<times> sink" where
  "file_write b st =
     (case os_write (sk_fs st) (w_file (sk_w st)) b of
        Inl err \<Rightarrow> (Inl err, st)
      | Inr (n, fs') \<Rightarrow> (Inr n, st\<lparr>sk_fs := fs'\<rparr>))"

text \<open>
  The \<open>select\<close> on \<open>fire\<close> every \<open>Write\<close> starts with: a non-blocking receive; a
  pending name makes \<open>Reopen\<close> run, and a failed \<open>Reopen\<close> is returned as
  \<open>(0, err)\<close> by the caller.
\<close>

definition poll_fire :: "sink \<Rightarrow> unit result \<times> sink" where
  "poll_fire st =
     (case fire_recv (sk_mgr st) of
        None \<Rightarrow> (Inr (), st)
      | Some (name, m') \<Rightarrow>
          (case Reopen (sk_w st) (sk_fs st) name of
             (Inl err, fs') \<Rightarrow> (Inl err, st\<lparr>sk_mgr := m', sk_fs := fs'\<rparr>)
           | (Inr (w', task), fs') \<Rightarrow>
               (Inr (), st\<lparr>sk_mgr := m', sk_fs := fs', sk_w := w', sk_tasks := sk_tasks st @ [task]\<rparr>)))"

text \<open>
  The check-then-write protocol: \<open>poll_fire\<close>, then the bytes go to the active handle.
  \<open>Writer.Write\<close> runs it unlocked, \<open>LockedWriter.Write\<close> under the mutex; run alone,
  both are this function.
\<close>

definition check_and_write :: "bytes \<Rightarrow> sink \<Rightarrow> nat result \<times> sink" where
  "check_and_write b st =
     (case poll_fire st of
        (Inl err, st') \<Rightarrow> (Inl err, st')
      | (Inr _, st') \<Rightarrow> file_write b st')"

text \<open>\<open>Writer.Close\<close> and \<open>LockedWriter.Close\<close>: close the active handle, nothing else.\<close>

definition writer_Close :: "sink \<Rightarrow> unit result \<times> sink" where
  "writer_Close st =
     (case os_close (sk_fs st) (w_file (sk_w st)) of
        Inl err \<Rightarrow> (Inl err, st)
      | Inr fs' \<Rightarrow> (Inr (), st\<lparr>sk_fs := fs'\<rparr>))"

text \<open>One background goroutine, the \<open>i\<close>-th started and not yet run, runs to its end.\<close>

definition run_task :: "env \<Rightarrow> config \<Rightarrow> nat \<Rightarrow> sink \<Rightarrow> sink option" where
  "run_task e c i st =
     (if i < length (sk_tasks st) then
        map_option (\<lambda>(fs', q'). st\<lparr>sk_fs := fs', sk_w := (sk_w st)\<lparr>w_rolling := q'\<rparr>,
                                   sk_tasks := take i (sk_tasks st) @ drop (Suc i) (sk_tasks st)\<rparr>)
          (bg_task e c (sk_fs st) (w_rolling (sk_w st)) (sk_tasks st ! i))
      else None)"

text \<open>
  The operations a client can run on a sink, one after the other: a write (the whole
  check-then-write), \<open>Close\<close>, or one pending background goroutine. \<open>sink_steps\<close> is the
  transition relation of a sequence of them, in the style of the file-system operations of
  HOL/Unix; a goroutine that blocks for ever has no successor.
\<close>

datatype sink_op = SinkWrite bytes | SinkClose | SinkTask nat

definition sink_step :: "env \<Rightarrow> config \<Rightarrow> sink_op \<Rightarrow> sink \<Rightarrow> sink option" where
  "sink_step e c op st =
     (case op of
        SinkWrite b \<Rightarrow> Some (snd (check_and_write b st))
      | SinkClose \<Rightarrow> Some (snd (writer_Close st))
      | SinkTask i \<Rightarrow> run_task e c i st)"

inductive sink_steps :: "env \<Rightarrow> config \<Rightarrow> sink \<Rightarrow> sink_op list \<Rightarrow> sink \<Rightarrow> bool" where
  sink_steps_Nil: "sink_steps e c st [] st"
| sink_steps_Cons: "sink_step e c op st = Some st' \<Longrightarrow> sink_steps e c st' ops st'' \<Longrightarrow>
                    sink_steps e c st (op # ops) st''"

code_pred sink_steps .

subsection \<open>The writer's invariant\<close>

text \<open>
  The active handle is open and writes into the file at the active path; the handles of
  pending background tasks are open and distinct from it.
\<close>

definition writer_inv :: "sink \<Rightarrow> bool" where
  "writer_inv st \<longleftrightarrow>
     fs_wf (sk_fs st) \<and>
     fs_dir (sk_fs st) (w_absPath (sk_w st)) \<noteq> None \<and>
     fs_handles (sk_fs st) (w_file (sk_w st)) = fs_dir (sk_fs st) (w_absPath (sk_w st)) \<and>
     (\<forall>(h, n) \<in> set (sk_tasks st). h \<noteq> w_file (sk_w st) \<and> fs_handles (sk_fs st) h \<noteq> None)"

subsection \<open>The log a writer produces\<close>

text \<open>The bytes of the file at a path, empty when there is none.\<close>

definition file_bytes :: "fsys \<Rightarrow> path \<Rightarrow> bytes" where
  "file_bytes fs p = (case file_at fs p of None \<Rightarrow> [] | Some d \<Rightarrow> d)"

text \<open>The log a sequence of historical names and the active file make together: the bytes a reader
  concatenating the history in rotation order and then the active file sees.\<close>

definition log_of :: "sink \<Rightarrow> path list \<Rightarrow> bytes" where
  "log_of st hist =
     concat (map (file_bytes (sk_fs st)) hist) @ file_bytes (sk_fs st) (w_absPath (sk_w st))"

text \<open>The history after one check-then-write: one more name when a rotation is pending.\<close>

definition rotated_next :: "sink \<Rightarrow> path list \<Rightarrow> path list" where
  "rotated_next st hist = (case fire_recv (sk_mgr st) of None \<Rightarrow> hist | Some (n, _) \<Rightarrow> hist @ [n])"

text \<open>The segment invariant: the writer's invariant, the active path and the historical names are
  distinct, every historical name exists, and no two of these paths share a file.\<close>

definition seg_inv :: "sink \<Rightarrow> path list \<Rightarrow> bool" where
  "seg_inv st hist \<longleftrightarrow>
     writer_inv st \<and> distinct (w_absPath (sk_w st) # hist) \<and>
     (\<forall>n \<in> set hist. fs_dir (sk_fs st) n \<noteq> None) \<and>
     distinct (map (fs_dir (sk_fs st)) (w_absPath (sk_w st) # hist))"

text \<open>A pending rotation is to a name that does not exist yet, distinct from the active path, and
  the active file can be created again.\<close>

definition fresh_pending :: "sink \<Rightarrow> bool" where
  "fresh_pending st \<longleftrightarrow>
     (case fire_recv (sk_mgr st) of
        None \<Rightarrow> True
      | Some (n, _) \<Rightarrow> fs_dir (sk_fs st) n = None \<and> n \<noteq> w_absPath (sk_w st) \<and>
                      w_absPath (sk_w st) \<notin> set (fs_denied (sk_fs st)))"

text \<open>Example states: a sink with one active file and one pending rotation, the same with the
  creation of the active file refused, a sink whose pending name is already a historical file,
  a directory right after a rotation (the old handle 0 still open), a configuration with
  compression.\<close>

definition demo_sink :: sink where
  "demo_sink =
     \<lparr>sk_fs = \<lparr>fs_dir = Map.empty(''/l/app.log'' \<mapsto> 0), fs_data = (\<lambda>_. [72, 105]), fs_next_ino = 1,
               fs_handles = Map.empty(0 \<mapsto> 0), fs_next_fd = 1, fs_denied = []\<rparr>,
      sk_mgr = \<lparr>thresholdSize = 0, startAt = 0, fire = [''/l/app-1.log''], ctx_closed = False,
                trigger = CronJob, cron_running = True, poller_running = False\<rparr>,
      sk_w = \<lparr>w_file = 0, w_absPath = ''/l/app.log'', w_rolling = []\<rparr>,
      sk_tasks = []\<rparr>"

definition demo_denied_sink :: sink where
  "demo_denied_sink = demo_sink\<lparr>sk_fs := (sk_fs demo_sink)\<lparr>fs_denied := [''/l/app.log'']\<rparr>\<rparr>"

definition demo_repeat_sink :: sink where
  "demo_repeat_sink =
     \<lparr>sk_fs = \<lparr>fs_dir = Map.empty(''/l/app.log'' \<mapsto> 1, ''/l/app-1.log'' \<mapsto> 0),
               fs_data = (\<lambda>i. if i = 0 then [1] else [2]), fs_next_ino = 2,
               fs_handles = Map.empty(0 \<mapsto> 1), fs_next_fd = 1, fs_denied = []\<rparr>,
      sk_mgr = \<lparr>thresholdSize = 0, startAt = 0, fire = [''/l/app-1.log''], ctx_closed = False,
                trigger = CronJob, cron_running = True, poller_running = False\<rparr>,
      sk_w = \<lparr>w_file = 0, w_absPath = ''/l/app.log'', w_rolling = []\<rparr>,
      sk_tasks = []\<rparr>"

definition demo_rotated_fs :: fsys where
  "demo_rotated_fs =
     \<lparr>fs_dir = Map.empty(''/l/app-1.log.gz'' \<mapsto> 0, ''/l/app.log'' \<mapsto> 1),
      fs_data = (\<lambda>i. if i = 0 then [1, 2, 3] else []), fs_next_ino = 2,
      fs_handles = Map.empty(0 \<mapsto> 0, 1 \<mapsto> 1), fs_next_fd = 2, fs_denied = []\<rparr>"

definition demo_compress_config :: config where
  "demo_compress_config = WithCompress NewDefaultConfig"

subsection \<open>Facts about the operations\<close>

lemma file_write_active:
  assumes "writer_inv st" and "fs_dir (sk_fs st) (w_absPath (sk_w st)) = Some i"
  shows "file_write b st =
           (Inr (length b), st\<lparr>sk_fs := (sk_fs st)\<lparr>fs_data := (fs_data (sk_fs st))(i := fs_data (sk_fs st) i @ b)\<rparr>\<rparr>)"
  using assms by (simp add: file_write_def os_write_def writer_inv_def)

lemma Reopen_fresh:
  assumes "fs_dir fs (w_absPath w) = Some i" and "fs_dir fs n = None" and "n \<noteq> w_absPath w"
    and "w_absPath w \<notin> set (fs_denied fs)"
  shows "Reopen w fs n =
           (Inr (w\<lparr>w_file := fs_next_fd fs\<rparr>, (w_file w, n)),
            fs\<lparr>fs_dir := ((fs_dir fs)(n \<mapsto> i))(w_absPath w \<mapsto> fs_next_ino fs),
               fs_data := (fs_data fs)(fs_next_ino fs := []),
               fs_next_ino := Suc (fs_next_ino fs),
               fs_handles := (fs_handles fs)(fs_next_fd fs \<mapsto> fs_next_ino fs),
               fs_next_fd := Suc (fs_next_fd fs)\<rparr>)"
  using assms by (simp add: Reopen_def os_rename_def os_open_append_def fun_upd_twist)

lemma check_and_write_absPath:
  "check_and_write b st = (r, st') \<Longrightarrow> w_absPath (sk_w st') = w_absPath (sk_w st)"
  by (auto simp: check_and_write_def poll_fire_def Reopen_def file_write_def
           split: option.splits prod.splits sum.splits)

lemma file_bytes_data_upd:
  "file_bytes (fs\<lparr>fs_data := (fs_data fs)(i := x)\<rparr>) p =
     (if fs_dir fs p = Some i then x else file_bytes fs p)"
  by (auto simp: file_bytes_def file_at_def split: option.splits)

lemma concat_map_file_bytes_cong:
  "(\<And>p. p \<in> set hist \<Longrightarrow> file_bytes fs' p = file_bytes fs p) \<Longrightarrow>
   concat (map (file_bytes fs') hist) = concat (map (file_bytes fs) hist)"
  by (metis map_eq_conv)

text \<open>
  The write to the active file appends to the log; \<open>poll_fire\<close> with a rotation to a
  fresh name moves the active file into the history and leaves the log unchanged.
\<close>

lemma file_write_log:
  assumes inv: "seg_inv st hist"
  shows "\<exists>st'. file_write b st = (Inr (length b), st') \<and> seg_inv st' hist \<and>
               log_of st' hist = log_of st hist @ b"
proof -
  let ?fs = "sk_fs st" and ?abs = "w_absPath (sk_w st)"
  obtain i where i: "fs_dir ?fs ?abs = Some i"
    using inv by (auto simp: seg_inv_def writer_inv_def)
  define st' where "st' = st\<lparr>sk_fs := ?fs\<lparr>fs_data := (fs_data ?fs)(i := fs_data ?fs i @ b)\<rparr>\<rparr>"
  have w: "file_write b st = (Inr (length b), st')"
    using file_write_active [of st i b] inv i by (simp add: seg_inv_def st'_def)
  have other: "\<And>p. p \<in> set hist \<Longrightarrow> fs_dir ?fs p \<noteq> Some i"
    using inv i by (force simp: seg_inv_def image_iff)
  have "seg_inv st' hist"
    using inv by (simp add: st'_def seg_inv_def writer_inv_def fs_wf_def)
  moreover have "log_of st' hist = log_of st hist @ b"
  proof -
    have "concat (map (file_bytes (sk_fs st')) hist) = concat (map (file_bytes ?fs) hist)"
      by (rule concat_map_file_bytes_cong) (simp add: st'_def file_bytes_data_upd other)
    moreover have "file_bytes (sk_fs st') ?abs = file_bytes ?fs ?abs @ b"
      using i by (simp add: st'_def file_bytes_data_upd file_bytes_def file_at_def)
    ultimately show ?thesis by (simp add: log_of_def st'_def)
  qed
  ultimately show ?thesis using w by blast
qed

lemma poll_fire_rotation:
  assumes inv: "seg_inv st hist" and recv: "fire_recv (sk_mgr st) = Some (n, m')"
    and fresh: "fs_dir (sk_fs st) n = None" "n \<noteq> w_absPath (sk_w st)"
      "w_absPath (sk_w st) \<notin> set (fs_denied (sk_fs st))"
  shows "\<exists>st'. poll_fire st = (Inr (), st') \<and> seg_inv st' (hist @ [n]) \<and>
               log_of st' (hist @ [n]) = log_of st hist"
proof -
  let ?fs = "sk_fs st" and ?w = "sk_w st"
  let ?abs = "w_absPath ?w" and ?N = "fs_next_ino ?fs" and ?F = "fs_next_fd ?fs"
  obtain i where i: "fs_dir ?fs ?abs = Some i"
    using inv by (auto simp: seg_inv_def writer_inv_def)
  have wf: "fs_wf ?fs" using inv by (simp add: seg_inv_def writer_inv_def)
  have iN: "i < ?N" using wf i by (auto simp: fs_wf_def)
  define fs3 where "fs3 = ?fs\<lparr>fs_dir := ((fs_dir ?fs)(n \<mapsto> i))(?abs \<mapsto> ?N),
               fs_data := (fs_data ?fs)(?N := []), fs_next_ino := Suc ?N,
               fs_handles := (fs_handles ?fs)(?F \<mapsto> ?N), fs_next_fd := Suc ?F\<rparr>"
  define st' where "st' = st\<lparr>sk_mgr := m', sk_fs := fs3, sk_w := ?w\<lparr>w_file := ?F\<rparr>,
                              sk_tasks := sk_tasks st @ [(w_file ?w, n)]\<rparr>"
  have w: "poll_fire st = (Inr (), st')"
    using Reopen_fresh [OF i fresh] recv by (simp add: poll_fire_def st'_def fs3_def)
  have hist_ex: "\<And>p. p \<in> set hist \<Longrightarrow> \<exists>j. fs_dir ?fs p = Some j \<and> j < ?N \<and> j \<noteq> i"
    using inv i wf by (force simp: seg_inv_def fs_wf_def image_iff)
  have n_notin: "n \<notin> set hist" using inv fresh(1) by (auto simp: seg_inv_def)
  have abs_notin: "?abs \<notin> set hist" using inv by (simp add: seg_inv_def)
  have dir3: "\<And>p. p \<in> set hist \<Longrightarrow> fs_dir fs3 p = fs_dir ?fs p"
    using n_notin abs_notin by (auto simp: fs3_def)
  have bytes3: "\<And>p. p \<in> set hist \<Longrightarrow> file_bytes fs3 p = file_bytes ?fs p"
    using dir3 hist_ex by (fastforce simp: file_bytes_def file_at_def fs3_def)
  have F_free: "fs_handles ?fs ?F = None" using wf by (simp add: fs_wf_def)
  have old_open: "fs_handles ?fs (w_file ?w) = Some i"
    using inv i by (simp add: seg_inv_def writer_inv_def)
  have old_ne: "w_file ?w \<noteq> ?F" using old_open F_free by auto
  have tasks_ok: "\<forall>(h, p) \<in> set (sk_tasks st). h \<noteq> w_file ?w \<and> fs_handles ?fs h \<noteq> None"
    using inv by (simp add: seg_inv_def writer_inv_def)
  have "writer_inv st'"
  proof -
    have "fs_wf fs3"
      using wf iN by (auto simp: fs_wf_def fs3_def less_Suc_eq)
    moreover have "\<forall>(h, p) \<in> set (sk_tasks st'). h \<noteq> ?F \<and> fs_handles fs3 h \<noteq> None"
      using tasks_ok F_free old_ne old_open by (auto simp: st'_def fs3_def)
    ultimately show ?thesis using old_ne by (simp add: writer_inv_def st'_def fs3_def)
  qed
  moreover have "distinct (?abs # hist @ [n])"
    using inv n_notin fresh(2) by (auto simp: seg_inv_def)
  moreover have "\<forall>p \<in> set (hist @ [n]). fs_dir fs3 p \<noteq> None"
    using dir3 hist_ex by (auto simp: fs3_def)
  moreover have "distinct (map (fs_dir fs3) (?abs # hist @ [n]))"
  proof -
    have eq: "map (fs_dir fs3) (?abs # hist @ [n]) = Some ?N # map (fs_dir ?fs) hist @ [Some i]"
      using dir3 fresh(2) by (simp add: fs3_def)
    have "distinct (map (fs_dir ?fs) hist)" using inv by (simp add: seg_inv_def)
    moreover have "Some i \<notin> fs_dir ?fs ` set hist" using inv i by (simp add: seg_inv_def)
    moreover have "Some ?N \<notin> fs_dir ?fs ` set hist"
      using hist_ex by (force simp: image_iff)
    ultimately show ?thesis using iN unfolding eq by simp
  qed
  moreover have "log_of st' (hist @ [n]) = log_of st hist"
  proof -
    have "concat (map (file_bytes fs3) hist) = concat (map (file_bytes ?fs) hist)"
      by (rule concat_map_file_bytes_cong) (rule bytes3)
    moreover have "file_bytes fs3 n = file_bytes ?fs ?abs"
      using fresh(2) i iN by (simp add: file_bytes_def file_at_def fs3_def)
    moreover have "file_bytes fs3 ?abs = []"
      by (simp add: file_bytes_def file_at_def fs3_def)
    ultimately show ?thesis by (simp add: log_of_def st'_def)
  qed
  ultimately show ?thesis using w by (auto simp: seg_inv_def st'_def)
qed

lemma poll_fire_refines:
  assumes inv: "seg_inv st hist" and fp: "fresh_pending st"
  shows "\<exists>st'. poll_fire st = (Inr (), st') \<and> seg_inv st' (rotated_next st hist) \<and>
               log_of st' (rotated_next st hist) = log_of st hist"
proof (cases "fire_recv (sk_mgr st)")
  case None
  then show ?thesis using inv by (simp add: poll_fire_def rotated_next_def)
next
  case (Some a)
  then obtain n m' where r: "fire_recv (sk_mgr st) = Some (n, m')" by (cases a) auto
  then show ?thesis
    using poll_fire_rotation [OF inv r] fp by (simp add: rotated_next_def fresh_pending_def)
qed

text \<open>A successful compression of a historical file renamed to \<open>.tmp\<close>.\<close>

lemma CompressFile_ok:
  assumes wf: "fs_wf fs" and t: "fs_dir fs (f @ ''.tmp'') = Some j" and h: "fs_handles fs oldfd = Some j"
    and nf: "fs_dir fs f = None" and nd: "f \<notin> set (fs_denied fs)"
  shows "CompressFile e fs oldfd f =
           (Inr (), fs\<lparr>fs_dir := ((fs_dir fs)(f \<mapsto> fs_next_ino fs))(f @ ''.tmp'' := None),
                       fs_data := (fs_data fs)(fs_next_ino fs := gzip e (fs_data fs j)),
                       fs_next_ino := Suc (fs_next_ino fs),
                       fs_next_fd := Suc (fs_next_fd fs)\<rparr>)"
proof -
  have fresh: "fs_handles fs (fs_next_fd fs) = None" using wf by (simp add: fs_wf_def)
  have jN: "j \<noteq> fs_next_ino fs" using wf h by (auto simp: fs_wf_def)
  have ne: "f @ ''.tmp'' \<noteq> f" by simp
  have od: "oldfd \<noteq> fs_next_fd fs" using h fresh by auto
  show ?thesis
    using t h nf nd fresh jN ne od fun_upd_idem [of "fs_handles fs", OF fresh]
    by (simp add: CompressFile_def os_open_append_def os_remove_def gzip_close_def os_write_def
                  os_close_def ignore_err_def fun_upd_twist)
qed

text \<open>No pending name: \<open>poll_fire\<close> does nothing; closing a handle changes no file.\<close>

lemma poll_fire_idle: "fire_recv (sk_mgr sk) = None \<Longrightarrow> poll_fire sk = (Inr (), sk)"
  by (simp add: poll_fire_def)

lemma file_bytes_handles: "file_bytes (fs\<lparr>fs_handles := h\<rparr>) = file_bytes fs"
  by (simp add: fun_eq_iff file_bytes_def file_at_def)

lemma log_of_handles: "log_of (st\<lparr>sk_fs := (sk_fs st)\<lparr>fs_handles := h\<rparr>\<rparr>) hist = log_of st hist"
  by (simp add: log_of_def file_bytes_handles)

lemma writer_Close_seg:
  assumes "seg_inv st hist"
  shows "\<exists>st'. writer_Close st = (Inr (), st') \<and> log_of st' hist = log_of st hist \<and>
               fs_handles (sk_fs st') (w_file (sk_w st')) = None"
  using assms
  by (auto simp: writer_Close_def os_close_def seg_inv_def writer_inv_def log_of_handles)

text \<open>
  What \<open>poll_fire\<close> and a write change, whatever the state; a background task of a
  configuration without compression or retention only closes the old handle.
\<close>

lemma poll_fire_frame:
  assumes "poll_fire st = (Inr (), st')"
  shows "fire (sk_mgr st') = drop 1 (fire (sk_mgr st)) \<and>
         sk_tasks st' = sk_tasks st @ (case fire (sk_mgr st) of [] \<Rightarrow> [] | n # _ \<Rightarrow> [(w_file (sk_w st), n)]) \<and>
         (\<forall>p. p \<noteq> w_absPath (sk_w st) \<and> p \<notin> set (take 1 (fire (sk_mgr st))) \<longrightarrow>
              fs_dir (sk_fs st') p = fs_dir (sk_fs st) p) \<and>
         fs_denied (sk_fs st') = fs_denied (sk_fs st) \<and> w_absPath (sk_w st') = w_absPath (sk_w st)"
  using assms
  by (auto simp: poll_fire_def fire_recv_def Reopen_def os_rename_def os_open_append_def
           split: list.splits option.splits sum.splits prod.splits if_splits)

lemma file_write_frame:
  assumes "file_write b st = (Inr k, st')"
  shows "sk_mgr st' = sk_mgr st \<and> sk_tasks st' = sk_tasks st \<and> sk_w st' = sk_w st \<and>
         fs_dir (sk_fs st') = fs_dir (sk_fs st) \<and> fs_denied (sk_fs st') = fs_denied (sk_fs st)"
  using assms by (auto simp: file_write_def os_write_def split: option.splits sum.splits)

lemma close_handles:
  "fs_handles (ignore_err fs (os_close fs h)) x = (if x = h then None else fs_handles fs x)"
  by (auto simp: ignore_err_def os_close_def split: option.splits)

lemma close_frame:
  "fs_dir (ignore_err fs (os_close fs h)) = fs_dir fs" "fs_data (ignore_err fs (os_close fs h)) = fs_data fs"
  "fs_denied (ignore_err fs (os_close fs h)) = fs_denied fs"
  by (auto simp: ignore_err_def os_close_def split: option.splits)

lemma file_bytes_close: "file_bytes (ignore_err fs (os_close fs h)) = file_bytes fs"
  by (simp add: fun_eq_iff file_bytes_def file_at_def close_frame)

lemma log_of_mgr: "log_of (st\<lparr>sk_mgr := m\<rparr>) hist = log_of st hist"
  by (simp add: log_of_def)

lemma run_task_plain:
  assumes "\<not> Compress c" and "MaxRemain c \<le> 0" and "i < length (sk_tasks st)"
  shows "run_task e c i st =
           Some (st\<lparr>sk_fs := ignore_err (sk_fs st) (os_close (sk_fs st) (fst (sk_tasks st ! i))),
                    sk_tasks := take i (sk_tasks st) @ drop (Suc i) (sk_tasks st)\<rparr>)"
  using assms by (cases "sk_tasks st ! i") (simp add: run_task_def bg_task_def retention_push_def)

text \<open>Every operation keeps the file system well-formed, also when it fails.\<close>

lemma try_enqueue_wf:
  "try_enqueue cap fs q n = Some (fs', q') \<Longrightarrow> fs_wf fs \<Longrightarrow> fs_wf fs'"
proof (induction cap fs q n arbitrary: fs' q' rule: try_enqueue.induct)
  case (1 cap fs q n)
  show ?case
  proof (cases "length q < cap")
    case True
    then show ?thesis using "1.prems" by (simp add: try_enqueue.simps)
  next
    case False
    then obtain f r where q: "q = f # r" and
      rec: "try_enqueue cap (ignore_err fs (os_remove fs f)) r n = Some (fs', q')"
      using "1.prems"(1) by (subst (asm) try_enqueue.simps) (auto simp: DoRemove_def split: list.splits)
    have "fs_wf (ignore_err fs (os_remove fs f))"
      using "1.prems"(2) by (auto intro: ignore_err_wf)
    then show ?thesis
      using "1.IH" [OF False, of "(ignore_err fs (os_remove fs f), r)"] rec
      by (simp add: DoRemove_def q)
  qed
qed

lemma retention_push_wf:
  "retention_push c fs q n = Some (fs', q') \<Longrightarrow> fs_wf fs \<Longrightarrow> fs_wf fs'"
  by (auto simp: retention_push_def split: if_splits dest: try_enqueue_wf)

lemma gzip_close_wf: "fs_wf fs \<Longrightarrow> fs_wf (gzip_close e cfd b fs)"
  unfolding gzip_close_def Let_def
  by (rule ignore_err_wf) (auto split: sum.splits)

lemma CompressFile_wf: "fs_wf fs \<Longrightarrow> fs_wf (snd (CompressFile e fs h p))"
  by (auto simp: CompressFile_def intro!: gzip_close_wf split: sum.splits option.splits)

lemma bg_task_wf:
  assumes bg: "bg_task e c fs q (h, n) = Some (fs', q')" and wf: "fs_wf fs"
  shows "fs_wf fs'"
proof -
  have close: "fs_wf (ignore_err fs1 (os_close fs1 h))" if "fs_wf fs1" for fs1
    using that by (auto intro: ignore_err_wf)
  have push: "fs_wf fs2"
    if "retention_push c fs1 q n = Some (fs2, q2)" "fs_wf fs1" for fs1 fs2 q2
    using that by (rule retention_push_wf)
  show ?thesis
  proof (cases "Compress c")
    case False
    then show ?thesis
      using bg wf by (auto simp: bg_task_def intro: close push)
  next
    case True
    show ?thesis
    proof (cases "os_rename fs n (n @ ''.tmp'')")
      case (Inl err)
      then show ?thesis using bg wf True by (auto simp: bg_task_def intro: close)
    next
      case (Inr fs1)
      then have wf1: "fs_wf fs1" using wf by blast
      obtain r fs2 where cf: "CompressFile e fs1 h n = (r, fs2)" by fastforce
      have wf2: "fs_wf fs2" using CompressFile_wf [OF wf1, of e h n] cf by simp
      show ?thesis
        using bg True Inr cf wf2
        by (cases r) (auto simp: bg_task_def intro: close push)
    qed
  qed
qed

lemma run_task_wf:
  "run_task e c i st = Some st' \<Longrightarrow> fs_wf (sk_fs st) \<Longrightarrow> fs_wf (sk_fs st')"
  by (auto simp: run_task_def split: if_splits prod.splits
           intro: bg_task_wf [of e c _ _ "fst (sk_tasks st ! i)" "snd (sk_tasks st ! i)"])

lemma Reopen_wf: "Reopen w fs p = (r, fs') \<Longrightarrow> fs_wf fs \<Longrightarrow> fs_wf fs'"
  by (auto simp: Reopen_def split: sum.splits)

lemma poll_fire_wf: "fs_wf (sk_fs st) \<Longrightarrow> fs_wf (sk_fs (snd (poll_fire st)))"
  by (auto simp: poll_fire_def split: option.splits prod.splits sum.splits dest: Reopen_wf)

lemma file_write_wf: "fs_wf (sk_fs st) \<Longrightarrow> fs_wf (sk_fs (snd (file_write b st)))"
  by (auto simp: file_write_def split: sum.splits)

lemma check_and_write_wf: "fs_wf (sk_fs st) \<Longrightarrow> fs_wf (sk_fs (snd (check_and_write b st)))"
  using poll_fire_wf [of st] file_write_wf [of "snd (poll_fire st)" b]
  by (auto simp: check_and_write_def split: prod.splits sum.splits)

lemma writer_Close_wf: "fs_wf (sk_fs st) \<Longrightarrow> fs_wf (sk_fs (snd (writer_Close st)))"
  by (auto simp: writer_Close_def split: sum.splits)

lemma sink_step_wf:
  "sink_step e c op st = Some st' \<Longrightarrow> fs_wf (sk_fs st) \<Longrightarrow> fs_wf (sk_fs st')"
  by (cases op) (auto simp: sink_step_def check_and_write_wf writer_Close_wf dest: run_task_wf)

text \<open>
  A background task without compression and with unbounded retention only closes its
  handle: the segment invariant, the log, the writer, the manager and the directory stay.
\<close>

lemma run_task_plain_seg:
  assumes s: "seg_inv st hist" and d: "distinct (map fst (sk_tasks st))"
    and c: "\<not> Compress c" "MaxRemain c \<le> 0" and i: "i < length (sk_tasks st)"
  shows "\<exists>st'. run_task e c i st = Some st' \<and> seg_inv st' hist \<and> distinct (map fst (sk_tasks st')) \<and>
               log_of st' hist = log_of st hist \<and> sk_w st' = sk_w st \<and> sk_mgr st' = sk_mgr st \<and>
               fs_dir (sk_fs st') = fs_dir (sk_fs st) \<and> fs_denied (sk_fs st') = fs_denied (sk_fs st) \<and>
               fs_handles (sk_fs st') (fst (sk_tasks st ! i)) = None"
proof -
  let ?fs = "sk_fs st" and ?T = "sk_tasks st"
  let ?h = "fst (?T ! i)"
  define st' where "st' = st\<lparr>sk_fs := ignore_err ?fs (os_close ?fs ?h), sk_tasks := take i ?T @ drop (Suc i) ?T\<rparr>"
  have r: "run_task e c i st = Some st'" using run_task_plain [OF c i] by (simp add: st'_def)
  have ne: "?h \<noteq> w_file (sk_w st)"
    using s i by (auto simp: seg_inv_def writer_inv_def dest!: nth_mem)
  have dr: "distinct (map fst (sk_tasks st'))" "\<forall>(x, q) \<in> set (sk_tasks st'). x \<noteq> ?h"
    using distinct_fst_remove [OF d i] by (simp_all add: st'_def)
  have sub: "set (sk_tasks st') \<subseteq> set ?T" by (auto simp: st'_def dest: in_set_takeD in_set_dropD)
  have wf: "fs_wf (sk_fs st')"
    using s by (auto simp: st'_def seg_inv_def writer_inv_def intro!: ignore_err_wf)
  have tk: "\<forall>(x, q) \<in> set (sk_tasks st'). x \<noteq> w_file (sk_w st') \<and> fs_handles (sk_fs st') x \<noteq> None"
  proof (intro ballI, clarify)
    fix x q assume m: "(x, q) \<in> set (sk_tasks st')"
    then have "(x, q) \<in> set ?T" using sub by blast
    then have "x \<noteq> w_file (sk_w st) \<and> fs_handles ?fs x \<noteq> None"
      using s by (auto simp: seg_inv_def writer_inv_def)
    moreover have "x \<noteq> ?h" using dr(2) m by blast
    ultimately show "x \<noteq> w_file (sk_w st') \<and> fs_handles (sk_fs st') x \<noteq> None"
      by (simp add: st'_def close_handles)
  qed
  have "writer_inv st'"
    using s ne wf tk by (simp add: st'_def seg_inv_def writer_inv_def close_handles close_frame)
  then have "seg_inv st' hist"
    using s by (simp add: seg_inv_def st'_def close_frame)
  moreover have "log_of st' hist = log_of st hist" by (simp add: st'_def log_of_def file_bytes_close)
  ultimately show ?thesis using r dr(1) by (simp add: st'_def close_frame close_handles)
qed

subsection \<open>Properties\<close>

text \<open>
  C2: the check-then-write refines an append-only log: from a state satisfying the segment
  invariant, with any pending rotation going to a fresh name, the write returns the length of
  the bytes, keeps the invariant, and the log (history in rotation order, then the active file)
  is the old log followed by the bytes; a rotation loses and duplicates nothing.
\<close>

theorem check_and_write_refines_log:
  assumes "seg_inv st hist" and "fresh_pending st"
  shows "\<exists>st'. check_and_write b st = (Inr (length b), st') \<and>
               seg_inv st' (rotated_next st hist) \<and>
               log_of st' (rotated_next st hist) = log_of st hist @ b"
proof -
  obtain st1 where p: "poll_fire st = (Inr (), st1)" and s1: "seg_inv st1 (rotated_next st hist)"
    and l1: "log_of st1 (rotated_next st hist) = log_of st hist"
    using poll_fire_refines [OF assms] by blast
  obtain st' where "file_write b st1 = (Inr (length b), st')" "seg_inv st' (rotated_next st hist)"
    "log_of st' (rotated_next st hist) = log_of st1 (rotated_next st hist) @ b"
    using file_write_log [OF s1] by blast
  then show ?thesis using p l1 by (simp add: check_and_write_def)
qed

text \<open>
  C4: when \<open>Reopen\<close> renames the active file but cannot create it again, the write
  returns the error, the active path is gone, the writer's handle still writes into the
  renamed historical file, and every later \<open>Reopen\<close> fails with \<open>ErrNotExist\<close>:
  no later rotation happens and all further records go to the historical file.
\<close>

theorem check_and_write_open_failure:
  assumes inv: "writer_inv st" and recv: "fire_recv (sk_mgr st) = Some (n, m')"
    and fresh: "fs_dir (sk_fs st) n = None" "n \<noteq> w_absPath (sk_w st)"
    and denied: "w_absPath (sk_w st) \<in> set (fs_denied (sk_fs st))"
  shows "\<exists>st'. check_and_write b st = (Inl ErrPermission, st') \<and>
               fs_dir (sk_fs st') (w_absPath (sk_w st')) = None \<and>
               file_at (sk_fs st') n = file_at (sk_fs st) (w_absPath (sk_w st)) \<and>
               fs_handles (sk_fs st') (w_file (sk_w st')) = fs_dir (sk_fs st') n \<and>
               (\<forall>n'. fst (Reopen (sk_w st') (sk_fs st') n') = Inl ErrNotExist)"
proof -
  let ?fs = "sk_fs st" and ?abs = "w_absPath (sk_w st)"
  obtain i where i: "fs_dir ?fs ?abs = Some i" using inv by (auto simp: writer_inv_def)
  have h: "fs_handles ?fs (w_file (sk_w st)) = Some i" using inv i by (simp add: writer_inv_def)
  define fs1 where "fs1 = ?fs\<lparr>fs_dir := ((fs_dir ?fs)(n \<mapsto> i))(?abs := None)\<rparr>"
  define st' where "st' = st\<lparr>sk_mgr := m', sk_fs := fs1\<rparr>"
  have "check_and_write b st = (Inl ErrPermission, st')"
    using i fresh denied recv
    by (simp add: check_and_write_def poll_fire_def Reopen_def os_rename_def os_open_append_def st'_def fs1_def)
  moreover have "\<forall>n'. fst (Reopen (sk_w st') (sk_fs st') n') = Inl ErrNotExist"
    by (simp add: Reopen_def os_rename_def st'_def fs1_def)
  ultimately show ?thesis
    using i h fresh by (simp add: st'_def fs1_def file_at_def)
qed

text \<open>
  C7: a rotation to a name that is already a historical file (two rotations in the same
  minute of the time tag) succeeds, replaces that file by the closed segment, and leaves the
  older file's contents reachable from neither the active path nor any historical name.
\<close>

theorem check_and_write_rotation_overwrites:
  assumes inv: "seg_inv st hist" and recv: "fire_recv (sk_mgr st) = Some (n, m')"
    and old: "n \<in> set hist" and ok: "w_absPath (sk_w st) \<notin> set (fs_denied (sk_fs st))"
  shows "\<exists>st'. check_and_write b st = (Inr (length b), st') \<and>
               file_at (sk_fs st') n = file_at (sk_fs st) (w_absPath (sk_w st)) \<and>
               (\<forall>p \<in> set (w_absPath (sk_w st') # hist).
                  fs_dir (sk_fs st') p \<noteq> fs_dir (sk_fs st) n)"
proof -
  let ?fs = "sk_fs st" and ?w = "sk_w st"
  let ?abs = "w_absPath ?w" and ?N = "fs_next_ino ?fs" and ?F = "fs_next_fd ?fs"
  obtain i where i: "fs_dir ?fs ?abs = Some i" using inv by (auto simp: seg_inv_def writer_inv_def)
  obtain j where j: "fs_dir ?fs n = Some j" using inv old by (auto simp: seg_inv_def)
  have ne: "n \<noteq> ?abs" using inv old by (auto simp: seg_inv_def)
  have wf: "fs_wf ?fs" using inv by (simp add: seg_inv_def writer_inv_def)
  have ij: "i \<noteq> j" using inv i j old by (force simp: seg_inv_def image_iff)
  have jN: "j < ?N" "i < ?N" using wf i j by (auto simp: fs_wf_def)
  have h: "fs_handles ?fs (w_file ?w) = Some i" using inv i by (simp add: seg_inv_def writer_inv_def)
  have others: "\<And>p. p \<in> set hist \<Longrightarrow> p \<noteq> n \<Longrightarrow> fs_dir ?fs p \<noteq> Some j"
    using inv j old by (auto simp: seg_inv_def distinct_map inj_on_def)
  define fs3 where "fs3 = ?fs\<lparr>fs_dir := ((fs_dir ?fs)(n \<mapsto> i))(?abs \<mapsto> ?N),
               fs_data := (fs_data ?fs)(?N := b), fs_next_ino := Suc ?N,
               fs_handles := (fs_handles ?fs)(?F \<mapsto> ?N), fs_next_fd := Suc ?F\<rparr>"
  define st' where "st' = st\<lparr>sk_mgr := m', sk_fs := fs3, sk_w := ?w\<lparr>w_file := ?F\<rparr>,
                              sk_tasks := sk_tasks st @ [(w_file ?w, n)]\<rparr>"
  have "check_and_write b st = (Inr (length b), st')"
    using i j ne ok recv
    by (simp add: check_and_write_def poll_fire_def Reopen_def os_rename_def os_open_append_def file_write_def
                  os_write_def st'_def fs3_def fun_upd_twist)
  moreover have "file_at (sk_fs st') n = file_at ?fs ?abs"
    using i ne jN by (simp add: st'_def fs3_def file_at_def)
  moreover have "\<forall>p \<in> set (w_absPath (sk_w st') # hist). fs_dir (sk_fs st') p \<noteq> fs_dir ?fs n"
    using j ij jN others by (auto simp: st'_def fs3_def)
  ultimately show ?thesis by blast
qed

text \<open>
  C21: the background task of a rotation with compression replaces the historical file by the
  gzip of its contents, read through the old handle: decompressing gives back the file, the
  \<open>.tmp\<close> file is removed and the old handle is closed.
\<close>

theorem bg_task_compress_roundtrip:
  assumes wf: "fs_wf fs" and f: "fs_dir fs f = Some j" and h: "fs_handles fs oldfd = Some j"
    and nt: "fs_dir fs (f @ ''.tmp'') = None" and nd: "f \<notin> set (fs_denied fs)"
    and c: "Compress c" "\<not> 0 < MaxRemain c"
    and inv: "\<forall>d. ungz (gzip e d) = d"
  shows "\<exists>fs'. bg_task e c fs q (oldfd, f) = Some (fs', q) \<and> fs_wf fs' \<and>
               map_option ungz (file_at fs' f) = file_at fs f \<and>
               fs_dir fs' (f @ ''.tmp'') = None \<and> fs_handles fs' oldfd = None"
proof -
  define fs1 where "fs1 = fs\<lparr>fs_dir := ((fs_dir fs)(f @ ''.tmp'' \<mapsto> j))(f := None)\<rparr>"
  have r: "os_rename fs f (f @ ''.tmp'') = Inr fs1" using f by (simp add: os_rename_def fs1_def)
  have wf1: "fs_wf fs1" using os_rename_wf [OF r wf] .
  have c1: "CompressFile e fs1 oldfd f =
           (Inr (), fs1\<lparr>fs_dir := ((fs_dir fs1)(f \<mapsto> fs_next_ino fs1))(f @ ''.tmp'' := None),
                       fs_data := (fs_data fs1)(fs_next_ino fs1 := gzip e (fs_data fs1 j)),
                       fs_next_ino := Suc (fs_next_ino fs1),
                       fs_next_fd := Suc (fs_next_fd fs1)\<rparr>)"
    by (rule CompressFile_ok [OF wf1]) (use h nd in \<open>simp_all add: fs1_def\<close>)
  define fs2 where "fs2 = fs1\<lparr>fs_dir := ((fs_dir fs1)(f \<mapsto> fs_next_ino fs1))(f @ ''.tmp'' := None),
                       fs_data := (fs_data fs1)(fs_next_ino fs1 := gzip e (fs_data fs1 j)),
                       fs_next_ino := Suc (fs_next_ino fs1),
                       fs_next_fd := Suc (fs_next_fd fs1)\<rparr>"
  have wf2: "fs_wf fs2" using wf1 by (auto simp: fs2_def fs_wf_def less_Suc_eq)
  define fs3 where "fs3 = fs2\<lparr>fs_handles := (fs_handles fs2)(oldfd := None)\<rparr>"
  have b0: "bg_task e c fs q (oldfd, f) =
             map_option (\<lambda>(fs', q'). (ignore_err fs' (os_close fs' oldfd), q')) (retention_push c fs2 q f)"
    using r c1 c by (simp add: bg_task_def fs2_def)
  have h2: "fs_handles fs2 oldfd = Some j" using h by (simp add: fs2_def fs1_def)
  have b: "bg_task e c fs q (oldfd, f) = Some (fs3, q)"
    using c h2 unfolding b0 by (simp add: retention_push_def ignore_err_def os_close_def fs3_def)
  have "fs_wf fs3" using wf2 by (auto simp: fs3_def fs_wf_def)
  moreover have "map_option ungz (file_at fs3 f) = file_at fs f"
    using f inv by (simp add: fs3_def fs2_def fs1_def file_at_def)
  moreover have "fs_dir fs3 (f @ ''.tmp'') = None" by (simp add: fs3_def fs2_def)
  moreover have "fs_handles fs3 oldfd = None" by (simp add: fs3_def)
  ultimately show ?thesis using b by blast
qed

text \<open>
  C22: when the compression cannot create its output, the background task gives up: the
  history stays under the \<open>.tmp\<close> name and the name is never pushed into the retention
  queue, so the bounded retention never deletes it.
\<close>

theorem bg_task_compress_failure_not_enqueued:
  assumes f: "fs_dir fs f = Some j" and nt: "fs_dir fs (f @ ''.tmp'') = None"
    and d: "f \<in> set (fs_denied fs)" and c: "Compress c"
  shows "\<exists>fs'. bg_task e c fs q (oldfd, f) = Some (fs', q) \<and>
               file_at fs' (f @ ''.tmp'') = file_at fs f \<and> fs_dir fs' f = None"
  using f d c
  by (simp add: bg_task_def os_rename_def CompressFile_def os_open_append_def ignore_err_def
                os_close_def file_at_def split: option.split)

text \<open>
  The sink's type invariant: any sequence of writes, closes and background tasks, on any
  path (a failed \<open>Reopen\<close>, a failed compression and a full retention queue included),
  leaves the file system well-formed: no directory entry or handle names an unallocated
  inode and no handle is numbered beyond the allocation counter.
\<close>

theorem sink_steps_fs_wf:
  assumes "sink_steps e c st ops st'" and "fs_wf (sk_fs st)"
  shows "fs_wf (sk_fs st')"
  using assms by induction (auto dest: sink_step_wf)

subsection \<open>Witnesses\<close>

theorem check_and_write_refines_log_witness:
  "seg_inv demo_sink [] \<and> fresh_pending demo_sink \<and>
   (\<exists>st'. check_and_write [33] demo_sink = (Inr 1, st') \<and>
          seg_inv st' [''/l/app-1.log''] \<and> log_of st' [''/l/app-1.log''] = [72, 105, 33])"
proof -
  have s: "seg_inv demo_sink []"
    by (simp add: seg_inv_def writer_inv_def fs_wf_def demo_sink_def)
  have f: "fresh_pending demo_sink"
    by (simp add: fresh_pending_def demo_sink_def fire_recv_def)
  have r: "rotated_next demo_sink [] = [''/l/app-1.log'']"
    by (simp add: rotated_next_def demo_sink_def fire_recv_def)
  have l: "log_of demo_sink [] = [72, 105]"
    by (simp add: log_of_def demo_sink_def file_bytes_def file_at_def)
  show ?thesis using s f check_and_write_refines_log [OF s f, of "[33]"] unfolding r l by simp
qed

theorem check_and_write_open_failure_witness:
  "\<exists>st'. check_and_write [33] demo_denied_sink = (Inl ErrPermission, st') \<and>
         fs_dir (sk_fs st') ''/l/app.log'' = None \<and>
         file_at (sk_fs st') ''/l/app-1.log'' = Some [72, 105] \<and>
         fs_handles (sk_fs st') (w_file (sk_w st')) = fs_dir (sk_fs st') ''/l/app-1.log'' \<and>
         (\<forall>n'. fst (Reopen (sk_w st') (sk_fs st') n') = Inl ErrNotExist)"
proof -
  have i: "writer_inv demo_denied_sink"
    by (simp add: writer_inv_def fs_wf_def demo_denied_sink_def demo_sink_def)
  have r: "fire_recv (sk_mgr demo_denied_sink) =
           Some (''/l/app-1.log'', (sk_mgr demo_denied_sink)\<lparr>fire := []\<rparr>)"
    by (simp add: fire_recv_def demo_denied_sink_def demo_sink_def)
  have a: "fs_dir (sk_fs demo_denied_sink) ''/l/app-1.log'' = None"
    "''/l/app-1.log'' \<noteq> w_absPath (sk_w demo_denied_sink)"
    "w_absPath (sk_w demo_denied_sink) \<in> set (fs_denied (sk_fs demo_denied_sink))"
    by (simp_all add: demo_denied_sink_def demo_sink_def)
  have p: "w_absPath (sk_w demo_denied_sink) = ''/l/app.log''"
    "file_at (sk_fs demo_denied_sink) ''/l/app.log'' = Some [72, 105]"
    by (simp_all add: demo_denied_sink_def demo_sink_def file_at_def)
  obtain st' where s: "check_and_write [33] demo_denied_sink = (Inl ErrPermission, st')"
    "fs_dir (sk_fs st') (w_absPath (sk_w st')) = None"
    "file_at (sk_fs st') ''/l/app-1.log'' = Some [72, 105]"
    "fs_handles (sk_fs st') (w_file (sk_w st')) = fs_dir (sk_fs st') ''/l/app-1.log''"
    "\<forall>n'. fst (Reopen (sk_w st') (sk_fs st') n') = Inl ErrNotExist"
    using check_and_write_open_failure [OF i r a, of "[33]"] p by auto
  have "w_absPath (sk_w st') = ''/l/app.log''"
    using check_and_write_absPath [OF s(1)] p(1) by simp
  then show ?thesis using s by auto
qed

theorem check_and_write_rotation_overwrites_witness:
  "seg_inv demo_repeat_sink [''/l/app-1.log''] \<and>
   (\<exists>st'. check_and_write [3] demo_repeat_sink = (Inr 1, st') \<and>
          file_at (sk_fs st') ''/l/app-1.log'' = Some [2] \<and>
          fs_dir (sk_fs st') ''/l/app-1.log'' \<noteq> Some 0 \<and> fs_dir (sk_fs st') ''/l/app.log'' \<noteq> Some 0)"
proof -
  have s: "seg_inv demo_repeat_sink [''/l/app-1.log'']"
    by (simp add: seg_inv_def writer_inv_def fs_wf_def demo_repeat_sink_def)
  have r: "fire_recv (sk_mgr demo_repeat_sink) =
           Some (''/l/app-1.log'', (sk_mgr demo_repeat_sink)\<lparr>fire := []\<rparr>)"
    by (simp add: fire_recv_def demo_repeat_sink_def)
  have o: "''/l/app-1.log'' \<in> set [''/l/app-1.log'']"
    and d: "w_absPath (sk_w demo_repeat_sink) \<notin> set (fs_denied (sk_fs demo_repeat_sink))"
    by (simp_all add: demo_repeat_sink_def)
  have p: "file_at (sk_fs demo_repeat_sink) (w_absPath (sk_w demo_repeat_sink)) = Some [2]"
    "fs_dir (sk_fs demo_repeat_sink) ''/l/app-1.log'' = Some 0"
    by (simp_all add: demo_repeat_sink_def file_at_def)
  obtain st' where t: "check_and_write [3] demo_repeat_sink = (Inr 1, st')"
    "file_at (sk_fs st') ''/l/app-1.log'' = Some [2]"
    "\<forall>p \<in> set (w_absPath (sk_w st') # [''/l/app-1.log'']). fs_dir (sk_fs st') p \<noteq> Some 0"
    using check_and_write_rotation_overwrites [OF s r o d, of "[3]"] p by auto
  have "w_absPath (sk_w st') = ''/l/app.log''"
    using check_and_write_absPath [OF t(1)] by (simp add: demo_repeat_sink_def)
  then show ?thesis using s t by auto
qed

theorem bg_task_compress_roundtrip_witness:
  "\<exists>fs'. bg_task demo_env demo_compress_config demo_rotated_fs [] (0, ''/l/app-1.log.gz'') = Some (fs', []) \<and>
         fs_wf fs' \<and> file_at fs' ''/l/app-1.log.gz'' = Some [3, 2, 1] \<and>
         fs_dir fs' ''/l/app-1.log.gz.tmp'' = None \<and> fs_handles fs' 0 = None"
proof -
  have a: "fs_wf demo_rotated_fs" "fs_dir demo_rotated_fs ''/l/app-1.log.gz'' = Some 0"
    "fs_handles demo_rotated_fs 0 = Some 0" "fs_dir demo_rotated_fs (''/l/app-1.log.gz'' @ ''.tmp'') = None"
    "''/l/app-1.log.gz'' \<notin> set (fs_denied demo_rotated_fs)"
    by (simp_all add: demo_rotated_fs_def fs_wf_def)
  have c: "Compress demo_compress_config" "\<not> 0 < MaxRemain demo_compress_config"
    by (simp_all add: demo_compress_config_def WithCompress_def NewDefaultConfig_def)
  have g: "\<forall>d. rev (gzip demo_env d) = d" by (simp add: demo_env_def)
  obtain fs' where t: "bg_task demo_env demo_compress_config demo_rotated_fs [] (0, ''/l/app-1.log.gz'') = Some (fs', [])"
    "fs_wf fs'" "map_option rev (file_at fs' ''/l/app-1.log.gz'') = file_at demo_rotated_fs ''/l/app-1.log.gz''"
    "fs_dir fs' (''/l/app-1.log.gz'' @ ''.tmp'') = None" "fs_handles fs' 0 = None"
    using bg_task_compress_roundtrip [OF a c g, of "[]"] by auto
  have "file_at fs' ''/l/app-1.log.gz'' = Some [3, 2, 1]"
    using t(3) by (cases "file_at fs' ''/l/app-1.log.gz''") (simp_all add: demo_rotated_fs_def file_at_def)
  then show ?thesis using t by auto
qed

theorem bg_task_compress_failure_not_enqueued_witness:
  "\<exists>fs'. bg_task demo_env demo_compress_config
           (demo_rotated_fs\<lparr>fs_denied := [''/l/app-1.log.gz'']\<rparr>) [''/l/old.gz''] (0, ''/l/app-1.log.gz'') =
           Some (fs', [''/l/old.gz'']) \<and>
         file_at fs' ''/l/app-1.log.gz.tmp'' = Some [1, 2, 3] \<and> fs_dir fs' ''/l/app-1.log.gz'' = None"
proof -
  let ?fs = "demo_rotated_fs\<lparr>fs_denied := [''/l/app-1.log.gz'']\<rparr>"
  have a: "fs_dir ?fs ''/l/app-1.log.gz'' = Some 0" "fs_dir ?fs (''/l/app-1.log.gz'' @ ''.tmp'') = None"
    "''/l/app-1.log.gz'' \<in> set (fs_denied ?fs)" "Compress demo_compress_config"
    by (simp_all add: demo_rotated_fs_def demo_compress_config_def WithCompress_def)
  have f: "file_at ?fs ''/l/app-1.log.gz'' = Some [1, 2, 3]" by (simp add: demo_rotated_fs_def file_at_def)
  show ?thesis
    using bg_task_compress_failure_not_enqueued [OF a, of demo_env "[''/l/old.gz'']" 0] f by simp
qed

theorem sink_steps_fs_wf_witness:
  "\<exists>st'. sink_steps demo_env demo_compress_config demo_sink [SinkWrite [1], SinkTask 0, SinkClose] st' \<and>
         fs_wf (sk_fs st')"
proof -
  have "\<exists>st'. sink_steps demo_env demo_compress_config demo_sink [SinkWrite [1], SinkTask 0, SinkClose] st'"
    apply (rule exI)
    apply (rule sink_steps_Cons, simp add: sink_step_def check_and_write_def poll_fire_def fire_recv_def
        demo_sink_def Reopen_def os_rename_def os_open_append_def file_write_def os_write_def)
    apply (rule sink_steps_Cons, simp add: sink_step_def run_task_def bg_task_def demo_compress_config_def
        WithCompress_def NewDefaultConfig_def os_rename_def CompressFile_def os_open_append_def
        os_remove_def gzip_close_def os_write_def os_close_def ignore_err_def retention_push_def)
    apply (rule sink_steps_Cons, simp add: sink_step_def writer_Close_def os_close_def)
    apply (rule sink_steps_Nil)
    done
  then obtain st' where r: "sink_steps demo_env demo_compress_config demo_sink [SinkWrite [1], SinkTask 0, SinkClose] st'" ..
  have "fs_wf (sk_fs demo_sink)" by (simp add: demo_sink_def fs_wf_def)
  then show ?thesis using sink_steps_fs_wf [OF r] r by blast
qed

end
