(* ===== verification/BufferWriter.thy ===== *)
theory BufferWriter
  imports WriterCore
begin

text \<open>
  \<open>BufferWriter\<close> (src/rollingwriter/writer.go lines 48-52, 358-383 and 447-453): the
  writer's bytes are appended to a shared buffer \<open>*w.buf\<close>; when it grows beyond
  \<open>BufferWriterThreshold\<close> the caller that wins the compare-and-swap of \<open>swaping\<close>
  from 0 to 1 swaps in a fresh buffer and writes the old one to the active file. The
  sequential model is \<open>BufferWriter_Write\<close>; the concurrent one splits a call into the
  atomic steps the code performs (the receive on \<open>fire\<close> with its \<open>Reopen\<close>, the
  read-and-append, the store of the pointer, the test and compare-and-swap, the swap, the
  write, the reset of the flag), one program counter per calling goroutine.
\<close>

record bwriter =
  bw_sink :: sink
  bw_buf :: bytes
  bw_swaping :: bool

text \<open>
  \<open>make([]byte, 0, n)\<close> with \<open>n = BufferWriterThreshold * 2\<close> computed in Go's 64-bit
  \<open>int\<close>. The runtime's \<open>makeslice\<close> (element size 1) reads the capacity as a
  \<open>uintptr\<close> and panics when it exceeds \<open>maxAlloc = 1 << 48\<close> (linux/amd64): a
  negative capacity (a negative threshold, or one whose double wraps to a negative value)
  and a capacity above \<open>2^48\<close> both panic.
\<close>

definition go_make_buf :: "int \<Rightarrow> bytes result" where
  "go_make_buf t =
     (let cap = sint (word_of_int t * 2 :: 64 word) in
      if cap < 0 \<or> 2 ^ 48 < cap then Inl (Panic ''makeslice: cap out of range'')
      else Inr [])"

text \<open>
  \<open>BufferWriter.Write\<close> run alone. The result of the flush's \<open>w.file.Write\<close> is
  discarded by the code.
\<close>

definition BufferWriter_Write :: "config \<Rightarrow> bytes \<Rightarrow> bwriter \<Rightarrow> nat result \<times> bwriter" where
  "BufferWriter_Write c b st =
     (case poll_fire (bw_sink st) of
        (Inl err, sk) \<Rightarrow> (Inl err, st\<lparr>bw_sink := sk\<rparr>)
      | (Inr _, sk) \<Rightarrow>
          (let buf = bw_buf st @ b
           in if BufferWriterThreshold c < int (length buf) \<and> \<not> bw_swaping st then
                (case go_make_buf (BufferWriterThreshold c) of
                   Inl p \<Rightarrow> (Inl p, st\<lparr>bw_sink := sk, bw_buf := buf, bw_swaping := True\<rparr>)
                 | Inr nb \<Rightarrow> (Inr (length b),
                             st\<lparr>bw_sink := snd (file_write buf sk), bw_buf := nb, bw_swaping := False\<rparr>))
              else (Inr (length b), st\<lparr>bw_sink := sk, bw_buf := buf\<rparr>)))"

text \<open>
  \<open>BufferWriter.Close\<close> (a value receiver): write what is buffered, then close the
  active handle; the buffer itself is left as it is.
\<close>

definition BufferWriter_Close :: "bwriter \<Rightarrow> unit result \<times> bwriter" where
  "BufferWriter_Close st =
     (let sk = bw_sink st in
      case file_write (bw_buf st) sk of
        (Inl err, _) \<Rightarrow> (Inl err, st)
      | (Inr _, sk') \<Rightarrow>
          (case writer_Close sk' of (r, sk'') \<Rightarrow> (r, st\<lparr>bw_sink := sk''\<rparr>)))"

subsection \<open>Concurrent calls\<close>

text \<open>
  The program counter of a goroutine inside \<open>BufferWriter.Write\<close>: about to receive on
  \<open>fire\<close>; about to read \<open>*w.buf\<close> and append; about to store its new buffer; about to
  test the length and try the compare-and-swap; about to swap in a fresh buffer; about to
  write the old one; about to reset the flag; returned. The natural number is the length
  of the caller's bytes, the result of a successful call.
\<close>

datatype bw_pc =
    BStart bytes
  | BAppend bytes
  | BStore bytes nat
  | BCheck nat
  | BSwap nat
  | BWrite bytes nat
  | BReset nat
  | BRet "nat result"

record bw_conc =
  bc_w :: bwriter
  bc_th :: "bw_pc list"

definition bw_step :: "config \<Rightarrow> bwriter \<Rightarrow> bw_pc \<Rightarrow> (bwriter \<times> bw_pc) option" where
  "bw_step c w pc =
     (case pc of
        BStart b \<Rightarrow>
          (case poll_fire (bw_sink w) of
             (Inl err, sk) \<Rightarrow> Some (w\<lparr>bw_sink := sk\<rparr>, BRet (Inl err))
           | (Inr _, sk) \<Rightarrow> Some (w\<lparr>bw_sink := sk\<rparr>, BAppend b))
      | BAppend b \<Rightarrow> Some (w, BStore (bw_buf w @ b) (length b))
      | BStore buf n \<Rightarrow> Some (w\<lparr>bw_buf := buf\<rparr>, BCheck n)
      | BCheck n \<Rightarrow>
          (if BufferWriterThreshold c < int (length (bw_buf w)) \<and> \<not> bw_swaping w
           then Some (w\<lparr>bw_swaping := True\<rparr>, BSwap n) else Some (w, BRet (Inr n)))
      | BSwap n \<Rightarrow>
          (case go_make_buf (BufferWriterThreshold c) of
             Inl p \<Rightarrow> Some (w, BRet (Inl p))
           | Inr nb \<Rightarrow> Some (w\<lparr>bw_buf := nb\<rparr>, BWrite (bw_buf w) n))
      | BWrite ob n \<Rightarrow> Some (w\<lparr>bw_sink := snd (file_write ob (bw_sink w))\<rparr>, BReset n)
      | BReset n \<Rightarrow> Some (w\<lparr>bw_swaping := False\<rparr>, BRet (Inr n))
      | BRet _ \<Rightarrow> None)"

text \<open>Goroutine \<open>i\<close> takes one step; \<open>None\<close> when it has returned or does not exist.\<close>

definition bw_tick :: "config \<Rightarrow> nat \<Rightarrow> bw_conc \<Rightarrow> bw_conc option" where
  "bw_tick c i s =
     (if i < length (bc_th s) then
        map_option (\<lambda>(w', pc'). \<lparr>bc_w = w', bc_th = (bc_th s)[i := pc']\<rparr>) (bw_step c (bc_w s) (bc_th s ! i))
      else None)"

text \<open>A schedule: the goroutines that take the successive steps.\<close>

fun bw_run :: "config \<Rightarrow> nat list \<Rightarrow> bw_conc \<Rightarrow> bw_conc option" where
  "bw_run c [] s = Some s"
| "bw_run c (i # is) s = (case bw_tick c i s of None \<Rightarrow> None | Some s' \<Rightarrow> bw_run c is s')"

subsection \<open>The buffer's invariant and the log it holds\<close>

text \<open>
  The writer's segment invariant, no flush in progress, a buffer no longer than the threshold,
  and a threshold whose doubled capacity \<open>make\<close> accepts (the constructor checked it).
\<close>

definition bw_inv :: "config \<Rightarrow> path list \<Rightarrow> bwriter \<Rightarrow> bool" where
  "bw_inv c hist st \<longleftrightarrow>
     seg_inv (bw_sink st) hist \<and> \<not> bw_swaping st \<and>
     int (length (bw_buf st)) \<le> BufferWriterThreshold c \<and> go_make_buf (BufferWriterThreshold c) = Inr []"

text \<open>The log including the bytes still buffered.\<close>

definition bw_log :: "bwriter \<Rightarrow> path list \<Rightarrow> bytes" where
  "bw_log st hist = log_of (bw_sink st) hist @ bw_buf st"

text \<open>Examples: a buffered writer over the example sink with nothing pending, threshold 2.\<close>

definition demo_bw :: bwriter where
  "demo_bw = \<lparr>bw_sink = demo_sink\<lparr>sk_mgr := (sk_mgr demo_sink)\<lparr>fire := []\<rparr>\<rparr>, bw_buf = [], bw_swaping = False\<rparr>"

definition demo_buffer_config :: config where
  "demo_buffer_config = WithBufferThreshold 2 (WithBuffer NewDefaultConfig)"

subsection \<open>Properties\<close>

text \<open>
  C3: run alone, \<open>BufferWriter.Write\<close> keeps the invariant (in particular the buffer
  never exceeds the threshold) and refines the append-only log: the bytes in the files and
  the buffer are the old ones followed by the caller's, across a rotation too.
\<close>

theorem BufferWriter_Write_refines_log:
  assumes inv: "bw_inv c hist st" and fp: "fresh_pending (bw_sink st)"
  shows "\<exists>st'. BufferWriter_Write c b st = (Inr (length b), st') \<and>
               bw_inv c (rotated_next (bw_sink st) hist) st' \<and>
               bw_log st' (rotated_next (bw_sink st) hist) = bw_log st hist @ b"
proof -
  let ?h = "rotated_next (bw_sink st) hist" and ?t = "BufferWriterThreshold c"
  obtain sk where p: "poll_fire (bw_sink st) = (Inr (), sk)" and s1: "seg_inv sk ?h"
    and l1: "log_of sk ?h = log_of (bw_sink st) hist"
    using poll_fire_refines [of "bw_sink st" hist] inv fp by (auto simp: bw_inv_def)
  have sw: "\<not> bw_swaping st" and mk: "go_make_buf ?t = Inr []" and bnd: "int (length (bw_buf st)) \<le> ?t"
    using inv by (simp_all add: bw_inv_def)
  show ?thesis
  proof (cases "?t < int (length (bw_buf st @ b))")
    case True
    obtain sk' where w: "file_write (bw_buf st @ b) sk = (Inr (length (bw_buf st @ b)), sk')"
      and s2: "seg_inv sk' ?h" and l2: "log_of sk' ?h = log_of sk ?h @ bw_buf st @ b"
      using file_write_log [OF s1] by blast
    have "0 \<le> ?t" using bnd by linarith
    then show ?thesis using True p sw mk w s2 l2 l1
      by (simp add: BufferWriter_Write_def bw_inv_def bw_log_def)
  next
    case False
    then show ?thesis using p sw mk s1 l1
      by (simp add: BufferWriter_Write_def bw_inv_def bw_log_def)
  qed
qed

text \<open>
  C30: the capacity \<open>BufferWriterThreshold * 2\<close> is computed in int64 and checked
  against \<open>maxAlloc = 2^48\<close>: for a threshold in the int64 range, \<open>make\<close> succeeds
  exactly for thresholds in \<open>[0, 2^47]\<close> and in \<open>[-2^63, -2^63 + 2^47]\<close> (where
  the product wraps to a small non-negative capacity); every other threshold panics.
\<close>

theorem go_make_buf_ok:
  assumes lo: "- (2 ^ 63) \<le> t" and hi: "t < 2 ^ 63"
  shows "go_make_buf t = Inr [] \<longleftrightarrow>
           (0 \<le> t \<and> t \<le> 2 ^ 47) \<or> t \<le> - (2 ^ 63) + 2 ^ 47"
proof -
  define M :: int where "M = 2 ^ 64"
  define H :: int where "H = 2 ^ 63"
  define Q :: int where "Q = 2 ^ 62"
  define P :: int where "P = 2 ^ 47"
  have MH: "M = 2 * H" and HQ: "H = 2 * Q" and QP: "Q = 32768 * P" and P0: "0 < P"
    by (simp_all add: M_def H_def Q_def P_def)
  have s: "sint (word_of_int t * 2 :: 64 word) = (t * 2 + H) mod M - H"
    by (simp only: word_times_two int_word_sint) (simp add: M_def H_def)
  have lo': "- H \<le> t" and hi': "t < H" using lo hi by (simp_all add: H_def)
  consider "t < - Q" | "- Q \<le> t" "t < 0" | "0 \<le> t" "t < Q" | "Q \<le> t" by linarith
  then have "\<not> ((t * 2 + H) mod M - H < 0 \<or> 2 * P < (t * 2 + H) mod M - H) \<longleftrightarrow>
               (0 \<le> t \<and> t \<le> P) \<or> t \<le> - H + P"
  proof cases
    case 1
    then have "(t * 2 + H) mod M = t * 2 + H - (- 1) * M"
      using lo' MH HQ QP P0 by (intro mod_shift) linarith+
    then show ?thesis using 1 lo' MH HQ QP P0 by (simp; arith)
  next
    case 2
    then have "(t * 2 + H) mod M = t * 2 + H - 0 * M"
      using MH HQ QP P0 by (intro mod_shift) linarith+
    then show ?thesis using 2 MH HQ QP P0 by simp
  next
    case 3
    then have "(t * 2 + H) mod M = t * 2 + H - 0 * M"
      using MH HQ QP P0 by (intro mod_shift) linarith+
    then show ?thesis using 3 MH HQ QP P0 by auto
  next
    case 4
    then have "(t * 2 + H) mod M = t * 2 + H - 1 * M"
      using hi' MH HQ QP P0 by (intro mod_shift) linarith+
    then show ?thesis using 4 hi' MH HQ QP P0 by simp
  qed
  moreover have "go_make_buf t = Inr [] \<longleftrightarrow>
                   \<not> ((t * 2 + H) mod M - H < 0 \<or> 2 * P < (t * 2 + H) mod M - H)"
    by (simp add: go_make_buf_def Let_def s P_def)
  ultimately have "go_make_buf t = Inr [] \<longleftrightarrow> (0 \<le> t \<and> t \<le> P) \<or> t \<le> - H + P" by blast
  then show ?thesis unfolding H_def P_def .
qed

text \<open>
  The step-level model agrees with the sequential one: a goroutine running
  \<open>BufferWriter.Write\<close> with no other goroutine interleaved returns, within seven steps,
  the result and the state of \<open>BufferWriter_Write\<close>.
\<close>

theorem bw_solo_equiv:
  "\<exists>is. set is \<subseteq> {0} \<and> length is \<le> 7 \<and>
     bw_run c is \<lparr>bc_w = st, bc_th = [BStart b]\<rparr> =
       Some \<lparr>bc_w = snd (BufferWriter_Write c b st), bc_th = [BRet (fst (BufferWriter_Write c b st))]\<rparr>"
proof (cases "poll_fire (bw_sink st)")
  case (Pair r sk)
  show ?thesis
  proof (cases r)
    case (Inl err)
    then show ?thesis using Pair
      by (intro exI [of _ "[0]"]) (simp add: bw_tick_def bw_step_def BufferWriter_Write_def)
  next
    case (Inr u)
    let ?t = "BufferWriterThreshold c" and ?buf = "bw_buf st @ b"
    show ?thesis
    proof (cases "?t < int (length ?buf) \<and> \<not> bw_swaping st")
      case False
      then show ?thesis using Pair Inr
        by (intro exI [of _ "replicate 4 0"])
           (auto simp: bw_tick_def bw_step_def BufferWriter_Write_def numeral_eq_Suc)
    next
      case True
      show ?thesis
      proof (cases "go_make_buf ?t")
        case (Inl p)
        then show ?thesis using Pair Inr True
          by (intro exI [of _ "replicate 5 0"])
             (simp add: bw_tick_def bw_step_def BufferWriter_Write_def numeral_eq_Suc)
      next
        case (Inr nb)
        then show ?thesis using Pair \<open>r = Inr u\<close> True
          by (intro exI [of _ "replicate 7 0"])
             (simp add: bw_tick_def bw_step_def BufferWriter_Write_def numeral_eq_Suc)
      qed
    qed
  qed
qed

text \<open>
  C8: two concurrent calls lose bytes: both read the empty buffer before either stores,
  both return success, and the buffer holds only the second caller's bytes; the file is
  unchanged, so the first caller's bytes are nowhere.
\<close>

theorem bw_lost_update:
  assumes idle: "fire_recv (sk_mgr (bw_sink w)) = None" and e: "bw_buf w = []"
    and sw: "\<not> bw_swaping w" and t: "int (length a + length b) \<le> BufferWriterThreshold c"
  shows "\<exists>s'. bw_run c [0, 1, 0, 1, 0, 1, 0, 1] \<lparr>bc_w = w, bc_th = [BStart a, BStart b]\<rparr> = Some s' \<and>
              bc_th s' = [BRet (Inr (length a)), BRet (Inr (length b))] \<and>
              bw_sink (bc_w s') = bw_sink w \<and> bw_buf (bc_w s') = b"
  using assms by (simp add: bw_tick_def bw_step_def poll_fire_idle)

text \<open>
  C9: two concurrent calls duplicate bytes: the second caller appends to the buffer the first
  one is flushing and stores the result after the flush, so the first caller's bytes are
  written twice.
\<close>

theorem bw_duplicate:
  assumes idle: "fire_recv (sk_mgr (bw_sink w)) = None" and e: "bw_buf w = []"
    and sw: "\<not> bw_swaping w" and t: "0 \<le> BufferWriterThreshold c" "BufferWriterThreshold c < int (length a)"
    and mk: "go_make_buf (BufferWriterThreshold c) = Inr []"
    and inv: "seg_inv (bw_sink w) hist"
  shows "\<exists>s'. bw_run c [0, 0, 0, 1, 1, 0, 0, 0, 0, 1, 1, 1, 1, 1]
                 \<lparr>bc_w = w, bc_th = [BStart a, BStart b]\<rparr> = Some s' \<and>
              bc_th s' = [BRet (Inr (length a)), BRet (Inr (length b))] \<and>
              bw_log (bc_w s') hist = bw_log w hist @ a @ a @ b"
proof -
  obtain sk1 where w1: "file_write a (bw_sink w) = (Inr (length a), sk1)" and s1: "seg_inv sk1 hist"
    and l1: "log_of sk1 hist = log_of (bw_sink w) hist @ a"
    using file_write_log [OF inv] by blast
  obtain sk2 where w2: "file_write (a @ b) sk1 = (Inr (length (a @ b)), sk2)"
    and l2: "log_of sk2 hist = log_of sk1 hist @ a @ b"
    using file_write_log [OF s1] by blast
  show ?thesis
    using idle e sw t mk w1 w2 l1 l2
    by (simp add: bw_tick_def bw_step_def poll_fire_idle bw_log_def)
qed

text \<open>
  \<open>BufferWriter.Close\<close> writes the buffered bytes to the active file and closes it:
  the files then hold the whole log.
\<close>

theorem BufferWriter_Close_flushes:
  assumes inv: "seg_inv (bw_sink st) hist"
  shows "\<exists>st'. BufferWriter_Close st = (Inr (), st') \<and> log_of (bw_sink st') hist = bw_log st hist \<and>
               fs_handles (sk_fs (bw_sink st')) (w_file (sk_w (bw_sink st'))) = None"
proof -
  obtain sk1 where w: "file_write (bw_buf st) (bw_sink st) = (Inr (length (bw_buf st)), sk1)"
    and s1: "seg_inv sk1 hist" and l1: "log_of sk1 hist = log_of (bw_sink st) hist @ bw_buf st"
    using file_write_log [OF inv] by blast
  obtain sk2 where c: "writer_Close sk1 = (Inr (), sk2)" and l2: "log_of sk2 hist = log_of sk1 hist"
    and h: "fs_handles (sk_fs sk2) (w_file (sk_w sk2)) = None"
    using writer_Close_seg [OF s1] by blast
  show ?thesis using w c l1 l2 h by (simp add: BufferWriter_Close_def bw_log_def)
qed

text \<open>
  C31: after \<open>Close\<close>, a write that fills the buffer beyond the threshold reports success,
  but the flush's failure is discarded and the buffered bytes, the caller's included, are
  dropped.
\<close>

theorem BufferWriter_Write_after_close:
  assumes idle: "fire_recv (sk_mgr (bw_sink st)) = None"
    and closed: "fs_handles (sk_fs (bw_sink st)) (w_file (sk_w (bw_sink st))) = None"
    and sw: "\<not> bw_swaping st" and t: "BufferWriterThreshold c < int (length (bw_buf st @ b))"
    and mk: "go_make_buf (BufferWriterThreshold c) = Inr []"
  shows "BufferWriter_Write c b st = (Inr (length b), st\<lparr>bw_buf := []\<rparr>)"
  using assms by (simp add: BufferWriter_Write_def poll_fire_idle file_write_def os_write_def)

subsection \<open>Witnesses\<close>

lemma demo_bw_facts:
  "fire_recv (sk_mgr (bw_sink demo_bw)) = None" "bw_buf demo_bw = []" "\<not> bw_swaping demo_bw"
  "seg_inv (bw_sink demo_bw) []" "BufferWriterThreshold demo_buffer_config = 2"
  "go_make_buf 2 = Inr []"
  by (simp_all add: demo_bw_def demo_sink_def fire_recv_def seg_inv_def writer_inv_def fs_wf_def
                    demo_buffer_config_def WithBufferThreshold_def WithBuffer_def go_make_buf_def Let_def)

theorem BufferWriter_Write_refines_log_witness:
  "\<exists>st'. BufferWriter_Write demo_buffer_config [7, 8, 9] demo_bw = (Inr 3, st') \<and>
         bw_log st' [] = [72, 105, 7, 8, 9]"
proof -
  have i: "bw_inv demo_buffer_config [] demo_bw" and f: "fresh_pending (bw_sink demo_bw)"
    using demo_bw_facts by (simp_all add: bw_inv_def fresh_pending_def)
  have r: "rotated_next (bw_sink demo_bw) [] = []" using demo_bw_facts by (simp add: rotated_next_def)
  have l: "bw_log demo_bw [] = [72, 105]"
    by (simp add: bw_log_def log_of_def demo_bw_def demo_sink_def file_bytes_def file_at_def)
  show ?thesis using BufferWriter_Write_refines_log [OF i f, of "[7, 8, 9]"] unfolding r l by auto
qed

theorem go_make_buf_ok_witness:
  "go_make_buf (2 ^ 47) = Inr [] \<and>
   go_make_buf (2 ^ 47 + 1) = Inl (Panic ''makeslice: cap out of range'') \<and>
   go_make_buf (2 ^ 62) = Inl (Panic ''makeslice: cap out of range'') \<and>
   go_make_buf (- (2 ^ 63)) = Inr []"
proof -
  have a: "go_make_buf (2 ^ 47) = Inr []" using go_make_buf_ok [of "2 ^ 47"] by simp
  have b: "go_make_buf (2 ^ 47 + 1) \<noteq> Inr []" using go_make_buf_ok [of "2 ^ 47 + 1"] by simp
  have c: "go_make_buf (2 ^ 62) \<noteq> Inr []" using go_make_buf_ok [of "2 ^ 62"] by simp
  have d: "go_make_buf (- (2 ^ 63)) = Inr []" using go_make_buf_ok [of "- (2 ^ 63)"] by simp
  show ?thesis using a b c d by (auto simp: go_make_buf_def Let_def split: if_splits)
qed

theorem bw_lost_update_witness:
  "\<exists>s'. bw_run demo_buffer_config [0, 1, 0, 1, 0, 1, 0, 1]
          \<lparr>bc_w = demo_bw, bc_th = [BStart [1], BStart [2]]\<rparr> = Some s' \<and>
        bc_th s' = [BRet (Inr 1), BRet (Inr 1)] \<and> bw_sink (bc_w s') = bw_sink demo_bw \<and>
        bw_buf (bc_w s') = [2]"
proof -
  have t: "int (length [1::byte] + length [2::byte]) \<le> BufferWriterThreshold demo_buffer_config"
    using demo_bw_facts(5) by simp
  show ?thesis
    using bw_lost_update [OF demo_bw_facts(1,2,3) t] by (simp del: bw_run.simps)
qed

theorem bw_duplicate_witness:
  "\<exists>s'. bw_run demo_buffer_config [0, 0, 0, 1, 1, 0, 0, 0, 0, 1, 1, 1, 1, 1]
          \<lparr>bc_w = demo_bw, bc_th = [BStart [1, 2, 3], BStart [4]]\<rparr> = Some s' \<and>
        bc_th s' = [BRet (Inr 3), BRet (Inr 1)] \<and>
        bw_log (bc_w s') [] = [72, 105, 1, 2, 3, 1, 2, 3, 4]"
proof -
  have l: "bw_log demo_bw [] = [72, 105]"
    by (simp add: bw_log_def log_of_def demo_bw_def demo_sink_def file_bytes_def file_at_def)
  have t: "0 \<le> BufferWriterThreshold demo_buffer_config"
    "BufferWriterThreshold demo_buffer_config < int (length [1::byte, 2, 3])"
    "go_make_buf (BufferWriterThreshold demo_buffer_config) = Inr []"
    using demo_bw_facts(5,6) by simp_all
  show ?thesis
    using bw_duplicate [OF demo_bw_facts(1,2,3) t demo_bw_facts(4), of "[4]"] l
    by (simp add: numeral_3_eq_3 del: bw_run.simps)
qed

theorem BufferWriter_Close_flushes_witness:
  "\<exists>st'. BufferWriter_Close (demo_bw\<lparr>bw_buf := [1]\<rparr>) = (Inr (), st') \<and>
         log_of (bw_sink st') [] = [72, 105, 1]"
proof -
  have s: "seg_inv (bw_sink (demo_bw\<lparr>bw_buf := [1]\<rparr>)) []" using demo_bw_facts by simp
  have l: "bw_log (demo_bw\<lparr>bw_buf := [1]\<rparr>) [] = [72, 105, 1]"
    by (simp add: bw_log_def log_of_def demo_bw_def demo_sink_def file_bytes_def file_at_def)
  show ?thesis using BufferWriter_Close_flushes [OF s] l by auto
qed

theorem BufferWriter_Write_after_close_witness:
  "BufferWriter_Write demo_buffer_config [5, 6, 7]
     (demo_bw\<lparr>bw_sink := (bw_sink demo_bw)\<lparr>sk_fs := (sk_fs (bw_sink demo_bw))\<lparr>fs_handles := Map.empty\<rparr>\<rparr>\<rparr>) =
   (Inr 3, demo_bw\<lparr>bw_sink := (bw_sink demo_bw)\<lparr>sk_fs := (sk_fs (bw_sink demo_bw))\<lparr>fs_handles := Map.empty\<rparr>\<rparr>\<rparr>)"
  using BufferWriter_Write_after_close
          [of "demo_bw\<lparr>bw_sink := (bw_sink demo_bw)\<lparr>sk_fs := (sk_fs (bw_sink demo_bw))\<lparr>fs_handles := Map.empty\<rparr>\<rparr>\<rparr>"
              demo_buffer_config "[5, 6, 7]"]
        demo_bw_facts
  by (simp add: demo_bw_def)

end
