(* ===== verification/AsyncWriter.thy ===== *)
theory AsyncWriter
  imports WriterCore
begin

text \<open>
  \<open>AsynchronousWriter\<close> (src/rollingwriter/writer.go lines 38-45, 55-59, 329-355 and
  398-444): callers put their bytes into the buffered channel \<open>queue\<close> (capacity
  \<open>QueueSize\<close>) in buffers taken from the process-wide \<open>sync.Pool\<close>; one consumer
  goroutine (\<open>writer()\<close>) writes them to the active file and puts the buffers back; a
  write failure is handed to the next caller through the unbuffered \<open>errChan\<close>;
  \<open>Close\<close> sets \<open>closed\<close>, closes \<open>ctx\<close>, drains the queue itself (\<open>onClose\<close>) and
  closes the file. Every goroutine is a program counter at one of the atomic steps of the
  code; a step is a function giving every successor the code allows (a \<open>select\<close> with
  several ready cases has several), and a schedule picks the goroutine and the successor.

  \<open>sync.Pool\<close> promises nothing about which buffer \<open>Get\<close> returns; the model takes the
  most recently \<open>Put\<close> one (the per-processor private slot) and \<open>New\<close> on an empty pool,
  one behaviour the pool has. Only the length of a pooled buffer matters to the code.
\<close>

datatype cons_pc =
    CSelect
  | CWrite bytes
  | CSendErr go_error bytes
  | CPut bytes
  | CExit

record awriter =
  aw_sink :: sink
  aw_queue :: "bytes list"
  aw_pool :: "bytes list"
  aw_closed :: bool
  aw_ctx :: bool
  aw_cons :: cons_pc

text \<open>\<open>_asyncBufferPool.Get()\<close>: \<open>New\<close> makes a zeroed buffer of \<open>BufferSize\<close> bytes.\<close>

definition pool_get :: "bytes list \<Rightarrow> bytes \<times> bytes list" where
  "pool_get pool = (case pool of [] \<Rightarrow> (replicate BufferSize 0, []) | buf # pool' \<Rightarrow> (buf, pool'))"

text \<open>
  The program counter of a caller: in \<open>Write\<close> before the load of \<open>closed\<close>, before the
  \<open>select\<close>, at the head of the chunk loop of the rotation branch (bytes left, length to
  return), before the send of a chunk, before the send of the default branch; in
  \<open>Close\<close> before the compare-and-swap, at the head of the drain loop, before the close of
  the file; returned from \<open>Write\<close> or \<open>Close\<close>.
\<close>

datatype aw_pc =
    AStart bytes
  | ASelect bytes
  | AGet bytes nat
  | ASend bytes bytes nat
  | ADefault bytes
  | KStart
  | KDrain
  | KFile
  | ARet "nat result"
  | KRet "unit result"

definition queue_free :: "awriter \<Rightarrow> bool" where
  "queue_free w \<longleftrightarrow> length (aw_queue w) < QueueSize"

definition aw_write_next :: "awriter \<Rightarrow> aw_pc \<Rightarrow> (awriter \<times> aw_pc) list" where
  "aw_write_next w pc =
     (case pc of
        AStart b \<Rightarrow> [(w, if aw_closed w then ARet (Inl ErrClosed) else ASelect b)]
      | ASelect b \<Rightarrow>
          (let errc = (case aw_cons w of
                         CSendErr err buf \<Rightarrow> [(w\<lparr>aw_cons := CPut buf\<rparr>, ARet (Inl err))]
                       | _ \<Rightarrow> []);
               firec = (case fire_recv (sk_mgr (aw_sink w)) of
                          None \<Rightarrow> []
                        | Some _ \<Rightarrow>
                            (case poll_fire (aw_sink w) of
                               (Inl err, sk) \<Rightarrow> [(w\<lparr>aw_sink := sk\<rparr>, ARet (Inl err))]
                             | (Inr _, sk) \<Rightarrow> [(w\<lparr>aw_sink := sk\<rparr>, AGet b (length b))]))
           in if errc @ firec = [] then [(w, ADefault b)] else errc @ firec)
      | AGet b l \<Rightarrow>
          (if b = [] then [(w, ARet (Inr l))]
           else (let (buf, pool') = pool_get (aw_pool w); n = min (length buf) (length b)
                 in [(w\<lparr>aw_pool := pool'\<rparr>, ASend (take n b) (drop n b) l)]))
      | ASend ch rest l \<Rightarrow>
          (if queue_free w then [(w\<lparr>aw_queue := aw_queue w @ [ch]\<rparr>, AGet rest l)] else [])
      | ADefault b \<Rightarrow>
          (if queue_free w
           then [(w\<lparr>aw_pool := snd (pool_get (aw_pool w)), aw_queue := aw_queue w @ [b]\<rparr>, ARet (Inr (length b)))]
           else [])
      | _ \<Rightarrow> [])"

text \<open>\<open>Close\<close> and its \<open>onClose\<close> drain loop.\<close>

definition aw_close_next :: "awriter \<Rightarrow> aw_pc \<Rightarrow> (awriter \<times> aw_pc) list" where
  "aw_close_next w pc =
     (case pc of
        KStart \<Rightarrow>
          (if aw_closed w then [(w, KRet (Inl ErrClosed))]
           else [(w\<lparr>aw_closed := True, aw_ctx := True\<rparr>, KDrain)])
      | KDrain \<Rightarrow>
          (case aw_queue w of
             [] \<Rightarrow> [(w, KFile)]
           | b # q \<Rightarrow>
               (case file_write b (aw_sink w) of
                  (Inl _, _) \<Rightarrow> [(w\<lparr>aw_queue := q, aw_pool := b # aw_pool w\<rparr>, KFile)]
                | (Inr _, sk) \<Rightarrow> [(w\<lparr>aw_sink := sk, aw_queue := q, aw_pool := b # aw_pool w\<rparr>, KDrain)]))
      | KFile \<Rightarrow> (case writer_Close (aw_sink w) of (r, sk) \<Rightarrow> [(w\<lparr>aw_sink := sk\<rparr>, KRet r)])
      | _ \<Rightarrow> [])"

text \<open>Every successor of a caller.\<close>

definition aw_next :: "awriter \<Rightarrow> aw_pc \<Rightarrow> (awriter \<times> aw_pc) list" where
  "aw_next w pc =
     (case pc of
        KStart \<Rightarrow> aw_close_next w pc
      | KDrain \<Rightarrow> aw_close_next w pc
      | KFile \<Rightarrow> aw_close_next w pc
      | ARet _ \<Rightarrow> []
      | KRet _ \<Rightarrow> []
      | _ \<Rightarrow> aw_write_next w pc)"

text \<open>The consumer goroutine \<open>writer()\<close>.\<close>

definition cons_next :: "awriter \<Rightarrow> awriter list" where
  "cons_next w =
     (case aw_cons w of
        CSelect \<Rightarrow>
          (case aw_queue w of [] \<Rightarrow> [] | b # q \<Rightarrow> [w\<lparr>aw_queue := q, aw_cons := CWrite b\<rparr>]) @
          (if aw_ctx w then [w\<lparr>aw_cons := CExit\<rparr>] else [])
      | CWrite b \<Rightarrow>
          (case file_write b (aw_sink w) of
             (Inl err, sk) \<Rightarrow> [w\<lparr>aw_sink := sk, aw_cons := CSendErr err b\<rparr>]
           | (Inr _, sk) \<Rightarrow> [w\<lparr>aw_sink := sk, aw_cons := CPut b\<rparr>])
      | CSendErr _ _ \<Rightarrow> []
      | CPut b \<Rightarrow> [w\<lparr>aw_pool := b # aw_pool w, aw_cons := CSelect\<rparr>]
      | CExit \<Rightarrow> [])"

record aw_conc =
  ax_w :: awriter
  ax_th :: "aw_pc list"

text \<open>
  Who moves: caller \<open>i\<close> taking its \<open>k\<close>-th successor, the consumer taking its
  \<open>k\<close>-th, or a trigger of the manager sending a name on \<open>fire\<close> (a cron job or the
  poller, whose send blocks until a writer takes it).
\<close>

datatype actor = Th nat nat | Cons nat | Trigger path

definition aw_tick :: "actor \<Rightarrow> aw_conc \<Rightarrow> aw_conc option" where
  "aw_tick a s =
     (case a of
        Th i k \<Rightarrow>
          (if i < length (ax_th s) \<and> k < length (aw_next (ax_w s) (ax_th s ! i)) then
             (case aw_next (ax_w s) (ax_th s ! i) ! k of
                (w', pc') \<Rightarrow> Some \<lparr>ax_w = w', ax_th = (ax_th s)[i := pc']\<rparr>)
           else None)
      | Cons k \<Rightarrow>
          (if k < length (cons_next (ax_w s)) then Some (s\<lparr>ax_w := cons_next (ax_w s) ! k\<rparr>) else None)
      | Trigger n \<Rightarrow>
          (let w = ax_w s; sk = aw_sink w; m = sk_mgr sk
           in Some (s\<lparr>ax_w := w\<lparr>aw_sink := sk\<lparr>sk_mgr := m\<lparr>fire := fire m @ [n]\<rparr>\<rparr>\<rparr>\<rparr>)))"

fun aw_run :: "actor list \<Rightarrow> aw_conc \<Rightarrow> aw_conc option" where
  "aw_run [] s = Some s"
| "aw_run (a # as) s = (case aw_tick a s of None \<Rightarrow> None | Some s' \<Rightarrow> aw_run as s')"

text \<open>Example: the writer \<open>NewWriterFromConfig\<close> builds over the example sink, nothing pending.\<close>

definition demo_async :: awriter where
  "demo_async =
     \<lparr>aw_sink = demo_sink\<lparr>sk_mgr := (sk_mgr demo_sink)\<lparr>fire := []\<rparr>\<rparr>, aw_queue = [], aw_pool = [],
      aw_closed = False, aw_ctx = False, aw_cons = CSelect\<rparr>"

subsection \<open>Facts about the steps\<close>

lemma file_write_Nil:
  assumes "writer_inv st"
  shows "file_write [] st = (Inr 0, st)"
proof -
  obtain i where "fs_dir (sk_fs st) (w_absPath (sk_w st)) = Some i"
    using assms by (auto simp: writer_inv_def)
  then show ?thesis using file_write_active [OF assms] by simp
qed

lemma file_write_closed:
  "fs_handles (sk_fs st) (w_file (sk_w st)) = None \<Longrightarrow> file_write b st = (Inl ErrFileClosed, st)"
  by (simp add: file_write_def os_write_def)

lemma file_write_cases:
  obtains err sk where "file_write b st = (Inl err, sk)" | n sk where "file_write b st = (Inr n, sk)"
  by (metis obj_sumE surj_pair)

lemma aw_run_append:
  "aw_run (xs @ ys) s = (case aw_run xs s of None \<Rightarrow> None | Some s' \<Rightarrow> aw_run ys s')"
  by (induction xs arbitrary: s) (auto split: option.splits)

lemma aw_run_cycle:
  assumes "aw_run xs s = Some s"
  shows "aw_run (concat (replicate k xs)) s = Some s"
  by (induction k) (simp_all add: aw_run_append assms)

text \<open>One round of the chunk loop with a zero-length pooled buffer, the consumer included.\<close>

lemma async_chunk_cycle:
  assumes inv: "writer_inv (aw_sink w)" and pool: "aw_pool w = [] # p" and q: "aw_queue w = []"
    and c: "aw_cons w = CSelect" and b: "b \<noteq> []" and i: "i < length ts" "ts ! i = AGet b l"
  shows "aw_run [Th i 0, Th i 0, Cons 0, Cons 0, Cons 0] \<lparr>ax_w = w, ax_th = ts\<rparr> = Some \<lparr>ax_w = w, ax_th = ts\<rparr>"
proof -
  have u: "ts[i := AGet b l] = ts" using i by (metis list_update_id)
  show ?thesis
    using assms u file_write_Nil [OF inv]
    by (simp add: aw_tick_def aw_next_def aw_write_next_def aw_close_next_def cons_next_def pool_get_def queue_free_def QueueSize_def)
qed

text \<open>\<open>onClose\<close> alone drains the queue into the file.\<close>

lemma aw_drain_run:
  assumes "seg_inv (aw_sink w) hist" and "i < length ts" and "ts ! i = KDrain"
  shows "\<exists>w'. aw_run (replicate (length (aw_queue w)) (Th i 0)) \<lparr>ax_w = w, ax_th = ts\<rparr> =
                Some \<lparr>ax_w = w', ax_th = ts\<rparr> \<and> seg_inv (aw_sink w') hist \<and>
              log_of (aw_sink w') hist = log_of (aw_sink w) hist @ concat (aw_queue w) \<and>
              aw_queue w' = [] \<and> aw_closed w' = aw_closed w \<and> aw_cons w' = aw_cons w"
  using assms
proof (induction "aw_queue w" arbitrary: w)
  case Nil
  then show ?case by simp
next
  case (Cons b q)
  obtain sk1 where w1: "file_write b (aw_sink w) = (Inr (length b), sk1)" and s1: "seg_inv sk1 hist"
    and l1: "log_of sk1 hist = log_of (aw_sink w) hist @ b"
    using file_write_log [OF Cons.prems(1)] by blast
  define w1 where "w1 = w\<lparr>aw_sink := sk1, aw_queue := q, aw_pool := b # aw_pool w\<rparr>"
  have u: "ts[i := KDrain] = ts" using Cons.prems by (metis list_update_id)
  have t: "aw_tick (Th i 0) \<lparr>ax_w = w, ax_th = ts\<rparr> = Some \<lparr>ax_w = w1, ax_th = ts\<rparr>"
    using Cons.hyps(2) [symmetric] Cons.prems w1 u by (simp add: aw_tick_def aw_next_def aw_write_next_def aw_close_next_def w1_def)
  obtain w' where r: "aw_run (replicate (length q) (Th i 0)) \<lparr>ax_w = w1, ax_th = ts\<rparr> = Some \<lparr>ax_w = w', ax_th = ts\<rparr>"
    and p: "seg_inv (aw_sink w') hist" "log_of (aw_sink w') hist = log_of sk1 hist @ concat q"
      "aw_queue w' = []" "aw_closed w' = aw_closed w" "aw_cons w' = aw_cons w"
    using Cons.hyps(1) [of w1] s1 Cons.prems(2,3) by (auto simp: w1_def)
  show ?case
    using t r p l1 Cons.hyps(2) [symmetric] by auto
qed

text \<open>No step overfills the queue.\<close>

lemma aw_next_queue:
  "(w', pc') \<in> set (aw_next w pc) \<Longrightarrow> length (aw_queue w) \<le> QueueSize \<Longrightarrow> length (aw_queue w') \<le> QueueSize"
proof (cases pc)
  case KDrain
  assume m: "(w', pc') \<in> set (aw_next w pc)" and b: "length (aw_queue w) \<le> QueueSize"
  show ?thesis
  proof (cases "aw_queue w")
    case Nil
    then show ?thesis using m b KDrain by (simp add: aw_next_def aw_write_next_def aw_close_next_def)
  next
    case (Cons x q)
    then show ?thesis using m b KDrain
      by (cases rule: file_write_cases [of x "aw_sink w"]) (auto simp: aw_next_def aw_write_next_def aw_close_next_def)
  qed
next
  case (ASelect x)
  assume m: "(w', pc') \<in> set (aw_next w pc)" and b: "length (aw_queue w) \<le> QueueSize"
  obtain r sk where p: "poll_fire (aw_sink w) = (r, sk)" by (cases "poll_fire (aw_sink w)")
  show ?thesis using m b ASelect p
    by (cases r) (auto simp: aw_next_def aw_write_next_def aw_close_next_def Let_def split: cons_pc.splits option.splits if_splits)
next
  case KFile
  assume m: "(w', pc') \<in> set (aw_next w pc)" and b: "length (aw_queue w) \<le> QueueSize"
  obtain r sk where p: "writer_Close (aw_sink w) = (r, sk)" by (cases "writer_Close (aw_sink w)")
  show ?thesis using m b KFile p by (auto simp: aw_next_def aw_write_next_def aw_close_next_def)
qed (auto simp: aw_next_def aw_write_next_def aw_close_next_def queue_free_def Let_def split: if_splits prod.splits)

lemma cons_next_queue: "w' \<in> set (cons_next w) \<Longrightarrow> length (aw_queue w') \<le> length (aw_queue w)"
proof (cases "aw_cons w")
  case (CWrite x)
  assume m: "w' \<in> set (cons_next w)"
  show ?thesis using m CWrite
    by (cases rule: file_write_cases [of x "aw_sink w"]) (auto simp: cons_next_def)
next
  case CSelect
  assume m: "w' \<in> set (cons_next w)"
  show ?thesis
  proof (cases "aw_queue w")
    case (Cons x q)
    then show ?thesis using m CSelect by (auto simp: cons_next_def split: if_splits)
  qed (use m CSelect in \<open>auto simp: cons_next_def split: if_splits\<close>)
qed (auto simp: cons_next_def)

lemma aw_tick_queue:
  "aw_tick a s = Some s' \<Longrightarrow> length (aw_queue (ax_w s)) \<le> QueueSize \<Longrightarrow> length (aw_queue (ax_w s')) \<le> QueueSize"
proof (cases a)
  case (Th i k)
  assume t: "aw_tick a s = Some s'" and b: "length (aw_queue (ax_w s)) \<le> QueueSize"
  then obtain w' pc' where "(w', pc') \<in> set (aw_next (ax_w s) (ax_th s ! i))" "ax_w s' = w'"
    using Th by (auto simp: aw_tick_def split: if_splits prod.splits) (metis nth_mem)
  then show ?thesis using aw_next_queue b by blast
next
  case (Cons k)
  assume t: "aw_tick a s = Some s'" and b: "length (aw_queue (ax_w s)) \<le> QueueSize"
  then have "ax_w s' \<in> set (cons_next (ax_w s))" using Cons by (auto simp: aw_tick_def split: if_splits)
  then show ?thesis using cons_next_queue b by (meson le_trans)
next
  case (Trigger n)
  then show "aw_tick a s = Some s' \<Longrightarrow> length (aw_queue (ax_w s)) \<le> QueueSize \<Longrightarrow> ?thesis"
    by (auto simp: aw_tick_def Let_def)
qed

subsection \<open>Properties\<close>

text \<open>
  C10: a \<open>Write\<close> that takes the rotation branch can loop for ever: when the pool hands
  out a zero-length buffer (one an empty \<open>Write\<close> of the default branch put there),
  \<open>copy\<close> moves no byte, the empty chunk is queued, the consumer writes and returns it to
  the pool, and the caller takes it again; after any number of such rounds the state is the
  one it started from and the call has not returned.
\<close>

theorem async_write_livelock:
  assumes inv: "writer_inv (aw_sink w)" and pool: "aw_pool w = [] # p" and q: "aw_queue w = []"
    and c: "aw_cons w = CSelect" and b: "b \<noteq> []" and i: "i < length ts" "ts ! i = AGet b l"
  shows "\<forall>k. aw_run (concat (replicate k [Th i 0, Th i 0, Cons 0, Cons 0, Cons 0])) \<lparr>ax_w = w, ax_th = ts\<rparr> =
              Some \<lparr>ax_w = w, ax_th = ts\<rparr>"
  using aw_run_cycle [OF async_chunk_cycle [OF assms]] by blast

text \<open>
  C11: \<open>Close\<close> with the consumer taking no step writes every queued buffer to the file in
  queue order and closes it (the spec's drain on \<open>Close\<close>).
\<close>

theorem async_close_drains:
  assumes inv: "seg_inv (aw_sink w) hist" and nc: "\<not> aw_closed w"
  shows "\<exists>s'. aw_run (Th 0 0 # replicate (length (aw_queue w)) (Th 0 0) @ [Th 0 0, Th 0 0])
                 \<lparr>ax_w = w, ax_th = [KStart]\<rparr> = Some s' \<and>
              ax_th s' = [KRet (Inr ())] \<and>
              log_of (aw_sink (ax_w s')) hist = log_of (aw_sink w) hist @ concat (aw_queue w) \<and>
              fs_handles (sk_fs (aw_sink (ax_w s'))) (w_file (sk_w (aw_sink (ax_w s')))) = None"
proof -
  define w0 where "w0 = w\<lparr>aw_closed := True, aw_ctx := True\<rparr>"
  have t0: "aw_tick (Th 0 0) \<lparr>ax_w = w, ax_th = [KStart]\<rparr> = Some \<lparr>ax_w = w0, ax_th = [KDrain]\<rparr>"
    using nc by (simp add: aw_tick_def aw_next_def aw_write_next_def aw_close_next_def w0_def)
  have s0: "seg_inv (aw_sink w0) hist" using inv by (simp add: w0_def)
  obtain w' where r: "aw_run (replicate (length (aw_queue w0)) (Th 0 0)) \<lparr>ax_w = w0, ax_th = [KDrain]\<rparr> =
                        Some \<lparr>ax_w = w', ax_th = [KDrain]\<rparr>"
    and p: "seg_inv (aw_sink w') hist" "log_of (aw_sink w') hist = log_of (aw_sink w0) hist @ concat (aw_queue w0)"
      "aw_queue w' = []"
    using aw_drain_run [OF s0, of 0 "[KDrain]"] by auto
  obtain sk3 where c3: "writer_Close (aw_sink w') = (Inr (), sk3)" and l3: "log_of sk3 hist = log_of (aw_sink w') hist"
    and h: "fs_handles (sk_fs sk3) (w_file (sk_w sk3)) = None"
    using writer_Close_seg [OF p(1)] by blast
  have e: "aw_queue w0 = aw_queue w" "aw_sink w0 = aw_sink w" by (simp_all add: w0_def)
  show ?thesis
    using t0 r p c3 l3 h e by (simp add: aw_run_append aw_tick_def aw_next_def aw_write_next_def aw_close_next_def)
qed

text \<open>
  C12: \<open>Close\<close> drains the queue while the consumer is still running: the consumer has
  taken the first buffer, \<open>onClose\<close> writes the second, then the consumer writes the
  first, so the file holds them in the wrong order.
\<close>

theorem async_close_reorders:
  assumes inv: "seg_inv (aw_sink w) hist" and q: "aw_queue w = [b1, b2]" and c: "aw_cons w = CSelect"
    and nc: "\<not> aw_closed w"
  shows "\<exists>s'. aw_run [Cons 0, Th 0 0, Th 0 0, Th 0 0, Cons 0, Th 0 0] \<lparr>ax_w = w, ax_th = [KStart]\<rparr> = Some s' \<and>
              ax_th s' = [KRet (Inr ())] \<and>
              log_of (aw_sink (ax_w s')) hist = log_of (aw_sink w) hist @ b2 @ b1"
proof -
  obtain sk1 where w1: "file_write b2 (aw_sink w) = (Inr (length b2), sk1)" and s1: "seg_inv sk1 hist"
    and l1: "log_of sk1 hist = log_of (aw_sink w) hist @ b2"
    using file_write_log [OF inv] by blast
  obtain sk2 where w2: "file_write b1 sk1 = (Inr (length b1), sk2)" and s2: "seg_inv sk2 hist"
    and l2: "log_of sk2 hist = log_of sk1 hist @ b1"
    using file_write_log [OF s1] by blast
  obtain sk3 where c3: "writer_Close sk2 = (Inr (), sk3)" and l3: "log_of sk3 hist = log_of sk2 hist"
    using writer_Close_seg [OF s2] by blast
  show ?thesis
    using q c nc w1 w2 c3 l1 l2 l3
    by (simp add: aw_tick_def aw_next_def aw_write_next_def aw_close_next_def cons_next_def)
qed

text \<open>
  C13: if \<open>Close\<close> closes the file before the consumer writes the buffer it took, that
  buffer is lost although \<open>Close\<close> succeeds, the consumer blocks for ever on
  \<open>errChan\<close>, and every later \<open>Write\<close> fails with \<open>ErrClosed\<close> without receiving
  the error.
\<close>

theorem async_close_loses:
  assumes inv: "seg_inv (aw_sink w) hist" and q: "aw_queue w = [b1, b2]" and c: "aw_cons w = CSelect"
    and nc: "\<not> aw_closed w"
  shows "\<exists>s'. aw_run [Cons 0, Th 0 0, Th 0 0, Th 0 0, Th 0 0, Cons 0] \<lparr>ax_w = w, ax_th = [KStart]\<rparr> = Some s' \<and>
              ax_th s' = [KRet (Inr ())] \<and>
              log_of (aw_sink (ax_w s')) hist = log_of (aw_sink w) hist @ b2 \<and>
              aw_cons (ax_w s') = CSendErr ErrFileClosed b1 \<and> cons_next (ax_w s') = [] \<and>
              aw_next (ax_w s') (AStart b) = [(ax_w s', ARet (Inl ErrClosed))]"
proof -
  obtain sk1 where w1: "file_write b2 (aw_sink w) = (Inr (length b2), sk1)" and s1: "seg_inv sk1 hist"
    and l1: "log_of sk1 hist = log_of (aw_sink w) hist @ b2"
    using file_write_log [OF inv] by blast
  obtain sk3 where c3: "writer_Close sk1 = (Inr (), sk3)" and l3: "log_of sk3 hist = log_of sk1 hist"
    and h: "fs_handles (sk_fs sk3) (w_file (sk_w sk3)) = None"
    using writer_Close_seg [OF s1] by blast
  show ?thesis
    using q c nc w1 c3 l1 l3 file_write_closed [OF h]
    by (simp add: aw_tick_def aw_next_def aw_write_next_def aw_close_next_def cons_next_def)
qed

text \<open>
  C14: a \<open>Write\<close> that loaded \<open>closed = 0\<close> before a concurrent \<open>Close\<close> ran to its end
  queues its bytes and reports success, but the file is already closed: the accepted bytes
  can never reach it.
\<close>

theorem async_write_close_race:
  assumes inv: "seg_inv (aw_sink w) hist" and q: "aw_queue w = []" and c: "aw_cons w = CSelect"
    and nc: "\<not> aw_closed w" and idle: "fire_recv (sk_mgr (aw_sink w)) = None"
  shows "\<exists>s'. aw_run [Th 0 0, Th 1 0, Th 1 0, Th 1 0, Th 0 0, Th 0 0]
                 \<lparr>ax_w = w, ax_th = [AStart b, KStart]\<rparr> = Some s' \<and>
              ax_th s' = [ARet (Inr (length b)), KRet (Inr ())] \<and> aw_queue (ax_w s') = [b] \<and>
              log_of (aw_sink (ax_w s')) hist = log_of (aw_sink w) hist \<and>
              fs_handles (sk_fs (aw_sink (ax_w s'))) (w_file (sk_w (aw_sink (ax_w s')))) = None"
proof -
  obtain sk3 where c3: "writer_Close (aw_sink w) = (Inr (), sk3)" and l3: "log_of sk3 hist = log_of (aw_sink w) hist"
    and h: "fs_handles (sk_fs sk3) (w_file (sk_w sk3)) = None"
    and m: "sk_mgr sk3 = sk_mgr (aw_sink w)"
    using writer_Close_seg [OF inv] by (auto simp: writer_Close_def split: sum.splits)
  show ?thesis
    using q c nc idle c3 l3 h m
    by (simp add: aw_tick_def aw_next_def aw_write_next_def aw_close_next_def cons_next_def queue_free_def QueueSize_def)
qed

text \<open>
  On every schedule the queue never holds more than \<open>QueueSize\<close> buffers: a send
  blocks on a full channel.
\<close>

theorem aw_queue_bounded:
  "aw_run as s = Some s' \<Longrightarrow> length (aw_queue (ax_w s)) \<le> QueueSize \<Longrightarrow> length (aw_queue (ax_w s')) \<le> QueueSize"
proof (induction as arbitrary: s)
  case Nil
  then show ?case by simp
next
  case (Cons a as)
  then obtain s1 where "aw_tick a s = Some s1" "aw_run as s1 = Some s'" by (auto split: option.splits)
  then show ?case using Cons aw_tick_queue by blast
qed

subsection \<open>Witnesses\<close>

lemma demo_async_facts:
  "seg_inv (aw_sink demo_async) []" "fire_recv (sk_mgr (aw_sink demo_async)) = None"
  "\<not> aw_closed demo_async" "aw_cons demo_async = CSelect" "aw_queue demo_async = []"
  "log_of (aw_sink demo_async) [] = [72, 105]"
  by (simp_all add: demo_async_def demo_sink_def seg_inv_def writer_inv_def fs_wf_def fire_recv_def
                    log_of_def file_bytes_def file_at_def)

theorem async_write_livelock_witness:
  "\<exists>s1. aw_run [Th 0 0, Th 0 0, Th 0 0, Cons 0, Cons 0, Cons 0, Trigger ''/l/app-1.log'', Th 1 0, Th 1 0]
          \<lparr>ax_w = demo_async, ax_th = [AStart [], AStart [1]]\<rparr> = Some s1 \<and>
        ax_th s1 = [ARet (Inr 0), AGet [1] 1] \<and>
        (\<forall>k. aw_run (concat (replicate k [Th 1 0, Th 1 0, Cons 0, Cons 0, Cons 0])) s1 = Some s1)"
proof -
  let ?sk0 = "aw_sink demo_async"
  let ?skT = "?sk0\<lparr>sk_mgr := (sk_mgr ?sk0)\<lparr>fire := [''/l/app-1.log'']\<rparr>\<rparr>"
  have sT: "seg_inv ?skT []" using demo_async_facts(1) by (simp add: seg_inv_def writer_inv_def)
  have fT: "fresh_pending ?skT"
    by (simp add: fresh_pending_def fire_recv_def demo_async_def demo_sink_def)
  obtain sk1 where p: "poll_fire ?skT = (Inr (), sk1)" and s1: "seg_inv sk1 (rotated_next ?skT [])"
    using poll_fire_refines [OF sT fT] by blast
  have w0: "writer_inv ?sk0" using demo_async_facts(1) by (simp add: seg_inv_def)
  have r: "aw_run [Th 0 0, Th 0 0, Th 0 0, Cons 0, Cons 0, Cons 0, Trigger ''/l/app-1.log'', Th 1 0, Th 1 0]
             \<lparr>ax_w = demo_async, ax_th = [AStart [], AStart [1]]\<rparr> =
           Some \<lparr>ax_w = demo_async\<lparr>aw_sink := sk1, aw_pool := [[]]\<rparr>, ax_th = [ARet (Inr 0), AGet [1] 1]\<rparr>"
    using file_write_Nil [OF w0] p
    by (simp add: aw_tick_def aw_next_def aw_write_next_def aw_close_next_def cons_next_def pool_get_def queue_free_def QueueSize_def
                  fire_recv_def Let_def demo_async_def)
  have w1: "writer_inv (aw_sink (demo_async\<lparr>aw_sink := sk1, aw_pool := [[]]\<rparr>))"
    using s1 by (simp add: seg_inv_def)
  have l: "\<forall>k. aw_run (concat (replicate k [Th 1 0, Th 1 0, Cons 0, Cons 0, Cons 0]))
              \<lparr>ax_w = demo_async\<lparr>aw_sink := sk1, aw_pool := [[]]\<rparr>, ax_th = [ARet (Inr 0), AGet [1] 1]\<rparr> =
            Some \<lparr>ax_w = demo_async\<lparr>aw_sink := sk1, aw_pool := [[]]\<rparr>, ax_th = [ARet (Inr 0), AGet [1] 1]\<rparr>"
    by (rule async_write_livelock [OF w1]) (simp_all add: demo_async_def)
  show ?thesis using r l by auto
qed

theorem async_close_drains_witness:
  "\<exists>s'. aw_run [Th 0 0, Th 0 0, Th 0 0, Th 0 0, Th 0 0]
          \<lparr>ax_w = demo_async\<lparr>aw_queue := [[1], [2]]\<rparr>, ax_th = [KStart]\<rparr> = Some s' \<and>
        ax_th s' = [KRet (Inr ())] \<and> log_of (aw_sink (ax_w s')) [] = [72, 105, 1, 2] \<and>
        fs_handles (sk_fs (aw_sink (ax_w s'))) (w_file (sk_w (aw_sink (ax_w s')))) = None"
  using async_close_drains [of "demo_async\<lparr>aw_queue := [[1], [2]]\<rparr>" "[]"] demo_async_facts
  by (simp add: numeral_2_eq_2 del: aw_run.simps)

theorem async_close_reorders_witness:
  "\<exists>s'. aw_run [Cons 0, Th 0 0, Th 0 0, Th 0 0, Cons 0, Th 0 0]
          \<lparr>ax_w = demo_async\<lparr>aw_queue := [[1], [2]]\<rparr>, ax_th = [KStart]\<rparr> = Some s' \<and>
        ax_th s' = [KRet (Inr ())] \<and> log_of (aw_sink (ax_w s')) [] = [72, 105, 2, 1]"
  using async_close_reorders [of "demo_async\<lparr>aw_queue := [[1], [2]]\<rparr>" "[]" "[1]" "[2]"] demo_async_facts
  by (simp del: aw_run.simps)

theorem async_close_loses_witness:
  "\<exists>s'. aw_run [Cons 0, Th 0 0, Th 0 0, Th 0 0, Th 0 0, Cons 0]
          \<lparr>ax_w = demo_async\<lparr>aw_queue := [[1], [2]]\<rparr>, ax_th = [KStart]\<rparr> = Some s' \<and>
        ax_th s' = [KRet (Inr ())] \<and> log_of (aw_sink (ax_w s')) [] = [72, 105, 2] \<and>
        aw_cons (ax_w s') = CSendErr ErrFileClosed [1] \<and> cons_next (ax_w s') = [] \<and>
        aw_next (ax_w s') (AStart [3]) = [(ax_w s', ARet (Inl ErrClosed))]"
  using async_close_loses [of "demo_async\<lparr>aw_queue := [[1], [2]]\<rparr>" "[]" "[1]" "[2]"] demo_async_facts
  by (simp del: aw_run.simps)

theorem async_write_close_race_witness:
  "\<exists>s'. aw_run [Th 0 0, Th 1 0, Th 1 0, Th 1 0, Th 0 0, Th 0 0]
          \<lparr>ax_w = demo_async, ax_th = [AStart [1], KStart]\<rparr> = Some s' \<and>
        ax_th s' = [ARet (Inr 1), KRet (Inr ())] \<and> aw_queue (ax_w s') = [[1]] \<and>
        log_of (aw_sink (ax_w s')) [] = [72, 105] \<and>
        fs_handles (sk_fs (aw_sink (ax_w s'))) (w_file (sk_w (aw_sink (ax_w s')))) = None"
  using async_write_close_race [of demo_async "[]" "[1]"] demo_async_facts
  by (simp del: aw_run.simps)

theorem aw_queue_bounded_witness:
  "\<exists>s'. aw_run [Th 0 0, Th 0 0, Th 0 0] \<lparr>ax_w = demo_async, ax_th = [AStart [1]]\<rparr> = Some s' \<and>
        length (aw_queue (ax_w s')) \<le> QueueSize"
proof -
  have r: "aw_run [Th 0 0, Th 0 0, Th 0 0] \<lparr>ax_w = demo_async, ax_th = [AStart [1]]\<rparr> =
             Some \<lparr>ax_w = demo_async\<lparr>aw_queue := [[1]]\<rparr>, ax_th = [ARet (Inr 1)]\<rparr>"
    using demo_async_facts
    by (simp add: aw_tick_def aw_next_def aw_write_next_def aw_close_next_def pool_get_def queue_free_def QueueSize_def demo_async_def)
  have b: "length (aw_queue (ax_w \<lparr>ax_w = demo_async, ax_th = [AStart [1]]\<rparr>)) \<le> QueueSize"
    using demo_async_facts by (simp add: QueueSize_def)
  show ?thesis using aw_queue_bounded [OF r b] r by blast
qed

end
