(* ===== verification/Constructor.thy ===== *)
theory Constructor
  imports BufferWriter AsyncWriter
begin

text \<open>
  \<open>NewWriterFromConfig\<close>, \<open>NewWriter\<close> and \<open>NewWriterFromConfigFile\<close>
  (src/rollingwriter/writer.go lines 62-210):
  check the two required fields, open the log file, build the manager, then with a bounded
  retention scan the directory and push its historical files through the retention loop,
  and last choose the writer by \<open>WriterMode\<close>. The file system is returned on every path,
  the error paths included: a file opened or history deleted before an error stays so.
  \<open>os.MkdirAll\<close> is not modelled (the directory model is flat); the directory listing
  \<open>ioutil.ReadDir\<close> returns is a parameter. \<open>None\<close> is a constructor that blocks for
  ever in the retention loop. The buffer pool of a new asynchronous writer is empty.
\<close>

datatype rolling_writer =
    RWNone sink
  | RWLock sink
  | RWAsync awriter
  | RWBuffer bwriter

text \<open>The \<open>Writer\<close> every variant embeds.\<close>

definition rw_sink :: "rolling_writer \<Rightarrow> sink" where
  "rw_sink rw =
     (case rw of RWNone sk \<Rightarrow> sk | RWLock sk \<Rightarrow> sk | RWAsync w \<Rightarrow> aw_sink w | RWBuffer w \<Rightarrow> bw_sink w)"

definition NewWriterFromConfig ::
  "env \<Rightarrow> config \<Rightarrow> nat \<Rightarrow> string list \<Rightarrow> fsys \<Rightarrow> ((go_error + rolling_writer) \<times> fsys) option" where
  "NewWriterFromConfig e c now listing fs =
     (if LogPath c = [] \<or> FileName c = [] then Some (Inl ErrInvalidArgument, fs)
      else
        (case os_open_append fs (LogFilePath c) of
           Inl err \<Rightarrow> Some (Inl err, fs)
         | Inr (fd, fs1) \<Rightarrow>
             (case NewManager e c now of
                Inl err \<Rightarrow> Some (Inl err, fs1)
              | Inr m \<Rightarrow>
                  (case (if 0 < MaxRemain c then startup_trim e c fs1 listing else Some (fs1, [])) of
                     None \<Rightarrow> None
                   | Some (fs2, q) \<Rightarrow>
                       (let sk = \<lparr>sk_fs = fs2, sk_mgr = m,
                                  sk_w = \<lparr>w_file = fd, w_absPath = LogFilePath c, w_rolling = q\<rparr>,
                                  sk_tasks = []\<rparr>
                        in if WriterMode c = ''none'' then Some (Inr (RWNone sk), fs2)
                           else if WriterMode c = ''lock'' then Some (Inr (RWLock sk), fs2)
                           else if WriterMode c = ''async'' then
                             Some (Inr (RWAsync \<lparr>aw_sink = sk, aw_queue = [], aw_pool = [],
                                                 aw_closed = False, aw_ctx = False, aw_cons = CSelect\<rparr>), fs2)
                           else if WriterMode c = ''buffer'' then
                             (case go_make_buf (BufferWriterThreshold c) of
                                Inl p \<Rightarrow> Some (Inl p, fs2)
                              | Inr nb \<Rightarrow> Some (Inr (RWBuffer \<lparr>bw_sink = sk, bw_buf = nb, bw_swaping = False\<rparr>), fs2))
                           else Some (Inl ErrInvalidArgument, fs2))))))"

definition NewWriter ::
  "env \<Rightarrow> cfg_option list \<Rightarrow> nat \<Rightarrow> string list \<Rightarrow> fsys \<Rightarrow> ((go_error + rolling_writer) \<times> fsys) option" where
  "NewWriter e ops now listing fs = NewWriterFromConfig e (apply_options ops) now listing fs"

text \<open>
  \<open>NewWriterFromConfigFile(path, typ)\<close> (lines 186-210): open the file read-only, read
  it, decode it over the defaults with the JSON or YAML decoder (parameters: the model
  does not parse either format; a decoder returns the decoded configuration or its error),
  and build the writer. The deferred \<open>file.Close()\<close> runs when the function returns,
  after the writer has been built, so the configuration file's handle is still open while
  \<open>NewWriterFromConfig\<close> opens the log file. A writer shares the one file system with
  the caller; \<open>rw_with_fs\<close> gives its sink the file system after that close.
\<close>

definition rw_with_fs :: "fsys \<Rightarrow> rolling_writer \<Rightarrow> rolling_writer" where
  "rw_with_fs fs rw =
     (case rw of
        RWNone sk \<Rightarrow> RWNone (sk\<lparr>sk_fs := fs\<rparr>)
      | RWLock sk \<Rightarrow> RWLock (sk\<lparr>sk_fs := fs\<rparr>)
      | RWAsync w \<Rightarrow> RWAsync (w\<lparr>aw_sink := (aw_sink w)\<lparr>sk_fs := fs\<rparr>\<rparr>)
      | RWBuffer w \<Rightarrow> RWBuffer (w\<lparr>bw_sink := (bw_sink w)\<lparr>sk_fs := fs\<rparr>\<rparr>))"

definition NewWriterFromConfigFile ::
  "env \<Rightarrow> (bytes \<Rightarrow> config \<Rightarrow> config result) \<Rightarrow> (bytes \<Rightarrow> config \<Rightarrow> config result) \<Rightarrow>
   nat \<Rightarrow> string list \<Rightarrow> fsys \<Rightarrow> path \<Rightarrow> string \<Rightarrow> ((go_error + rolling_writer) \<times> fsys) option" where
  "NewWriterFromConfigFile e json_dec yaml_dec now listing fs path typ =
     (case os_open fs path of
        Inl err \<Rightarrow> Some (Inl err, fs)
      | Inr (fd, fs1) \<Rightarrow>
          (let close = (\<lambda>fs'. ignore_err fs' (os_close fs' fd))
           in case os_read_all fs1 fd of
                Inl err \<Rightarrow> Some (Inl err, close fs1)
              | Inr buf \<Rightarrow>
                  (case (if typ = ''json'' then json_dec buf NewDefaultConfig
                         else if typ = ''yaml'' then yaml_dec buf NewDefaultConfig
                         else Inr NewDefaultConfig) of
                     Inl err \<Rightarrow> Some (Inl err, close fs1)
                   | Inr cfg \<Rightarrow>
                       map_option (\<lambda>(r, fs2). (map_sum id (rw_with_fs (close fs2)) r, close fs2))
                         (NewWriterFromConfig e cfg now listing fs1))))"

text \<open>
  Examples: a configuration with directory \<open>/l\<close>, name \<open>app\<close>, retention 1 and no
  rolling policy, and a directory holding two historical files of it.
\<close>

definition demo_writer_config :: config where
  "demo_writer_config = NewDefaultConfig\<lparr>LogPath := ''/l'', FileName := ''app'', MaxRemain := 1,
                                          RollingPolicy := WithoutRolling\<rparr>"

definition demo_history_fs :: fsys where
  "demo_history_fs =
     \<lparr>fs_dir = Map.empty(''/l/app.log.1'' \<mapsto> 0, ''/l/app.log.2'' \<mapsto> 1), fs_data = (\<lambda>_. []),
      fs_next_ino = 2, fs_handles = Map.empty, fs_next_fd = 0, fs_denied = []\<rparr>"

text \<open>A file system holding one configuration file.\<close>

definition demo_config_fs :: fsys where
  "demo_config_fs =
     \<lparr>fs_dir = Map.empty(''/etc/w.json'' \<mapsto> 0), fs_data = (\<lambda>_. [123, 125]), fs_next_ino = 1,
      fs_handles = Map.empty, fs_next_fd = 0, fs_denied = []\<rparr>"

subsection \<open>Facts about the steps\<close>

lemma os_open_append_ok:
  "p \<notin> set (fs_denied fs) \<or> fs_dir fs p \<noteq> None \<Longrightarrow> \<exists>fd fs'. os_open_append fs p = Inr (fd, fs')"
  by (auto simp: os_open_append_def split: option.splits)

lemma remove_all_handles: "fs_handles (remove_all fs xs) = fs_handles fs"
  by (induction xs arbitrary: fs) (auto simp: ignore_err_def os_remove_def split: option.splits sum.splits)

lemma remove_all_counters:
  "fs_next_ino (remove_all fs xs) = fs_next_ino fs" "fs_next_fd (remove_all fs xs) = fs_next_fd fs"
  by (induction xs arbitrary: fs) (auto simp: ignore_err_def os_remove_def split: option.splits sum.splits)

lemma remove_all_wf: "fs_wf fs \<Longrightarrow> fs_wf (remove_all fs xs)"
  by (auto simp: fs_wf_def remove_all_dir remove_all_handles remove_all_counters split: if_splits)

text \<open>The startup trim with a positive retention removes the oldest historical files.\<close>

lemma startup_trim_eq:
  assumes "0 < MaxRemain c"
  shows "startup_trim e c fs listing =
           Some (remove_all fs (take (length (map (\<lambda>f. go_path_join [LogPath c, f]) (scan_history e c listing)) - nat (MaxRemain c))
                                      (map (\<lambda>f. go_path_join [LogPath c, f]) (scan_history e c listing))),
                 drop (length (map (\<lambda>f. go_path_join [LogPath c, f]) (scan_history e c listing)) - nat (MaxRemain c))
                      (map (\<lambda>f. go_path_join [LogPath c, f]) (scan_history e c listing)))"
  using enqueue_all_eq [of "nat (MaxRemain c)" "[]" fs] assms by (simp add: startup_trim_def)

lemma startup_trim_keeps:
  assumes "0 < MaxRemain c" and "fs_wf fs"
    and keep: "\<forall>f \<in> set listing. is_history_file e c f \<longrightarrow> go_path_join [LogPath c, f] \<noteq> p"
  shows "\<exists>fs' q. startup_trim e c fs listing = Some (fs', q) \<and> fs_wf fs' \<and>
                fs_dir fs' p = fs_dir fs p \<and> fs_handles fs' = fs_handles fs"
proof -
  let ?H = "map (\<lambda>f. go_path_join [LogPath c, f]) (scan_history e c listing)"
  have "p \<notin> set ?H" using keep by (auto simp: scan_history_def)
  then have "p \<notin> set (take (length ?H - nat (MaxRemain c)) ?H)" by (meson in_set_takeD)
  then show ?thesis
    using startup_trim_eq [OF assms(1), of e fs listing] remove_all_wf [OF assms(2)]
    by (simp add: remove_all_dir remove_all_handles)
qed

lemma trim_step_keeps:
  assumes "fs_wf fs"
    and keep: "\<forall>f \<in> set listing. is_history_file e c f \<longrightarrow> go_path_join [LogPath c, f] \<noteq> p"
  shows "\<exists>fs' q. (if 0 < MaxRemain c then startup_trim e c fs listing else Some (fs, [])) = Some (fs', q) \<and>
                fs_wf fs' \<and> fs_dir fs' p = fs_dir fs p \<and> fs_handles fs' = fs_handles fs"
  using startup_trim_keeps [OF _ assms] assms(1) by auto

lemma trim_step_some:
  "\<exists>fs' q. (if 0 < MaxRemain c then startup_trim e c fs listing else Some (fs, [])) = Some (fs', q)"
  by (simp add: startup_trim_eq)

text \<open>With the default configuration the writer is a \<open>LockedWriter\<close> on \<open>log/log.log\<close>.\<close>

lemma NewWriterFromConfig_lock:
  assumes "WriterMode c = ''lock''" and "\<not> 0 < MaxRemain c"
    and "NewWriterFromConfig e c now listing fs = Some (Inr w, fs2)"
  shows "\<exists>sk. w = RWLock sk \<and> w_absPath (sk_w sk) = LogFilePath c \<and> sk_fs sk = fs2 \<and>
              fs_dir fs2 (LogFilePath c) \<noteq> None"
  using assms
  by (auto simp: NewWriterFromConfig_def os_open_append_def Let_def
           split: if_splits sum.splits option.splits prod.splits)

lemma rw_with_fs_lock: "rw_with_fs fs (RWLock sk) = RWLock (sk\<lparr>sk_fs := fs\<rparr>)"
  by (simp add: rw_with_fs_def)

lemma default_log_file: "LogFilePath NewDefaultConfig = ''log/log.log''"
  by (simp add: LogFilePath_def NewDefaultConfig_def go_path_join_def go_clean_def clean_step_def)

lemma demo_default_manager: "\<exists>m. NewManager demo_env NewDefaultConfig 0 = Inr m"
  by (simp add: NewManager_def NewDefaultConfig_def rolling_policy_defs Let_def demo_env_def
      split: sum.splits)

subsection \<open>Properties\<close>


text \<open>
  \<open>NewWriterFromConfig\<close> always returns: the retention loop of the startup trim
  never blocks.
\<close>

theorem NewWriterFromConfig_returns: "NewWriterFromConfig e c now listing fs \<noteq> None"
  by (auto simp: NewWriterFromConfig_def startup_trim_eq Let_def
           split: sum.splits prod.splits option.splits if_splits)


text \<open>
  In buffer mode a threshold whose doubled capacity is negative in int64 makes the
  constructor panic in \<open>make\<close> instead of returning \<open>ErrInvalidArgument\<close>.
\<close>

theorem NewWriterFromConfig_buffer_panic:
  assumes args: "LogPath c \<noteq> []" "FileName c \<noteq> []"
    and op: "LogFilePath c \<notin> set (fs_denied fs) \<or> fs_dir fs (LogFilePath c) \<noteq> None"
    and mgr: "NewManager e c now = Inr m"
    and mode: "WriterMode c = ''buffer''" and t: "go_make_buf (BufferWriterThreshold c) \<noteq> Inr []"
  shows "\<exists>fs'. NewWriterFromConfig e c now listing fs = Some (Inl (Panic ''makeslice: cap out of range''), fs')"
proof -
  obtain fd fs1 where o: "os_open_append fs (LogFilePath c) = Inr (fd, fs1)"
    using os_open_append_ok [OF op] by blast
  obtain fs2 q where tr: "(if 0 < MaxRemain c then startup_trim e c fs1 listing else Some (fs1, [])) = Some (fs2, q)"
    using trim_step_some by blast
  have p: "go_make_buf (BufferWriterThreshold c) = Inl (Panic ''makeslice: cap out of range'')"
    using t by (simp add: go_make_buf_def Let_def split: if_splits)
  show ?thesis using args o mgr mode tr p by (simp add: NewWriterFromConfig_def Let_def)
qed

text \<open>
  C18: \<open>NewWriterFromConfigFile\<close> decodes the file only for the type strings \<open>"json"\<close> and
  \<open>"yaml"\<close>, compared exactly. For any other type (\<open>"JSON"\<close>, \<open>"yml"\<close>, ...) the content
  of the file is ignored without an error: whatever the decoders would produce, a
  successful call returns a \<open>LockedWriter\<close> on the default path \<open>log/log.log\<close>, which
  it creates.
\<close>

theorem NewWriterFromConfigFile_ignores_unknown_type:
  assumes "typ \<noteq> ''json''" "typ \<noteq> ''yaml''"
    and "NewWriterFromConfigFile e json_dec yaml_dec now listing fs path typ = Some (Inr w, fs')"
  shows "\<exists>sk. w = RWLock sk \<and> w_absPath (sk_w sk) = ''log/log.log'' \<and> sk_fs sk = fs' \<and>
              fs_dir fs' ''log/log.log'' \<noteq> None"
proof -
  obtain fd fs1 where o: "os_open fs path = Inr (fd, fs1)"
    using assms(3) by (auto simp: NewWriterFromConfigFile_def split: sum.splits)
  obtain buf where r: "os_read_all fs1 fd = Inr buf"
    using assms(3) o by (auto simp: NewWriterFromConfigFile_def Let_def split: sum.splits)
  obtain w0 fs2 where n: "NewWriterFromConfig e NewDefaultConfig now listing fs1 = Some (Inr w0, fs2)"
    and w: "w = rw_with_fs (ignore_err fs2 (os_close fs2 fd)) w0" and f: "fs' = ignore_err fs2 (os_close fs2 fd)"
    using assms o r by (auto simp: NewWriterFromConfigFile_def Let_def split: sum.splits)
  have d: "WriterMode NewDefaultConfig = ''lock''" "\<not> 0 < MaxRemain NewDefaultConfig"
    by (simp_all add: NewDefaultConfig_def)
  show ?thesis
    using NewWriterFromConfig_lock [OF d n] w f
    by (auto simp: default_log_file rw_with_fs_lock close_frame)
qed

subsection \<open>Witnesses\<close>

lemma demo_writer_facts:
  "LogPath demo_writer_config = ''/l''" "FileName demo_writer_config = ''app''"
  "LogFilePath demo_writer_config = ''/l/app.log''" "MaxRemain demo_writer_config = 1"
  "NewManager demo_env demo_writer_config 0 =
     Inr \<lparr>thresholdSize = 0, startAt = 0, fire = [], ctx_closed = False, trigger = NoTrigger,
          cron_running = False, poller_running = False\<rparr>"
  "scan_history demo_env demo_writer_config [''app.log.1'', ''app.log.2''] = [''app.log.1'', ''app.log.2'']"
  "map (\<lambda>f. go_path_join [''/l'', f]) [''app.log.1'', ''app.log.2''] = [''/l/app.log.1'', ''/l/app.log.2'']"
  by (simp_all add: demo_writer_config_def NewDefaultConfig_def LogFilePath_def go_path_join_def
                    go_clean_def clean_step_def NewManager_def rolling_policy_defs Let_def
                    scan_history_def is_history_file_def history_time_def go_ext_def demo_env_def
                    go_is_digit_def digit_val_def)



theorem NewWriterFromConfig_buffer_panic_witness:
  "\<exists>fs'. NewWriterFromConfig demo_env (demo_writer_config\<lparr>WriterMode := ''buffer'', BufferWriterThreshold := -1\<rparr>) 0
           [] demo_history_fs = Some (Inl (Panic ''makeslice: cap out of range''), fs')"
proof -
  let ?c = "demo_writer_config\<lparr>WriterMode := ''buffer'', BufferWriterThreshold := -1\<rparr>"
  have a: "LogPath ?c \<noteq> []" "FileName ?c \<noteq> []"
    "LogFilePath ?c \<notin> set (fs_denied demo_history_fs) \<or> fs_dir demo_history_fs (LogFilePath ?c) \<noteq> None"
    "WriterMode ?c = ''buffer''" "go_make_buf (BufferWriterThreshold ?c) \<noteq> Inr []"
    using demo_writer_facts by (simp_all add: demo_history_fs_def LogFilePath_def go_make_buf_def Let_def)
  have m: "NewManager demo_env ?c 0 =
     Inr \<lparr>thresholdSize = 0, startAt = 0, fire = [], ctx_closed = False, trigger = NoTrigger,
          cron_running = False, poller_running = False\<rparr>"
    by (simp add: NewManager_def ParseVolume_def demo_writer_config_def NewDefaultConfig_def Let_def
                  rolling_policy_defs)
  show ?thesis using NewWriterFromConfig_buffer_panic [OF a(1-3) m a(4,5)] .
qed

theorem NewWriterFromConfigFile_ignores_unknown_type_witness:
  "\<exists>w fs'. NewWriterFromConfigFile demo_env (\<lambda>_ c. Inr (c\<lparr>LogPath := ''/var/log''\<rparr>)) (\<lambda>_ c. Inr c) 0 []
             demo_config_fs ''/etc/w.json'' ''JSON'' = Some (Inr w, fs') \<and>
           (\<exists>sk. w = RWLock sk \<and> w_absPath (sk_w sk) = ''log/log.log'' \<and> fs_dir fs' ''log/log.log'' \<noteq> None)"
proof -
  obtain m where m: "NewManager demo_env NewDefaultConfig 0 = Inr m" using demo_default_manager by blast
  have "\<exists>w fs'. NewWriterFromConfigFile demo_env (\<lambda>_ c. Inr (c\<lparr>LogPath := ''/var/log''\<rparr>)) (\<lambda>_ c. Inr c) 0 []
             demo_config_fs ''/etc/w.json'' ''JSON'' = Some (Inr w, fs')"
  proof -
    have d: "LogPath NewDefaultConfig \<noteq> []" "FileName NewDefaultConfig \<noteq> []"
      "WriterMode NewDefaultConfig = ''lock''" "\<not> 0 < MaxRemain NewDefaultConfig"
      by (simp_all add: NewDefaultConfig_def)
    show ?thesis
      using m d by (simp add: NewWriterFromConfigFile_def os_open_def os_read_all_def demo_config_fs_def
        NewWriterFromConfig_def os_open_append_def Let_def default_log_file)
  qed
  then obtain w fs' where n: "NewWriterFromConfigFile demo_env (\<lambda>_ c. Inr (c\<lparr>LogPath := ''/var/log''\<rparr>)) (\<lambda>_ c. Inr c) 0 []
             demo_config_fs ''/etc/w.json'' ''JSON'' = Some (Inr w, fs')" by blast
  show ?thesis using NewWriterFromConfigFile_ignores_unknown_type [OF _ _ n] n by auto
qed

end
