(* ===== verification/Logx.thy ===== *)
theory Logx
  imports Constructor
begin

text \<open>
  The zap front end, src/logx.go: the package configuration (\<open>Config\<close>, \<open>appender\<close>,
  lines 16-33), the package variables bound at initialisation (lines 35-52), \<open>Init\<close>
  (lines 54-78), \<open>GetLogger\<close> and \<open>GetSLogger\<close> (lines 80-86), and the helpers
  \<open>newEncoderConfig\<close>, \<open>encoder\<close>, \<open>logLevel\<close> and \<open>runner\<close> (lines 95-151).

  zap itself is a library the package only calls; the part of it the front end relies on
  is modelled from its documentation: levels are \<open>int8\<close> codes -1..5 ordered by code; a
  logger holds a tee of cores (each an encoder, an output and a minimum level) and the
  flags its options set; logging at a level writes the entry to every core enabled at
  that level, adds the caller when \<open>AddCaller\<close> was given and a stack trace when the
  level reaches the \<open>AddStacktrace\<close> level, and then panics at \<open>PanicLevel\<close> (and at
  \<open>DPanicLevel\<close> in development mode) or exits at \<open>FatalLevel\<close>. \<open>Sugar\<close> and \<open>Sync\<close>
  dereference their receiver, so they panic on a nil logger. \<open>zapcore.AddSync\<close> wraps a
  rolling writer, which has no \<open>Sync\<close> method, with a no-op one; only \<open>os.Stdout\<close>
  can fail to sync. The encoders' output format is not modelled.

  The state of the package is the variable \<open>logger\<close> (\<open>None\<close> for nil), the shared
  file system and what has been printed to standard output. A writer's sink holds the
  file system it was built on; after \<open>Init\<close> every sink is given the final one, since
  all writers share it.
\<close>

subsection \<open>zap levels\<close>

text \<open>
  \<open>zapcore.Level\<close>: the seven levels with their \<open>int8\<close> codes; the order is the
  order of the codes, as in Go, and \<open>Level.String\<close> gives the lower-case names.
\<close>

datatype zlevel = DebugLevel | InfoLevel | WarnLevel | ErrorLevel | DPanicLevel | PanicLevel | FatalLevel

definition zlevel_code :: "zlevel \<Rightarrow> int" where
  "zlevel_code l =
     (case l of DebugLevel \<Rightarrow> -1 | InfoLevel \<Rightarrow> 0 | WarnLevel \<Rightarrow> 1 | ErrorLevel \<Rightarrow> 2
              | DPanicLevel \<Rightarrow> 3 | PanicLevel \<Rightarrow> 4 | FatalLevel \<Rightarrow> 5)"

lemma zlevel_code_inj: "zlevel_code l = zlevel_code m \<longleftrightarrow> l = m"
  by (cases l; cases m; simp add: zlevel_code_def)

instantiation zlevel :: linorder
begin

definition less_eq_zlevel :: "zlevel \<Rightarrow> zlevel \<Rightarrow> bool" where
  "l \<le> m \<longleftrightarrow> zlevel_code l \<le> zlevel_code m"

definition less_zlevel :: "zlevel \<Rightarrow> zlevel \<Rightarrow> bool" where
  "l < m \<longleftrightarrow> zlevel_code l < zlevel_code m"

instance
  by standard (auto simp: less_eq_zlevel_def less_zlevel_def zlevel_code_inj [symmetric])

end

definition zlevel_String :: "zlevel \<Rightarrow> string" where
  "zlevel_String l =
     (case l of DebugLevel \<Rightarrow> ''debug'' | InfoLevel \<Rightarrow> ''info'' | WarnLevel \<Rightarrow> ''warn''
              | ErrorLevel \<Rightarrow> ''error'' | DPanicLevel \<Rightarrow> ''dpanic'' | PanicLevel \<Rightarrow> ''panic''
              | FatalLevel \<Rightarrow> ''fatal'')"

subsection \<open>zap loggers\<close>

text \<open>Encoder configuration: the function-valued fields hold the zap function they name.\<close>

datatype zap_fn =
    CapitalLevelEncoder
  | SecondsDurationEncoder
  | ShortCallerEncoder
  | FormatTimeEncoder string

record encoder_config =
  MessageKey :: string
  LevelKey :: string
  TimeKey :: string
  CallerKey :: string
  StacktraceKey :: string
  EncodeLevel :: zap_fn
  LineEnding :: string
  EncodeTime :: zap_fn
  EncodeDuration :: zap_fn
  EncodeCaller :: zap_fn

datatype zencoder = JSONEncoder encoder_config | ConsoleEncoder encoder_config

datatype zout = OutWriter config rolling_writer | OutStdout

record zcore =
  zc_encoder :: zencoder
  zc_out :: zout
  zc_level :: zlevel

record zlogger =
  zl_core :: "zcore list"
  zl_addCaller :: bool
  zl_addStack :: "zlevel option"
  zl_development :: bool

text \<open>
  A logger: the tee of cores \<open>zapcore.NewTee\<close> builds (an empty tee drops every entry),
  and the options \<open>AddCaller\<close>, \<open>AddStacktrace\<close> and \<open>Development\<close>, applied in order
  by \<open>zap.New\<close> and \<open>WithOptions\<close> (which returns a new logger).
\<close>

datatype zap_option = zap_AddCaller | zap_AddStacktrace zlevel | zap_Development

definition zap_apply_option :: "zap_option \<Rightarrow> zlogger \<Rightarrow> zlogger" where
  "zap_apply_option opt lg =
     (case opt of
        zap_AddCaller \<Rightarrow> lg\<lparr>zl_addCaller := True\<rparr>
      | zap_AddStacktrace l \<Rightarrow> lg\<lparr>zl_addStack := Some l\<rparr>
      | zap_Development \<Rightarrow> lg\<lparr>zl_development := True\<rparr>)"

definition zap_WithOptions :: "zlogger \<Rightarrow> zap_option list \<Rightarrow> zlogger" where
  "zap_WithOptions lg opts = fold zap_apply_option opts lg"

definition zap_New :: "zcore list \<Rightarrow> zap_option list \<Rightarrow> zlogger" where
  "zap_New cores opts =
     zap_WithOptions \<lparr>zl_core = cores, zl_addCaller = False, zl_addStack = None, zl_development = False\<rparr> opts"

text \<open>
  \<open>Logger.Check\<close> and \<open>CheckedEntry.Write\<close> for one call at a level: the cores the
  entry is written to, the entry, and what happens after the write.
\<close>

record zentry =
  ze_level :: zlevel
  ze_msg :: string
  ze_caller :: bool
  ze_stack :: bool

datatype zoutcome = ZReturn | ZPanic | ZExit

definition zap_log :: "zlogger \<Rightarrow> zlevel \<Rightarrow> string \<Rightarrow> (zcore list \<times> zentry) \<times> zoutcome" where
  "zap_log lg lvl msg =
     ((filter (\<lambda>c. zc_level c \<le> lvl) (zl_core lg),
       \<lparr>ze_level = lvl, ze_msg = msg, ze_caller = zl_addCaller lg,
        ze_stack = (case zl_addStack lg of None \<Rightarrow> False | Some l \<Rightarrow> l \<le> lvl)\<rparr>),
      (if lvl = PanicLevel then ZPanic
       else if lvl = FatalLevel then ZExit
       else if lvl = DPanicLevel \<and> zl_development lg then ZPanic
       else ZReturn))"

text \<open>
  \<open>Sugar\<close> copies the logger, a nil dereference on a nil one; \<open>Sync\<close> fails only when
  standard output, one of the cores' outputs, fails to sync.
\<close>

definition nil_deref :: go_error where
  "nil_deref = Panic ''runtime error: invalid memory address or nil pointer dereference''"

definition zap_Sugar :: "zlogger option \<Rightarrow> zlogger result" where
  "zap_Sugar l = (case l of None \<Rightarrow> Inl nil_deref | Some lg \<Rightarrow> Inr lg)"

definition zap_Sync :: "bool \<Rightarrow> zlogger \<Rightarrow> unit result" where
  "zap_Sync stdout_fails lg =
     (if stdout_fails \<and> list_ex (\<lambda>c. zc_out c = OutStdout) (zl_core lg) then Inl ErrInternal else Inr ())"

subsection \<open>The package\<close>

text \<open>
  The package's configuration (lines 16-33): the time layout, the encoder type, the two
  flags and the appenders, each a level name and a pointer to a writer configuration.
  \<open>proc\<close> is what the process supplies: host name, working directory, \<open>os.Args[0]\<close>,
  the clock and the directory listings.
\<close>

record appender =
  Level :: string
  Rolling :: "config option"

record logx_config =
  Format :: string
  Type :: string
  Stacktrace :: bool
  Development :: bool
  Appenders :: "appender list"

record proc =
  pr_host :: string
  pr_cwd :: path
  pr_arg0 :: string
  pr_now :: nat
  pr_listing :: "path \<Rightarrow> string list"

record logx_state =
  lx_logger :: "zlogger option"
  lx_fs :: fsys
  lx_stdout :: string

text \<open>
  The package variables (lines 37-52), initialised in order before \<open>Init\<close> can run,
  while \<open>logger\<close> is nil: the seven method values \<open>logger.Debug\<close>, ... capture the
  receiver, the seven \<open>logger.Sugar().Debugf\<close>, ... call \<open>Sugar\<close> first.
\<close>

datatype pkg_var = MethodValue | SugarMethodValue

definition logx_vars :: "pkg_var list" where
  "logx_vars = concat (replicate 7 [MethodValue, SugarMethodValue])"

fun init_vars :: "zlogger option \<Rightarrow> pkg_var list \<Rightarrow> zlogger option list result" where
  "init_vars l [] = Inr []"
| "init_vars l (MethodValue # vs) = sbind (init_vars l vs) (\<lambda>rs. Inr (l # rs))"
| "init_vars l (SugarMethodValue # vs) =
     sbind (zap_Sugar l) (\<lambda>s. sbind (init_vars l vs) (\<lambda>rs. Inr (Some s # rs)))"

definition logx_pkg_init :: "zlogger option list result" where
  "logx_pkg_init = init_vars None logx_vars"

text \<open>
  \<open>newEncoderConfig\<close> (lines 95-110), \<open>encoder\<close> (lines 113-123), \<open>logLevel\<close>
  (lines 126-144) and \<open>runner\<close> (lines 146-151), which computes the directory of the
  executable and returns the executable's path.
\<close>

definition newEncoderConfig :: "string \<Rightarrow> encoder_config" where
  "newEncoderConfig format =
     \<lparr>MessageKey = ''msg'', LevelKey = ''level'', TimeKey = ''ts'', CallerKey = ''file'',
      StacktraceKey = ''stacktrace'', EncodeLevel = CapitalLevelEncoder, LineEnding = [CHR 0x0A],
      EncodeTime = FormatTimeEncoder format, EncodeDuration = SecondsDurationEncoder,
      EncodeCaller = ShortCallerEncoder\<rparr>"

definition encoder :: "string \<Rightarrow> encoder_config \<Rightarrow> zencoder" where
  "encoder typ config =
     (let typ = go_trim_space (go_to_lower_utf8 typ)
      in if typ = ''json'' then JSONEncoder config
         else if typ = ''console'' then ConsoleEncoder config
         else JSONEncoder config)"

definition logLevel :: "string \<Rightarrow> zlevel" where
  "logLevel level =
     (let level = go_trim_space (go_to_lower_utf8 level)
      in if level = ''debug'' then DebugLevel
         else if level = ''info'' then InfoLevel
         else if level = ''warn'' then WarnLevel
         else if level = ''error'' then ErrorLevel
         else if level = ''panic'' then PanicLevel
         else if level = ''fatal'' then FatalLevel
         else InfoLevel)"

definition runner :: "string \<Rightarrow> path \<Rightarrow> string \<Rightarrow> string \<times> string" where
  "runner hostname cwd arg0 =
     (let path = go_filepath_abs cwd arg0;
          pwd = go_filepath_dir path
      in (hostname, path))"

text \<open>
  \<open>Init\<close> (lines 54-78): print the banner, build the encoder, then one core per
  appender: the writer \<open>NewWriterFromConfig\<close> returns, or standard output when it returns
  an error (a panic in it, or the nil dereference of an appender without configuration,
  ends \<open>Init\<close>); then the tee, \<open>AddCaller\<close>, \<open>AddStacktrace(ErrorLevel)\<close> when asked,
  and a development logger that is built and dropped.
\<close>

definition core_with_fs :: "fsys \<Rightarrow> zcore \<Rightarrow> zcore" where
  "core_with_fs fs c =
     (case zc_out c of OutWriter cf w \<Rightarrow> c\<lparr>zc_out := OutWriter cf (rw_with_fs fs w)\<rparr> | OutStdout \<Rightarrow> c)"

fun init_appenders ::
  "env \<Rightarrow> proc \<Rightarrow> zencoder \<Rightarrow> appender list \<Rightarrow> fsys \<Rightarrow> ((go_error + zcore list) \<times> fsys) option" where
  "init_appenders e p enc [] fs = Some (Inr [], fs)"
| "init_appenders e p enc (app # apps) fs =
     (case Rolling app of
        None \<Rightarrow> Some (Inl nil_deref, fs)
      | Some c \<Rightarrow>
          (case NewWriterFromConfig e c (pr_now p) (pr_listing p (LogPath c)) fs of
             None \<Rightarrow> None
           | Some (r, fs1) \<Rightarrow>
               (case r of
                  Inl (Panic msg) \<Rightarrow> Some (Inl (Panic msg), fs1)
                | _ \<Rightarrow>
                    (let writer = (case r of Inl _ \<Rightarrow> OutStdout | Inr w \<Rightarrow> OutWriter c w);
                         core = \<lparr>zc_encoder = enc, zc_out = writer, zc_level = logLevel (Level app)\<rparr>
                     in map_option (\<lambda>(rs, fs2). (map_sum id (\<lambda>cs. core # cs) rs, fs2))
                          (init_appenders e p enc apps fs1)))))"

definition Init :: "env \<Rightarrow> proc \<Rightarrow> logx_config \<Rightarrow> logx_state \<Rightarrow> (unit result \<times> logx_state) option" where
  "Init e p cfg st =
     (let (hostname, pwd) = runner (pr_host p) (pr_cwd p) (pr_arg0 p);
          out = lx_stdout st @ ''HostName: '' @ hostname @ '', Workerspace: '' @ pwd @ [CHR 0x0A];
          config = newEncoderConfig (Format cfg);
          enc = encoder (Type cfg) config
      in case init_appenders e p enc (Appenders cfg) (lx_fs st) of
           None \<Rightarrow> None
         | Some (Inl err, fs') \<Rightarrow> Some (Inl err, st\<lparr>lx_fs := fs', lx_stdout := out\<rparr>)
         | Some (Inr cores, fs') \<Rightarrow>
             (let logger = zap_New (map (core_with_fs fs') cores) [zap_AddCaller];
                  logger = (if Stacktrace cfg then zap_WithOptions logger [zap_AddStacktrace ErrorLevel] else logger);
                  discarded = (if Development cfg then zap_WithOptions logger [zap_Development] else logger)
              in Some (Inr (), st\<lparr>lx_logger := Some logger, lx_fs := fs', lx_stdout := out\<rparr>)))"

text \<open>
  \<open>GetLogger\<close> and \<open>GetSLogger\<close> (lines 80-86); \<open>Close\<close>, which logs through the
  logger, is in theory \<open>LogxWrite\<close>.
\<close>

definition GetLogger :: "logx_state \<Rightarrow> zlogger option" where
  "GetLogger st = lx_logger st"

definition GetSLogger :: "logx_state \<Rightarrow> zlogger result" where
  "GetSLogger st = zap_Sugar (lx_logger st)"

text \<open>
  Examples: a process started as \<open>bin/app\<close> in \<open>/srv\<close>; a configuration with an
  appender at \<open>" WARN"\<close> writing to \<open>/l/app.log\<close>, and one at \<open>"dpanic"\<close> whose
  rolling configuration lacks a file name, so that it falls back to standard output.
\<close>

definition demo_proc :: proc where
  "demo_proc = \<lparr>pr_host = ''web1'', pr_cwd = ''/srv'', pr_arg0 = ''bin/app'', pr_now = 0,
                pr_listing = (\<lambda>_. [''app.log.1'', ''app.log.2''])\<rparr>"

definition demo_logx_config :: logx_config where
  "demo_logx_config =
     \<lparr>Format = ''2006-01-02'', Type = '' Console '', Stacktrace = True, Development = True,
      Appenders = [\<lparr>Level = '' WARN'', Rolling = Some demo_writer_config\<rparr>,
                   \<lparr>Level = ''dpanic'', Rolling = Some (demo_writer_config\<lparr>FileName := []\<rparr>)\<rparr>]\<rparr>"

definition demo_logx_state :: logx_state where
  "demo_logx_state = \<lparr>lx_logger = None, lx_fs = demo_history_fs, lx_stdout = []\<rparr>"

subsection \<open>Facts about the operations\<close>

lemma zlevel_String_word:
  "zlevel_String l \<noteq> [] \<and> go_is_ascii (hd (zlevel_String l)) \<and> hd (zlevel_String l) \<notin> set go_ascii_spaces \<and>
   go_is_ascii (last (zlevel_String l)) \<and> last (zlevel_String l) \<notin> set go_ascii_spaces"
  by (cases l) (simp_all add: zlevel_String_def go_is_ascii_def go_ascii_spaces_def)

lemma core_with_fs_level [simp]: "zc_level (core_with_fs fs c) = zc_level c"
  by (simp add: core_with_fs_def split: zout.splits)

lemma init_appenders_levels:
  "init_appenders e p enc apps fs = Some (Inr cores, fs') \<Longrightarrow>
   map zc_level cores = map (\<lambda>a. logLevel (Level a)) apps"
proof (induction apps arbitrary: fs cores)
  case (Cons app apps)
  then show ?case
    by (auto simp: Let_def split: option.splits prod.splits sum.splits go_error.splits)
qed simp

lemma init_appenders_nil_panics:
  "init_appenders e p enc apps fs = Some (r, fs') \<Longrightarrow> \<exists>a \<in> set apps. Rolling a = None \<Longrightarrow>
   \<exists>msg. r = Inl (Panic msg)"
proof (induction apps arbitrary: fs r)
  case (Cons app apps)
  then show ?case
    by (cases "Rolling app")
       (auto simp: Let_def nil_deref_def split: option.splits prod.splits sum.splits go_error.splits)
qed simp

lemma zap_New_Init:
  "zl_core (zap_New cs [zap_AddCaller]) = cs" "zl_addCaller (zap_New cs [zap_AddCaller])"
  "zl_addStack (zap_New cs [zap_AddCaller]) = None" "\<not> zl_development (zap_New cs [zap_AddCaller])"
  "zap_WithOptions lg [zap_AddStacktrace l] = lg\<lparr>zl_addStack := Some l\<rparr>"
  by (simp_all add: zap_New_def zap_WithOptions_def zap_apply_option_def)

lemma Init_Inr:
  assumes "Init e p cfg st = Some (Inr (), st')"
  obtains cores fs' where
    "init_appenders e p (encoder (Type cfg) (newEncoderConfig (Format cfg))) (Appenders cfg) (lx_fs st) =
       Some (Inr cores, fs')"
    "st' = st\<lparr>lx_logger := Some (let lg = zap_New (map (core_with_fs fs') cores) [zap_AddCaller]
                                  in if Stacktrace cfg then zap_WithOptions lg [zap_AddStacktrace ErrorLevel] else lg),
              lx_fs := fs',
              lx_stdout := lx_stdout st @ ''HostName: '' @ pr_host p @ '', Workerspace: '' @
                           go_filepath_abs (pr_cwd p) (pr_arg0 p) @ [CHR 0x0A]\<rparr>"
  using assms by (auto simp: Init_def runner_def Let_def split: option.splits prod.splits sum.splits)

lemma demo_init_ok: "\<exists>st'. Init demo_env demo_proc demo_logx_config demo_logx_state = Some (Inr (), st')"
proof -
  have w: "WriterMode demo_writer_config = ''lock''"
    by (simp add: demo_writer_config_def NewDefaultConfig_def)
  show ?thesis
  using demo_writer_facts w
  by (simp add: Init_def demo_logx_config_def demo_logx_state_def demo_proc_def NewWriterFromConfig_def
                startup_trim_eq os_open_append_def demo_history_fs_def Let_def runner_def
                split: prod.splits)
qed

subsection \<open>Properties\<close>

text \<open>
  C20: \<open>logLevel\<close> reads back every level name zap prints, in any ASCII case and padded
  with ASCII white space, except \<open>"dpanic"\<close>, which it does not list and maps to
  \<open>InfoLevel\<close>.
\<close>

theorem logLevel_roundtrip:
  assumes ws: "\<forall>c \<in> set (ws @ ws'). c \<in> set go_ascii_spaces"
    and t: "map go_lower_char t = zlevel_String l"
  shows "logLevel (ws @ t @ ws') = (if l = DPanicLevel then InfoLevel else l)"
proof -
  have asc: "\<forall>c \<in> set (zlevel_String l). go_is_ascii c"
    by (cases l) (simp_all add: zlevel_String_def go_is_ascii_def)
  then have "\<forall>c \<in> set t. go_is_ascii c"
    using t by (metis go_lower_char_ascii imageI list.set_map)
  have sp: "map go_lower_char ws = ws" "map go_lower_char ws' = ws'"
    using ws go_ascii_spaces_ascii by (auto intro: map_idI)
  have "\<forall>c \<in> set (ws @ t @ ws'). go_is_ascii c"
    using ws go_ascii_spaces_ascii \<open>\<forall>c \<in> set t. go_is_ascii c\<close> by auto
  then have "go_to_lower_utf8 (ws @ t @ ws') = map go_lower_char (ws @ t @ ws')"
    by (rule go_to_lower_utf8_ascii)
  then have low: "go_to_lower_utf8 (ws @ t @ ws') = ws @ zlevel_String l @ ws'"
    by (simp only: map_append sp t)
  have trim: "go_trim_space (ws @ zlevel_String l @ ws') = zlevel_String l"
    using zlevel_String_word [of l] by (intro go_trim_space_pad [OF ws]) simp_all
  have "logLevel (ws @ t @ ws') =
          (if zlevel_String l = ''debug'' then DebugLevel
           else if zlevel_String l = ''info'' then InfoLevel
           else if zlevel_String l = ''warn'' then WarnLevel
           else if zlevel_String l = ''error'' then ErrorLevel
           else if zlevel_String l = ''panic'' then PanicLevel
           else if zlevel_String l = ''fatal'' then FatalLevel
           else InfoLevel)"
    unfolding logLevel_def low trim Let_def ..
  moreover have "(if zlevel_String l = ''debug'' then DebugLevel
           else if zlevel_String l = ''info'' then InfoLevel
           else if zlevel_String l = ''warn'' then WarnLevel
           else if zlevel_String l = ''error'' then ErrorLevel
           else if zlevel_String l = ''panic'' then PanicLevel
           else if zlevel_String l = ''fatal'' then FatalLevel
           else InfoLevel) = (if l = DPanicLevel then InfoLevel else l)"
    by (cases l) (simp_all add: zlevel_String_def)
  ultimately show ?thesis by (rule trans)
qed

text \<open>
  C5: after a successful \<open>Init\<close> the logger has one core per appender, in order; an entry
  logged at level \<open>lvl\<close> goes to exactly the appenders whose level string \<open>logLevel\<close>
  reads as at most \<open>lvl\<close>, carries the caller, carries a stack trace exactly when
  \<open>Stacktrace\<close> is set and \<open>lvl\<close> is at least \<open>ErrorLevel\<close>, and panics only at
  \<open>PanicLevel\<close>: the \<open>Development\<close> flag has no effect (\<open>Init\<close> discards the logger
  \<open>WithOptions(zap.Development())\<close> returns), so \<open>DPanic\<close> never panics. The banner
  printed names the executable's path, not its directory.
\<close>

theorem Init_routes_records:
  assumes "Init e p cfg st = Some (Inr (), st')"
  shows "\<exists>lg. lx_logger st' = Some lg \<and> length (zl_core lg) = length (Appenders cfg) \<and>
           lx_stdout st' = lx_stdout st @ ''HostName: '' @ pr_host p @ '', Workerspace: '' @
                           go_filepath_abs (pr_cwd p) (pr_arg0 p) @ [CHR 0x0A] \<and>
           (\<forall>lvl msg. zap_log lg lvl msg =
              ((map (\<lambda>i. zl_core lg ! i)
                  (filter (\<lambda>i. logLevel (Level (Appenders cfg ! i)) \<le> lvl) [0..<length (Appenders cfg)]),
                \<lparr>ze_level = lvl, ze_msg = msg, ze_caller = True,
                 ze_stack = (Stacktrace cfg \<and> ErrorLevel \<le> lvl)\<rparr>),
               (if lvl = PanicLevel then ZPanic else if lvl = FatalLevel then ZExit else ZReturn)))"
proof -
  obtain cores fs' where ia:
    "init_appenders e p (encoder (Type cfg) (newEncoderConfig (Format cfg))) (Appenders cfg) (lx_fs st) =
       Some (Inr cores, fs')"
    and st': "st' = st\<lparr>lx_logger := Some (let lg = zap_New (map (core_with_fs fs') cores) [zap_AddCaller]
                                  in if Stacktrace cfg then zap_WithOptions lg [zap_AddStacktrace ErrorLevel] else lg),
              lx_fs := fs',
              lx_stdout := lx_stdout st @ ''HostName: '' @ pr_host p @ '', Workerspace: '' @
                           go_filepath_abs (pr_cwd p) (pr_arg0 p) @ [CHR 0x0A]\<rparr>"
    using assms by (rule Init_Inr)
  define lg where "lg = (let lg = zap_New (map (core_with_fs fs') cores) [zap_AddCaller]
                         in if Stacktrace cfg then zap_WithOptions lg [zap_AddStacktrace ErrorLevel] else lg)"
  have lv: "map zc_level (zl_core lg) = map (\<lambda>a. logLevel (Level a)) (Appenders cfg)"
    using init_appenders_levels [OF ia] by (simp add: lg_def zap_New_Init comp_def Let_def)
  then have len: "length (zl_core lg) = length (Appenders cfg)" by (metis length_map)
  have flags: "zl_addCaller lg" "\<not> zl_development lg"
    "zl_addStack lg = (if Stacktrace cfg then Some ErrorLevel else None)"
    by (simp_all add: lg_def zap_New_Init Let_def)
  have sel: "filter (\<lambda>c. zc_level c \<le> lvl) (zl_core lg) =
             map (\<lambda>i. zl_core lg ! i)
               (filter (\<lambda>i. logLevel (Level (Appenders cfg ! i)) \<le> lvl) [0..<length (Appenders cfg)])" for lvl
  proof -
    have "filter (\<lambda>i. zc_level (zl_core lg ! i) \<le> lvl) [0..<length (zl_core lg)] =
          filter (\<lambda>i. logLevel (Level (Appenders cfg ! i)) \<le> lvl) [0..<length (Appenders cfg)]"
      using nth_of_map_eq [OF lv] len by (intro filter_cong) auto
    then show ?thesis by (subst filter_conv_nth) simp
  qed
  show ?thesis
    using len flags sel st' by (auto simp: lg_def [symmetric] zap_log_def)
qed

text \<open>
  C19: an appender without a \<open>rolling\<close> section (a nil \<open>*Config\<close>) makes \<open>Init\<close> panic
  instead of falling back to standard output: \<open>NewWriterFromConfig\<close> dereferences its
  argument. The package logger stays unset.
\<close>

theorem Init_nil_rolling_panics:
  assumes "Init e p cfg st = Some (r, st')" and "\<exists>a \<in> set (Appenders cfg). Rolling a = None"
  shows "(\<exists>msg. r = Inl (Panic msg)) \<and> lx_logger st' = lx_logger st"
proof -
  obtain res fs' where ia:
    "init_appenders e p (encoder (Type cfg) (newEncoderConfig (Format cfg))) (Appenders cfg) (lx_fs st) =
       Some (res, fs')"
    using assms(1) by (auto simp: Init_def Let_def split: option.splits prod.splits)
  obtain msg where "res = Inl (Panic msg)" using init_appenders_nil_panics [OF ia assms(2)] by blast
  then show ?thesis using assms(1) ia by (auto simp: Init_def Let_def split: prod.splits)
qed

text \<open>
  Initialising the package panics: the variable \<open>Debugf\<close> is initialised with
  \<open>logger.Sugar()\<close> while \<open>logger\<close> is still nil, and \<open>Sugar\<close> dereferences it. (Had it
  not, the method values \<open>Debug\<close>, \<open>Info\<close>, ... would stay bound to the nil logger that
  \<open>Init\<close> never replaces in them.)
\<close>

theorem logx_pkg_init_panics: "logx_pkg_init = Inl nil_deref"
  by (simp add: logx_pkg_init_def logx_vars_def zap_Sugar_def numeral_eq_Suc)

subsection \<open>Witnesses\<close>

theorem logLevel_roundtrip_witness: "logLevel ('' '' @ ''DPanic'' @ [CHR 0x09]) = InfoLevel"
proof -
  have "char_of (100::nat) = CHR ''d''" "char_of (112::nat) = CHR ''p''"
    using char_of_char [of "CHR ''d''"] char_of_char [of "CHR ''p''"] by simp_all
  then have "\<forall>c \<in> set ('' '' @ [CHR 0x09]). c \<in> set go_ascii_spaces"
    "map go_lower_char ''DPanic'' = zlevel_String DPanicLevel"
    by (simp_all add: go_ascii_spaces_def go_lower_char_def zlevel_String_def)
  then show ?thesis using logLevel_roundtrip [of "'' ''" "[CHR 0x09]" "''DPanic''" DPanicLevel] by simp
qed

theorem Init_routes_records_witness:
  "\<exists>st' lg. Init demo_env demo_proc demo_logx_config demo_logx_state = Some (Inr (), st') \<and>
     lx_logger st' = Some lg \<and> length (zl_core lg) = 2 \<and>
     lx_stdout st' = ''HostName: web1, Workerspace: /srv/bin/app'' @ [CHR 0x0A] \<and>
     snd (zap_log lg DPanicLevel ''m'') = ZReturn \<and> ze_stack (snd (fst (zap_log lg ErrorLevel ''m'')))"
proof -
  obtain st' where i: "Init demo_env demo_proc demo_logx_config demo_logx_state = Some (Inr (), st')"
    using demo_init_ok by blast
  have a: "go_filepath_abs ''/srv'' ''bin/app'' = ''/srv/bin/app''"
    by (simp add: go_filepath_abs_def go_path_join_def go_clean_def clean_step_def)
  obtain lg where l: "lx_logger st' = Some lg" "length (zl_core lg) = length (Appenders demo_logx_config)"
    "lx_stdout st' = lx_stdout demo_logx_state @ ''HostName: '' @ pr_host demo_proc @ '', Workerspace: '' @
                      go_filepath_abs (pr_cwd demo_proc) (pr_arg0 demo_proc) @ [CHR 0x0A]"
    and log: "\<forall>lvl msg. zap_log lg lvl msg =
              ((map (\<lambda>i. zl_core lg ! i)
                  (filter (\<lambda>i. logLevel (Level (Appenders demo_logx_config ! i)) \<le> lvl)
                     [0..<length (Appenders demo_logx_config)]),
                \<lparr>ze_level = lvl, ze_msg = msg, ze_caller = True,
                 ze_stack = (Stacktrace demo_logx_config \<and> ErrorLevel \<le> lvl)\<rparr>),
               (if lvl = PanicLevel then ZPanic else if lvl = FatalLevel then ZExit else ZReturn))"
    using Init_routes_records [OF i] by blast
  have "snd (zap_log lg DPanicLevel ''m'') = ZReturn" "ze_stack (snd (fst (zap_log lg ErrorLevel ''m'')))"
    using log by (simp_all add: demo_logx_config_def)
  moreover have "length (zl_core lg) = 2" "lx_stdout st' = ''HostName: web1, Workerspace: /srv/bin/app'' @ [CHR 0x0A]"
    using l a by (simp_all add: demo_logx_config_def demo_logx_state_def demo_proc_def)
  ultimately show ?thesis using i l(1) by blast
qed

theorem Init_nil_rolling_panics_witness:
  "\<exists>r st'. Init demo_env demo_proc (demo_logx_config\<lparr>Appenders := [\<lparr>Level = ''info'', Rolling = None\<rparr>]\<rparr>)
              demo_logx_state = Some (r, st') \<and> (\<exists>msg. r = Inl (Panic msg)) \<and> lx_logger st' = None"
proof -
  obtain r st' where i: "Init demo_env demo_proc (demo_logx_config\<lparr>Appenders := [\<lparr>Level = ''info'', Rolling = None\<rparr>]\<rparr>)
              demo_logx_state = Some (r, st')"
    by (simp add: Init_def Let_def runner_def split: prod.splits)
  have "\<exists>a \<in> set (Appenders (demo_logx_config\<lparr>Appenders := [\<lparr>Level = ''info'', Rolling = None\<rparr>]\<rparr>)). Rolling a = None"
    by simp
  then show ?thesis using Init_nil_rolling_panics [OF i] i by (auto simp: demo_logx_state_def)
qed

end
