(* ===== verification/LogxWrite.thy ===== *)
theory LogxWrite
  imports Logx
begin

text \<open>
  Logging through the front end: a call such as \<open>logx.GetLogger().Info(msg)\<close> checks
  the level, encodes the entry with each enabled core's encoder and writes the bytes to the
  core's output (zap's \<open>ioCore.Write\<close>), which for a rolling writer is the
  \<open>RollingWriter\<close> interface's \<open>Write\<close> (src/unnamed/part_001 lines 35-38) dispatched to
  the variant \<open>NewWriterFromConfig\<close> built; then \<open>logx.Close\<close> (src/logx.go lines 88-92).
  The encoders' output format is a parameter. All writers share the package's file system:
  before a writer runs, its sink is given the current one, and the file system it leaves is
  the package's again. A write error is reported by zap on its error output and otherwise
  ignored, as here.
\<close>

text \<open>\<open>[]byte(s)\<close>: the bytes of a string.\<close>

definition string_bytes :: "string \<Rightarrow> bytes" where
  "string_bytes s = map (\<lambda>c. of_nat (of_char c)) s"

text \<open>
  \<open>AsynchronousWriter.Write\<close> run by one caller: the caller takes its first allowed
  step; when it has none (the queue is full), the consumer goroutine takes one, as the
  scheduler may let it. \<open>None\<close>: the call never returns (for instance the chunk loop
  that makes no progress, see \<open>async_write_livelock\<close>).
\<close>

partial_function (option) aw_write_run :: "awriter \<Rightarrow> aw_pc \<Rightarrow> (nat result \<times> awriter) option" where
  "aw_write_run w pc =
     (case pc of
        ARet r \<Rightarrow> Some (r, w)
      | _ \<Rightarrow>
          (case aw_write_next w pc of
             (w', pc') # _ \<Rightarrow> aw_write_run w' pc'
           | [] \<Rightarrow> (case cons_next w of w' # _ \<Rightarrow> aw_write_run w' pc | [] \<Rightarrow> None)))"

text \<open>The \<open>Write\<close> method of the \<open>RollingWriter\<close> interface, by variant.\<close>

definition rw_Write :: "config \<Rightarrow> bytes \<Rightarrow> rolling_writer \<Rightarrow> (nat result \<times> rolling_writer) option" where
  "rw_Write c b rw =
     (case rw of
        RWNone sk \<Rightarrow> Some (map_prod id RWNone (check_and_write b sk))
      | RWLock sk \<Rightarrow> Some (map_prod id RWLock (check_and_write b sk))
      | RWAsync w \<Rightarrow> map_option (map_prod id RWAsync) (aw_write_run w (AStart b))
      | RWBuffer w \<Rightarrow> Some (map_prod id RWBuffer (BufferWriter_Write c b w)))"

text \<open>
  \<open>CheckedEntry.Write\<close>: every core, in order, that is enabled at the level encodes the
  entry and writes it to its output; standard output is the package's printed text.
\<close>

fun cores_write ::
  "(zencoder \<Rightarrow> zentry \<Rightarrow> string) \<Rightarrow> zlevel \<Rightarrow> zentry \<Rightarrow> zcore list \<Rightarrow> fsys \<Rightarrow> string \<Rightarrow>
   (zcore list \<times> fsys \<times> string) option" where
  "cores_write enc lvl ent [] fs out = Some ([], fs, out)"
| "cores_write enc lvl ent (c # cs) fs out =
     (if \<not> zc_level c \<le> lvl then
        map_option (\<lambda>(cs', r). (c # cs', r)) (cores_write enc lvl ent cs fs out)
      else
        (let s = enc (zc_encoder c) ent
         in case zc_out c of
              OutStdout \<Rightarrow> map_option (\<lambda>(cs', r). (c # cs', r)) (cores_write enc lvl ent cs fs (out @ s))
            | OutWriter cf w \<Rightarrow>
                (case rw_Write cf (string_bytes s) (rw_with_fs fs w) of
                   None \<Rightarrow> None
                 | Some (_, w') \<Rightarrow>
                     map_option (\<lambda>(cs', r). (c\<lparr>zc_out := OutWriter cf w'\<rparr> # cs', r))
                       (cores_write enc lvl ent cs (sk_fs (rw_sink w')) out))))"

text \<open>
  A logging call at a level on the logger \<open>GetLogger\<close> returns (\<open>(*Logger).Check\<close>
  dereferences it, so a nil logger panics): the writes, then the logger's outcome.
\<close>

definition Logger_Log ::
  "(zencoder \<Rightarrow> zentry \<Rightarrow> string) \<Rightarrow> zlevel \<Rightarrow> string \<Rightarrow> logx_state \<Rightarrow> (zoutcome result \<times> logx_state) option" where
  "Logger_Log enc lvl msg st =
     (case lx_logger st of
        None \<Rightarrow> Some (Inl nil_deref, st)
      | Some lg \<Rightarrow>
          (case zap_log lg lvl msg of
             ((_, ent), oc) \<Rightarrow>
               (case cores_write enc lvl ent (zl_core lg) (lx_fs st) (lx_stdout st) of
                  None \<Rightarrow> None
                | Some (cs', fs', out') \<Rightarrow>
                    Some (Inr oc, st\<lparr>lx_logger := Some (lg\<lparr>zl_core := cs'\<rparr>), lx_fs := fs', lx_stdout := out'\<rparr>))))"

text \<open>
  \<open>logx.Close\<close>: \<open>logger.Sync()\<close>, and on an error a logged \<open>"closed err"\<close> entry.
  No writer's \<open>Close\<close> is called.
\<close>

definition Close :: "(zencoder \<Rightarrow> zentry \<Rightarrow> string) \<Rightarrow> bool \<Rightarrow> logx_state \<Rightarrow> (unit result \<times> logx_state) option" where
  "Close enc stdout_fails st =
     (case lx_logger st of
        None \<Rightarrow> Some (Inl nil_deref, st)
      | Some lg \<Rightarrow>
          (case zap_Sync stdout_fails lg of
             Inl err \<Rightarrow> map_option (\<lambda>(_, st'). (Inr (), st')) (Logger_Log enc ErrorLevel ''closed err'' st)
           | Inr _ \<Rightarrow> Some (Inr (), st)))"

text \<open>
  Examples: an encoder that writes the message alone, and a logger with one core at
  \<open>InfoLevel\<close> over a given writer.
\<close>

definition demo_msg_encoder :: "zencoder \<Rightarrow> zentry \<Rightarrow> string" where
  "demo_msg_encoder enc ent = ze_msg ent"

definition demo_core :: "rolling_writer \<Rightarrow> config \<Rightarrow> zcore" where
  "demo_core w c = \<lparr>zc_encoder = JSONEncoder (newEncoderConfig ''2006''), zc_out = OutWriter c w, zc_level = InfoLevel\<rparr>"

definition demo_logger_state :: "rolling_writer \<Rightarrow> config \<Rightarrow> logx_state" where
  "demo_logger_state w c =
     \<lparr>lx_logger = Some \<lparr>zl_core = [demo_core w c], zl_addCaller = True, zl_addStack = None, zl_development = False\<rparr>,
      lx_fs = sk_fs (rw_sink w), lx_stdout = []\<rparr>"

subsection \<open>Facts about the operations\<close>

lemma string_bytes_hi: "string_bytes ''hi'' = [104, 105]"
  by (simp add: string_bytes_def)

lemma cores_write_single:
  assumes "zc_level c0 \<le> lvl" and "zc_out c0 = OutWriter cf w"
    and "rw_Write cf (string_bytes (enc (zc_encoder c0) ent)) (rw_with_fs fs w) = Some (r, w')"
  shows "cores_write enc lvl ent [c0] fs out = Some ([c0\<lparr>zc_out := OutWriter cf w'\<rparr>], sk_fs (rw_sink w'), out)"
  using assms by (simp add: Let_def)

lemma check_and_write_log:
  assumes "seg_inv st hist" and "fresh_pending st"
  shows "\<exists>st'. check_and_write b st = (Inr (length b), st') \<and>
               seg_inv st' (rotated_next st hist) \<and> log_of st' (rotated_next st hist) = log_of st hist @ b"
proof -
  obtain st1 where p: "poll_fire st = (Inr (), st1)" and s1: "seg_inv st1 (rotated_next st hist)"
    and l1: "log_of st1 (rotated_next st hist) = log_of st hist"
    using poll_fire_refines [OF assms] by blast
  obtain st' where "file_write b st1 = (Inr (length b), st')" "seg_inv st' (rotated_next st hist)"
    "log_of st' (rotated_next st hist) = log_of st1 (rotated_next st hist) @ b"
    using file_write_log [OF s1] by blast
  then show ?thesis using p l1 by (simp add: check_and_write_def)
qed

lemma zap_Sync_no_stdout:
  "\<forall>c \<in> set (zl_core lg). zc_out c \<noteq> OutStdout \<Longrightarrow> zap_Sync sf lg = Inr ()"
  by (auto simp: zap_Sync_def list_ex_iff)

lemma BufferWriter_Write_fits:
  assumes "poll_fire (bw_sink w) = (Inr (), sk)" and "int (length (bw_buf w @ b)) \<le> BufferWriterThreshold c"
  shows "BufferWriter_Write c b w = (Inr (length b), w\<lparr>bw_sink := sk, bw_buf := bw_buf w @ b\<rparr>)"
  using assms by (simp add: BufferWriter_Write_def Let_def)

subsection \<open>Properties\<close>

text \<open>
  The front end and a \<open>LockedWriter\<close> compose into an append-only log: with one
  appender whose writer satisfies the segment invariant over the package's file system and
  whose pending rotation (if any) goes to a fresh name, a call at an enabled level returns
  the logger's outcome, keeps the invariant, and the files (history in rotation order, then
  the active file) hold the old log followed by exactly the encoded entry.
\<close>

theorem Logger_Log_refines_log:
  assumes lg: "lx_logger st = Some lg" and one: "zl_core lg = [c0]"
    and out: "zc_out c0 = OutWriter cf (RWLock sk)" and en: "zc_level c0 \<le> lvl"
    and inv: "seg_inv (sk\<lparr>sk_fs := lx_fs st\<rparr>) hist" and fp: "fresh_pending (sk\<lparr>sk_fs := lx_fs st\<rparr>)"
  shows "\<exists>sk'. Logger_Log enc lvl msg st =
                 Some (Inr (snd (zap_log lg lvl msg)),
                       st\<lparr>lx_logger := Some (lg\<lparr>zl_core := [c0\<lparr>zc_out := OutWriter cf (RWLock sk')\<rparr>]\<rparr>),
                          lx_fs := sk_fs sk'\<rparr>) \<and>
               seg_inv sk' (rotated_next (sk\<lparr>sk_fs := lx_fs st\<rparr>) hist) \<and>
               log_of sk' (rotated_next (sk\<lparr>sk_fs := lx_fs st\<rparr>) hist) =
                 log_of (sk\<lparr>sk_fs := lx_fs st\<rparr>) hist @
                 string_bytes (enc (zc_encoder c0) (snd (fst (zap_log lg lvl msg))))"
proof -
  obtain cs ent oc where z: "zap_log lg lvl msg = ((cs, ent), oc)" by (metis prod.collapse)
  let ?sk0 = "sk\<lparr>sk_fs := lx_fs st\<rparr>" and ?b = "string_bytes (enc (zc_encoder c0) ent)"
  obtain sk' where cw: "check_and_write ?b ?sk0 = (Inr (length ?b), sk')"
    and s: "seg_inv sk' (rotated_next ?sk0 hist)" and l: "log_of sk' (rotated_next ?sk0 hist) = log_of ?sk0 hist @ ?b"
    using check_and_write_log [OF inv fp] by blast
  have "rw_Write cf ?b (rw_with_fs (lx_fs st) (RWLock sk)) = Some (Inr (length ?b), RWLock sk')"
    using cw by (simp add: rw_Write_def rw_with_fs_lock)
  then have "cores_write enc lvl ent [c0] (lx_fs st) (lx_stdout st) =
               Some ([c0\<lparr>zc_out := OutWriter cf (RWLock sk')\<rparr>], sk_fs sk', lx_stdout st)"
    using cores_write_single [OF en out] by (simp add: rw_sink_def)
  then show ?thesis
    using lg one s l z by (intro exI [of _ sk']) (simp add: Logger_Log_def del: cores_write.simps)
qed

text \<open>
  C6: \<open>logx.Close\<close> does not flush a \<open>BufferWriter\<close>: with one buffered appender,
  an entry that fits in the buffer is logged, and after \<open>Close\<close> the files hold what they
  held before the call while the entry's bytes are still only in the writer's buffer, so
  they are lost when the process exits.
\<close>

theorem Close_keeps_buffered_entry:
  assumes lg: "lx_logger st = Some lg" and one: "zl_core lg = [c0]"
    and out: "zc_out c0 = OutWriter cf (RWBuffer w)" and en: "zc_level c0 \<le> lvl"
    and inv: "seg_inv ((bw_sink w)\<lparr>sk_fs := lx_fs st\<rparr>) hist" and fp: "fresh_pending ((bw_sink w)\<lparr>sk_fs := lx_fs st\<rparr>)"
    and fits: "int (length (bw_buf w @ string_bytes (enc (zc_encoder c0) (snd (fst (zap_log lg lvl msg)))))) \<le>
               BufferWriterThreshold cf"
  shows "\<exists>st1 st2 w'. Logger_Log enc lvl msg st = Some (Inr (snd (zap_log lg lvl msg)), st1) \<and>
           Close enc sf st1 = Some (Inr (), st2) \<and>
           lx_logger st2 = Some (lg\<lparr>zl_core := [c0\<lparr>zc_out := OutWriter cf (RWBuffer w')\<rparr>]\<rparr>) \<and>
           sk_fs (bw_sink w') = lx_fs st2 \<and>
           log_of (bw_sink w') (rotated_next ((bw_sink w)\<lparr>sk_fs := lx_fs st\<rparr>) hist) =
             log_of ((bw_sink w)\<lparr>sk_fs := lx_fs st\<rparr>) hist \<and>
           bw_buf w' = bw_buf w @ string_bytes (enc (zc_encoder c0) (snd (fst (zap_log lg lvl msg))))"
proof -
  obtain cs ent oc where z: "zap_log lg lvl msg = ((cs, ent), oc)" by (metis prod.collapse)
  let ?sk0 = "(bw_sink w)\<lparr>sk_fs := lx_fs st\<rparr>" and ?b = "string_bytes (enc (zc_encoder c0) ent)"
  let ?w0 = "w\<lparr>bw_sink := ?sk0\<rparr>"
  obtain sk1 where p: "poll_fire ?sk0 = (Inr (), sk1)" and l1: "log_of sk1 (rotated_next ?sk0 hist) = log_of ?sk0 hist"
    using poll_fire_refines [OF inv fp] by blast
  define w' where "w' = ?w0\<lparr>bw_sink := sk1, bw_buf := bw_buf w @ ?b\<rparr>"
  have "BufferWriter_Write cf ?b ?w0 = (Inr (length ?b), w')"
    using BufferWriter_Write_fits [of ?w0 sk1 ?b cf] p fits z by (simp add: w'_def)
  then have "rw_Write cf ?b (rw_with_fs (lx_fs st) (RWBuffer w)) = Some (Inr (length ?b), RWBuffer w')"
    by (simp add: rw_Write_def rw_with_fs_def)
  then have cw: "cores_write enc lvl ent [c0] (lx_fs st) (lx_stdout st) =
               Some ([c0\<lparr>zc_out := OutWriter cf (RWBuffer w')\<rparr>], sk_fs sk1, lx_stdout st)"
    using cores_write_single [OF en out] by (simp add: rw_sink_def w'_def)
  define st1 where "st1 = st\<lparr>lx_logger := Some (lg\<lparr>zl_core := [c0\<lparr>zc_out := OutWriter cf (RWBuffer w')\<rparr>]\<rparr>),
                             lx_fs := sk_fs sk1\<rparr>"
  have log: "Logger_Log enc lvl msg st = Some (Inr oc, st1)"
    using lg one cw z by (simp add: Logger_Log_def st1_def del: cores_write.simps)
  have "Close enc sf st1 = Some (Inr (), st1)"
    by (simp add: Close_def st1_def zap_Sync_no_stdout)
  then show ?thesis
    using log l1 z by (auto simp: st1_def w'_def)
qed

subsection \<open>Witnesses\<close>

theorem Logger_Log_refines_log_witness:
  "\<exists>st' sk'. Logger_Log demo_msg_encoder WarnLevel ''hi'' (demo_logger_state (RWLock demo_sink) NewDefaultConfig) =
              Some (Inr ZReturn, st') \<and> lx_fs st' = sk_fs sk' \<and>
              log_of sk' [''/l/app-1.log''] = [72, 105, 104, 105]"
proof -
  let ?st = "demo_logger_state (RWLock demo_sink) NewDefaultConfig"
  let ?lg = "\<lparr>zl_core = [demo_core (RWLock demo_sink) NewDefaultConfig], zl_addCaller = True, zl_addStack = None,
              zl_development = False\<rparr>"
  have a: "lx_logger ?st = Some ?lg" "zl_core ?lg = [demo_core (RWLock demo_sink) NewDefaultConfig]"
    "zc_out (demo_core (RWLock demo_sink) NewDefaultConfig) = OutWriter NewDefaultConfig (RWLock demo_sink)"
    "zc_level (demo_core (RWLock demo_sink) NewDefaultConfig) \<le> WarnLevel"
    by (simp_all add: demo_logger_state_def demo_core_def less_eq_zlevel_def zlevel_code_def)
  have e: "demo_sink\<lparr>sk_fs := lx_fs ?st\<rparr> = demo_sink" by (simp add: demo_logger_state_def rw_sink_def)
  have i: "seg_inv (demo_sink\<lparr>sk_fs := lx_fs ?st\<rparr>) []" "fresh_pending (demo_sink\<lparr>sk_fs := lx_fs ?st\<rparr>)"
    unfolding e by (simp_all add: demo_sink_def seg_inv_def writer_inv_def fs_wf_def fresh_pending_def fire_recv_def)
  have r: "rotated_next demo_sink [] = [''/l/app-1.log'']" "log_of demo_sink [] = [72, 105]"
    by (simp_all add: rotated_next_def demo_sink_def fire_recv_def log_of_def file_bytes_def file_at_def)
  have z: "snd (zap_log ?lg WarnLevel ''hi'') = ZReturn"
    "string_bytes (demo_msg_encoder (zc_encoder (demo_core (RWLock demo_sink) NewDefaultConfig))
                     (snd (fst (zap_log ?lg WarnLevel ''hi'')))) = [104, 105]"
    by (simp_all add: zap_log_def demo_msg_encoder_def string_bytes_hi)
  show ?thesis
    using Logger_Log_refines_log [OF a i, of demo_msg_encoder "''hi''"] r z unfolding e by auto
qed

theorem Close_keeps_buffered_entry_witness:
  "\<exists>st1 st2 w'. Logger_Log demo_msg_encoder WarnLevel ''hi'' (demo_logger_state (RWBuffer demo_bw) demo_buffer_config) =
                   Some (Inr ZReturn, st1) \<and>
                 Close demo_msg_encoder False st1 = Some (Inr (), st2) \<and>
                 lx_logger st2 = Some \<lparr>zl_core = [demo_core (RWBuffer w') demo_buffer_config], zl_addCaller = True,
                                       zl_addStack = None, zl_development = False\<rparr> \<and>
                 log_of (bw_sink w') [] = [72, 105] \<and> bw_buf w' = [104, 105]"
proof -
  let ?st = "demo_logger_state (RWBuffer demo_bw) demo_buffer_config"
  let ?c = "demo_core (RWBuffer demo_bw) demo_buffer_config"
  let ?lg = "\<lparr>zl_core = [?c], zl_addCaller = True, zl_addStack = None, zl_development = False\<rparr>"
  have a: "lx_logger ?st = Some ?lg" "zl_core ?lg = [?c]" "zc_out ?c = OutWriter demo_buffer_config (RWBuffer demo_bw)"
    "zc_level ?c \<le> WarnLevel"
    by (simp_all add: demo_logger_state_def demo_core_def less_eq_zlevel_def zlevel_code_def)
  have e: "(bw_sink demo_bw)\<lparr>sk_fs := lx_fs ?st\<rparr> = bw_sink demo_bw" by (simp add: demo_logger_state_def rw_sink_def)
  have i: "seg_inv ((bw_sink demo_bw)\<lparr>sk_fs := lx_fs ?st\<rparr>) []" "fresh_pending ((bw_sink demo_bw)\<lparr>sk_fs := lx_fs ?st\<rparr>)"
    unfolding e
    by (simp_all add: demo_bw_def demo_sink_def seg_inv_def writer_inv_def fs_wf_def fresh_pending_def fire_recv_def)
  have z: "snd (zap_log ?lg WarnLevel ''hi'') = ZReturn"
    "string_bytes (demo_msg_encoder (zc_encoder ?c) (snd (fst (zap_log ?lg WarnLevel ''hi'')))) = [104, 105]"
    by (simp_all add: zap_log_def demo_msg_encoder_def string_bytes_hi)
  have f: "int (length (bw_buf demo_bw @ [104, 105])) \<le> BufferWriterThreshold demo_buffer_config"
    by (simp add: demo_bw_def demo_buffer_config_def option_defs NewDefaultConfig_def)
  have r: "rotated_next (bw_sink demo_bw) [] = []" "log_of (bw_sink demo_bw) [] = [72, 105]" "bw_buf demo_bw = []"
    by (simp_all add: rotated_next_def demo_bw_def demo_sink_def fire_recv_def log_of_def file_bytes_def file_at_def)
  show ?thesis
    using Close_keeps_buffered_entry [OF a i, of demo_msg_encoder "''hi''" False] f r z unfolding e
    by (auto simp: demo_core_def)
qed

end
