(* ===== verification/UnlockedWriter.thy ===== *)
theory UnlockedWriter
  imports WriterCore
begin

text \<open>
  The writer of \<open>WriterMode "none"\<close>: \<open>Writer.Write\<close> without the mutex
  (src/rollingwriter/writer.go lines 293-307) and the \<open>Reopen\<close> it calls (lines 248-291),
  split into the steps that other goroutines can interleave: the non-blocking receive on
  \<open>fire\<close>, the rename, the open of the fresh file, the \<open>atomic.SwapPointer\<close> that installs
  it and starts the background goroutine, the \<open>atomic.LoadPointer\<close> of the current file,
  and the write. Several callers run with the background goroutines (\<open>run_task\<close>) and
  the manager's triggers under a schedule.
\<close>

text \<open>
  The program counter of a caller: before the \<open>select\<close>; before the rename, the open
  and the swap of a rotation to a name; before the load of \<open>w.file\<close>; before the write to the
  handle it loaded; returned.
\<close>

datatype uw_pc =
    UStart bytes
  | URename bytes path
  | UOpen bytes path
  | USwap bytes path nat
  | ULoad bytes
  | UWrite bytes nat
  | URet "nat result"

definition uw_step :: "uw_pc \<Rightarrow> sink \<Rightarrow> (uw_pc \<times> sink) option" where
  "uw_step pc st =
     (case pc of
        UStart b \<Rightarrow>
          (case fire_recv (sk_mgr st) of
             None \<Rightarrow> Some (ULoad b, st)
           | Some (n, m') \<Rightarrow> Some (URename b n, st\<lparr>sk_mgr := m'\<rparr>))
      | URename b n \<Rightarrow>
          (case os_rename (sk_fs st) (w_absPath (sk_w st)) n of
             Inl err \<Rightarrow> Some (URet (Inl err), st)
           | Inr fs' \<Rightarrow> Some (UOpen b n, st\<lparr>sk_fs := fs'\<rparr>))
      | UOpen b n \<Rightarrow>
          (case os_open_append (sk_fs st) (w_absPath (sk_w st)) of
             Inl err \<Rightarrow> Some (URet (Inl err), st)
           | Inr (fd, fs') \<Rightarrow> Some (USwap b n fd, st\<lparr>sk_fs := fs'\<rparr>))
      | USwap b n fd \<Rightarrow>
          Some (ULoad b, st\<lparr>sk_w := (sk_w st)\<lparr>w_file := fd\<rparr>, sk_tasks := sk_tasks st @ [(w_file (sk_w st), n)]\<rparr>)
      | ULoad b \<Rightarrow> Some (UWrite b (w_file (sk_w st)), st)
      | UWrite b h \<Rightarrow>
          (case os_write (sk_fs st) h b of
             Inl err \<Rightarrow> Some (URet (Inl err), st)
           | Inr (k, fs') \<Rightarrow> Some (URet (Inr k), st\<lparr>sk_fs := fs'\<rparr>))
      | URet _ \<Rightarrow> None)"

text \<open>
  A schedule: a caller taking its step, a pending background goroutine running to its end,
  or a trigger of the manager sending a name on \<open>fire\<close>.
\<close>

record uw_conc =
  ux_sk :: sink
  ux_th :: "uw_pc list"

datatype uw_actor = UTh nat | UTask nat | UTrigger path

definition uw_tick :: "env \<Rightarrow> config \<Rightarrow> uw_actor \<Rightarrow> uw_conc \<Rightarrow> uw_conc option" where
  "uw_tick e c a s =
     (case a of
        UTh i \<Rightarrow>
          (if i < length (ux_th s) then
             map_option (\<lambda>(pc', st'). \<lparr>ux_sk = st', ux_th = (ux_th s)[i := pc']\<rparr>) (uw_step (ux_th s ! i) (ux_sk s))
           else None)
      | UTask i \<Rightarrow> map_option (\<lambda>st'. s\<lparr>ux_sk := st'\<rparr>) (run_task e c i (ux_sk s))
      | UTrigger n \<Rightarrow>
          (let st = ux_sk s; m = sk_mgr st in Some (s\<lparr>ux_sk := st\<lparr>sk_mgr := m\<lparr>fire := fire m @ [n]\<rparr>\<rparr>\<rparr>)))"

fun uw_run :: "env \<Rightarrow> config \<Rightarrow> uw_actor list \<Rightarrow> uw_conc \<Rightarrow> uw_conc option" where
  "uw_run e c [] s = Some s"
| "uw_run e c (a # as) s = (case uw_tick e c a s of None \<Rightarrow> None | Some s' \<Rightarrow> uw_run e c as s')"

text \<open>
  Example: the example sink with no pending rotation.
\<close>

definition demo_idle_sink :: sink where
  "demo_idle_sink = demo_sink\<lparr>sk_mgr := (sk_mgr demo_sink)\<lparr>fire := []\<rparr>\<rparr>"

subsection \<open>Facts about the steps\<close>

lemma uw_run_append: "uw_run e c (xs @ ys) s = (case uw_run e c xs s of None \<Rightarrow> None | Some s' \<Rightarrow> uw_run e c ys s')"
  by (induction xs arbitrary: s) (auto split: option.splits)

text \<open>Run alone, the steps of one call are \<open>check_and_write\<close>.\<close>

lemma uw_solo_equiv:
  "\<exists>k. uw_run e c (replicate k (UTh 0)) \<lparr>ux_sk = st, ux_th = [UStart b]\<rparr> =
         Some \<lparr>ux_sk = snd (check_and_write b st), ux_th = [URet (fst (check_and_write b st))]\<rparr>"
proof (cases "fire_recv (sk_mgr st)")
  case None
  then show ?thesis
    by (intro exI [of _ 3])
       (auto simp: uw_tick_def uw_step_def check_and_write_def poll_fire_def file_write_def numeral_eq_Suc
             split: sum.splits)
next
  case (Some p)
  obtain n m' where p: "p = (n, m')" by fastforce
  show ?thesis
  proof (cases "os_rename (sk_fs st) (w_absPath (sk_w st)) n")
    case (Inl err)
    then show ?thesis using Some p
      by (intro exI [of _ 2])
         (simp add: uw_tick_def uw_step_def check_and_write_def poll_fire_def Reopen_def numeral_eq_Suc)
  next
    case (Inr fs1)
    show ?thesis
    proof (cases "os_open_append fs1 (w_absPath (sk_w st))")
      case (Inl err)
      then show ?thesis using Some p Inr
        by (intro exI [of _ 3])
           (simp add: uw_tick_def uw_step_def check_and_write_def poll_fire_def Reopen_def numeral_eq_Suc)
    next
      case (Inr r)
      obtain fd fs2 where r: "r = (fd, fs2)" by fastforce
      then show ?thesis using Some p \<open>os_rename (sk_fs st) (w_absPath (sk_w st)) n = Inr fs1\<close> Inr
        by (intro exI [of _ 6])
           (auto simp: uw_tick_def uw_step_def check_and_write_def poll_fire_def Reopen_def file_write_def
                 numeral_eq_Suc split: sum.splits)
    qed
  qed
qed

text \<open>The rename, open and swap of one caller are \<open>poll_fire\<close>'s \<open>Reopen\<close>.\<close>

lemma uw_reopen_steps:
  assumes recv: "fire_recv (sk_mgr st) = Some (n, m')" and i: "i < length ths" "ths ! i = UStart b"
    and ok: "poll_fire st = (Inr (), st')"
  shows "uw_run e c [UTh i, UTh i, UTh i, UTh i] \<lparr>ux_sk = st, ux_th = ths\<rparr> =
           Some \<lparr>ux_sk = st', ux_th = ths[i := ULoad b]\<rparr>"
proof -
  obtain w' t fs' where r: "Reopen (sk_w st) (sk_fs st) n = (Inr (w', t), fs')"
    and st': "st' = st\<lparr>sk_mgr := m', sk_fs := fs', sk_w := w', sk_tasks := sk_tasks st @ [t]\<rparr>"
    using ok recv by (auto simp: poll_fire_def split: prod.splits sum.splits)
  obtain fs1 fd fs2 where rn: "os_rename (sk_fs st) (w_absPath (sk_w st)) n = Inr fs1"
    and op: "os_open_append fs1 (w_absPath (sk_w st)) = Inr (fd, fs2)"
    and eq: "w' = (sk_w st)\<lparr>w_file := fd\<rparr>" "t = (w_file (sk_w st), n)" "fs' = fs2"
    using r by (auto simp: Reopen_def split: sum.splits)
  show ?thesis
    using recv i rn op eq st' by (simp add: uw_tick_def uw_step_def)
qed

subsection \<open>Properties\<close>

text \<open>
  C16: without the mutex a write can fail and lose its bytes: a caller loads the current
  file, another caller receives a rotation and swaps in the fresh file, the background
  goroutine closes the old one, and the first caller's write then fails with
  \<open>ErrFileClosed\<close>. The second caller's bytes are appended, the segment invariant holds, and
  the first caller's bytes are in no file.
\<close>

theorem uw_write_lost:
  assumes inv: "seg_inv st hist" and idle: "fire (sk_mgr st) = []" and nt: "sk_tasks st = []"
    and fresh: "fs_dir (sk_fs st) n = None" "n \<noteq> w_absPath (sk_w st)" "w_absPath (sk_w st) \<notin> set (fs_denied (sk_fs st))"
    and c: "\<not> Compress c" "MaxRemain c \<le> 0"
  shows "\<exists>s'. uw_run e c [UTh 0, UTh 0, UTrigger n, UTh 1, UTh 1, UTh 1, UTh 1, UTask 0, UTh 0, UTh 1, UTh 1]
                 \<lparr>ux_sk = st, ux_th = [UStart a, UStart b]\<rparr> = Some s' \<and>
              ux_th s' = [URet (Inl ErrFileClosed), URet (Inr (length b))] \<and>
              seg_inv (ux_sk s') (hist @ [n]) \<and> log_of (ux_sk s') (hist @ [n]) = log_of st hist @ b"
proof -
  let ?h0 = "w_file (sk_w st)"
  define st1 where "st1 = st\<lparr>sk_mgr := (sk_mgr st)\<lparr>fire := [n]\<rparr>\<rparr>"
  have r1: "uw_run e c [UTh 0, UTh 0, UTrigger n] \<lparr>ux_sk = st, ux_th = [UStart a, UStart b]\<rparr> =
              Some \<lparr>ux_sk = st1, ux_th = [UWrite a ?h0, UStart b]\<rparr>"
    using idle by (simp add: uw_tick_def uw_step_def fire_recv_def st1_def)
  have inv1: "seg_inv st1 hist" using inv by (simp add: st1_def seg_inv_def writer_inv_def)
  have recv: "fire_recv (sk_mgr st1) = Some (n, (sk_mgr st)\<lparr>fire := []\<rparr>)"
    by (simp add: st1_def fire_recv_def)
  obtain st2 where p: "poll_fire st1 = (Inr (), st2)" and s2: "seg_inv st2 (hist @ [n])"
    and l2: "log_of st2 (hist @ [n]) = log_of st1 hist"
    using poll_fire_rotation [OF inv1 recv] fresh by (auto simp: st1_def)
  have t2: "sk_tasks st2 = [(?h0, n)]"
    using p recv nt by (auto simp: poll_fire_def st1_def Reopen_def split: prod.splits sum.splits)
  have r2: "uw_run e c [UTh 1, UTh 1, UTh 1, UTh 1] \<lparr>ux_sk = st1, ux_th = [UWrite a ?h0, UStart b]\<rparr> =
              Some \<lparr>ux_sk = st2, ux_th = [UWrite a ?h0, ULoad b]\<rparr>"
    using uw_reopen_steps [where i=1 and ths="[UWrite a ?h0, UStart b]" and b=b, OF recv _ _ p] by simp
  obtain st3 where rt: "run_task e c 0 st2 = Some st3" and s3: "seg_inv st3 (hist @ [n])"
    and l3: "log_of st3 (hist @ [n]) = log_of st2 (hist @ [n])" and w3: "sk_w st3 = sk_w st2"
    and h3: "fs_handles (sk_fs st3) ?h0 = None"
    using run_task_plain_seg [OF s2 _ c, of 0 e] t2 by auto
  obtain st4 where fw: "file_write b st3 = (Inr (length b), st4)" and s4: "seg_inv st4 (hist @ [n])"
    and l4: "log_of st4 (hist @ [n]) = log_of st3 (hist @ [n]) @ b"
    using file_write_log [OF s3] by blast
  have r3: "uw_run e c [UTask 0, UTh 0, UTh 1, UTh 1] \<lparr>ux_sk = st2, ux_th = [UWrite a ?h0, ULoad b]\<rparr> =
              Some \<lparr>ux_sk = st4, ux_th = [URet (Inl ErrFileClosed), URet (Inr (length b))]\<rparr>"
    using rt h3 fw by (auto simp: uw_tick_def uw_step_def os_write_def file_write_def split: sum.splits)
  have sched: "[UTh 0, UTh 0, UTrigger n, UTh 1, UTh 1, UTh 1, UTh 1, UTask 0, UTh 0, UTh 1, UTh 1] =
                [UTh 0, UTh 0, UTrigger n] @ [UTh 1, UTh 1, UTh 1, UTh 1] @ [UTask 0, UTh 0, UTh 1, UTh 1]" by simp
  have run: "uw_run e c [UTh 0, UTh 0, UTrigger n, UTh 1, UTh 1, UTh 1, UTh 1, UTask 0, UTh 0, UTh 1, UTh 1]
                 \<lparr>ux_sk = st, ux_th = [UStart a, UStart b]\<rparr> =
               Some \<lparr>ux_sk = st4, ux_th = [URet (Inl ErrFileClosed), URet (Inr (length b))]\<rparr>"
    unfolding sched uw_run_append r1 option.case r2 r3 ..
  have "log_of st1 hist = log_of st hist" by (simp add: st1_def log_of_def)
  then show ?thesis
    using run s4 l4 l3 l2 by simp
qed

subsection \<open>Witnesses\<close>

theorem uw_write_lost_witness:
  "\<exists>s'. uw_run demo_env NewDefaultConfig
          [UTh 0, UTh 0, UTrigger ''/l/app-1.log'', UTh 1, UTh 1, UTh 1, UTh 1, UTask 0, UTh 0, UTh 1, UTh 1]
          \<lparr>ux_sk = demo_idle_sink, ux_th = [UStart [1], UStart [2]]\<rparr> = Some s' \<and>
        ux_th s' = [URet (Inl ErrFileClosed), URet (Inr 1)] \<and> log_of (ux_sk s') [''/l/app-1.log''] = [72, 105, 2]"
proof -
  have a: "seg_inv demo_idle_sink []" "fire (sk_mgr demo_idle_sink) = []" "sk_tasks demo_idle_sink = []"
    "fs_dir (sk_fs demo_idle_sink) ''/l/app-1.log'' = None" "''/l/app-1.log'' \<noteq> w_absPath (sk_w demo_idle_sink)"
    "w_absPath (sk_w demo_idle_sink) \<notin> set (fs_denied (sk_fs demo_idle_sink))"
    "\<not> Compress NewDefaultConfig" "MaxRemain NewDefaultConfig \<le> 0"
    by (simp_all add: demo_idle_sink_def demo_sink_def seg_inv_def writer_inv_def fs_wf_def NewDefaultConfig_def)
  have l: "log_of demo_idle_sink [] = [72, 105]"
    by (simp add: log_of_def demo_idle_sink_def demo_sink_def file_bytes_def file_at_def)
  show ?thesis using uw_write_lost [OF a, of demo_env "[1]" "[2]"] l by (simp del: uw_run.simps) blast
qed

end
