(* ===== verification/Spec2Isabelle.thy ===== *)
theory Spec2Isabelle
  imports LogxWrite UnlockedWriter
begin

text \<open>
  \<^bold>\<open>A verification model of the rollingwriter package of Muskchen/logx.\<close>

  The package (src/rollingwriter/) is a byte sink that appends log records to
  \<open><LogPath>/<FileName>.log\<close> and rolls it over to a historical file when a policy
  fires: the file is renamed, a fresh one opened and the handles swapped, and a background
  goroutine closes the old handle, optionally gzips the file and pushes its name into a
  bounded retention queue that deletes the oldest history. On top of it, package logx
  (src/logx.go) builds zap loggers whose outputs are such writers. Its parts, and the
  theory that models each:

  \<^item> \<open>Prelude\<close>: the byte, path and int64 types, the error values (\<open>go_error\<close>, a
    Go panic being the value \<open>Panic\<close>), the error sum \<open>'a result\<close> with its bind.
  \<^item> \<open>GoLib\<close>: the standard library functions the package calls, modelled from Go's
    documented algorithms: \<open>strings.ToUpper\<close> (ASCII), \<open>strings.Contains\<close>,
    \<open>strconv.Atoi\<close> (with its clamping on overflow), \<open>path.Clean\<close>/\<open>path.Join\<close>,
    and for the front end \<open>strings.TrimSpace\<close> and \<open>strings.ToLower\<close> on UTF-8 bytes
    (every Unicode white-space rune, and the two non-ASCII runes that lower-case to ASCII)
    and \<open>filepath.Abs\<close>/\<open>filepath.Dir\<close>.
  \<^item> \<open>Config\<close> (src/unnamed/part_001): \<open>Config\<close> as a record, the policy constants,
    \<open>NewDefaultConfig\<close>, \<open>LogFilePath\<close>, the \<open>With...\<close> options and the option loop
    of \<open>NewWriter\<close>; the record \<open>env\<close> of the collaborators the package only calls
    (time formatting and parsing, the cron parser, gzip), over which every lemma is stated;
    the package's test \<open>TestOptions\<close> (src/unnamed/part_000), proved to pass.
  \<^item> \<open>SizeParser\<close> (manager.go \<open>ParseVolume\<close>): the size string to an int64
    threshold.
  \<^item> \<open>Manager\<close> (manager.go): the manager record, \<open>NewManager\<close>,
    \<open>GenLogFileName\<close>, the cron and poller triggers, \<open>Close\<close>, the receive on the
    unbuffered \<open>fire\<close> channel, and the step relation \<open>mgr_step\<close> whose reachable
    states \<open>mgr_reach\<close> carry the manager's invariants.
  \<^item> \<open>FileSys\<close>: the operating system as the writer sees it: a directory of paths to
    inodes, inode contents and open handles; \<open>os.OpenFile\<close> with the package's append
    flags, \<open>os.Open\<close>, \<open>ioutil.ReadAll\<close>, \<open>os.Rename\<close>, \<open>os.Remove\<close>,
    \<open>File.Write\<close>, \<open>File.Close\<close>.
  \<^item> \<open>Retention\<close> (writer.go \<open>DoRemove\<close>, the retry loops of
    \<open>NewWriterFromConfig\<close> and \<open>Reopen\<close>, the startup scan): the channel of historical
    names as a list, the eviction loop as a terminating \<^theory_text>\<open>function\<close>.
  \<^item> \<open>WriterCore\<close> (writer.go \<open>Reopen\<close>, \<open>CompressFile\<close>, \<open>Writer.Write\<close>,
    \<open>LockedWriter.Write\<close>, \<open>Close\<close>): the sink state \<open>sink\<close> (file system, manager,
    the writer's handle and path, the background goroutines started and not yet run);
    \<open>Reopen\<close> returns the file system beside its result because a rename done before a
    failed open stays done; \<open>check_and_write\<close> is the receive on \<open>fire\<close>, the
    \<open>Reopen\<close> and the write, as both writers run it when no other call interleaves;
    \<open>bg_task\<close> is the goroutine of \<open>Reopen\<close> (the \<open>.tmp\<close> rename,
    \<open>CompressFile\<close> with its deferred closes, the retention push, the close of the old
    handle), run by \<open>run_task\<close> at a point of the caller's choosing; \<open>sink_steps\<close> is
    the transition relation of any sequence of writes, closes and background tasks.
  \<^item> \<open>UnlockedWriter\<close> (writer.go \<open>Writer.Write\<close> and the steps of \<open>Reopen\<close>): the
    writer of mode \<open>"none"\<close> has no mutex, so each caller has a program counter \<open>uw_pc\<close>
    at one of the steps other goroutines can interleave (receive, rename, open, pointer swap,
    pointer load, write), and \<open>uw_run\<close> runs a schedule of callers, background goroutines
    and manager triggers.
  \<^item> \<open>BufferWriter\<close> (writer.go \<open>BufferWriter.Write\<close>, \<open>BufferWriter.Close\<close>):
    \<open>BufferWriter_Write\<close> is a call run alone; for concurrent calls each goroutine has a
    program counter \<open>bw_pc\<close> at one of the atomic steps of the code (receive and
    \<open>Reopen\<close>, read-and-append, store, test-and-CAS, swap, write, reset), \<open>bw_step\<close>
    takes one step, and a schedule (a list of goroutine numbers) is run by \<open>bw_run\<close>.
  \<^item> \<open>AsyncWriter\<close> (writer.go \<open>AsynchronousWriter.Write\<close>, \<open>Close\<close>,
    \<open>onClose\<close>, \<open>writer()\<close>, \<open>_asyncBufferPool\<close>): the queue, the pool, the flags
    and the consumer's program counter \<open>cons_pc\<close> form \<open>awriter\<close>; callers of
    \<open>Write\<close> and \<open>Close\<close> have program counters \<open>aw_pc\<close>; \<open>aw_write_next\<close>,
    \<open>aw_close_next\<close> and \<open>cons_next\<close> list every successor the code allows (a
    \<open>select\<close> with several ready cases has several), and \<open>aw_run\<close> runs a schedule
    of actors: a caller, the consumer, or a trigger of the manager sending a name on
    \<open>fire\<close>.
  \<^item> \<open>Constructor\<close> (writer.go \<open>NewWriterFromConfig\<close>, \<open>NewWriter\<close>,
    \<open>NewWriterFromConfigFile\<close>): the argument check, the open of the log file,
    \<open>NewManager\<close>, the startup trim and the switch on \<open>WriterMode\<close> building a
    \<open>rolling_writer\<close> (one constructor per variant); the file system is returned on the
    error paths too. Reading a configuration file opens it, reads it, decodes it with the
    JSON or YAML decoder (parameters) and closes it after the writer is built.
  \<^item> \<open>Logx\<close> (src/logx.go): the package configuration, the package variables and their
    initialisation, \<open>Init\<close> (banner, encoder, one zap core per appender over the writer
    \<open>NewWriterFromConfig\<close> builds or standard output, the logger options),
    \<open>GetLogger\<close>, \<open>GetSLogger\<close>, \<open>Close\<close>, \<open>logLevel\<close>, \<open>encoder\<close>,
    \<open>newEncoderConfig\<close>, \<open>runner\<close>; the part of zap they rely on (levels and their
    order as a \<open>linorder\<close> instance, cores, options, which cores an entry reaches and
    what follows the write) is modelled from zap's documentation.
  \<^item> \<open>LogxWrite\<close> (the \<open>RollingWriter\<close> interface of src/unnamed/part_001, logx.go
    \<open>Close\<close>): a logging call on the logger \<open>GetLogger\<close> returns writes the encoded
    entry to every enabled core in order, a rolling writer through its variant's
    \<open>Write\<close> (\<open>rw_Write\<close>; the asynchronous one as a \<^theory_text>\<open>partial_function (option)\<close>
    running the caller and, when it blocks, the consumer); all writers share the
    package's file system; \<open>Close\<close> syncs and logs a sync error.

  What the lemmas show. SizeParser: the spec's examples, the unit law for every decimal
  number and unit, case-insensitivity, the 1 GiB default, the int64 wrap-around of large
  sizes, and that a string with a unit letter but an unrecognised unit gives 0, not the
  default. Manager: under the volume policy at most one name is ever pending; under the
  time policy several can be (the spec's invariant does not hold there); construction
  fails exactly on a rejected cron pattern; \<open>Close\<close> panics when called twice.
  Retention: the eviction loop terminates for a positive capacity and removes exactly the
  oldest name; a run of enqueues refines the abstract policy \<open>retain\<close> (keep the last
  \<open>cap\<close>); on disk exactly the most recent files survive when names are distinct; a
  repeated name loses the newest file; in every environment, the startup scan deletes an
  older file of another logger whose name contains this one's and whose tag parses. WriterCore: the check-then-write refines an append-only
  log (history in rotation order, then the active file): every write appends exactly its
  bytes and a rotation to a fresh name loses and duplicates nothing; a failed open after the
  rename leaves the writer appending to the historical file for good; a rotation onto an
  existing historical name destroys that file; the compressed history decompresses to the
  segment; a failed compression never reaches the retention queue. BufferWriter: run alone,
  a write keeps the buffer within the threshold and refines the same log (files, then the
  buffer); the step model run by one goroutine is the sequential function; two concurrent
  writes can lose the first caller's bytes or write them twice; \<open>Close\<close> flushes; after
  \<open>Close\<close> a write reports success and drops its bytes; the doubled threshold is an
  int64 and \<open>make\<close> (whose \<open>makeslice\<close> rejects a capacity that is negative or
  above \<open>maxAlloc = 2^48\<close>) succeeds exactly for thresholds in \<open>[0, 2^47]\<close> and in
  \<open>[-2^63, -2^63 + 2^47]\<close>, where the doubling wraps. AsyncWriter: the queue never
  exceeds \<open>QueueSize\<close>; \<open>Close\<close> with a quiescent consumer drains in order; but a
  zero-length pooled buffer makes a rotating \<open>Write\<close> loop for ever, \<open>Close\<close> racing
  the consumer can reorder or lose buffers and leave the consumer blocked, and a
  \<open>Write\<close> racing \<open>Close\<close> is accepted and never written. Constructor: a valid
  configuration yields a writer satisfying the segment invariant the refinement lemmas start
  from; the constructor always returns; an unknown mode is rejected only after history was
  deleted; a bad buffer threshold panics; a configuration file read with a type other than
  exactly \<open>json\<close> or \<open>yaml\<close> is ignored in favour of the defaults. Any sequence of
  sink operations keeps the file system well-formed (the sink's type invariant). Logx: the
  package's initialisation panics (\<open>Sugar\<close> on the nil logger); \<open>logLevel\<close> reads
  back every printed level name in any case and padding, except \<open>dpanic\<close>; after
  \<open>Init\<close> an entry reaches exactly the appenders whose level admits it, carries a stack
  trace exactly as configured, and never panics at \<open>DPanic\<close> because the development
  option is dropped; an appender without a writer configuration makes \<open>Init\<close> panic. Because the
  package's initialisation panics, a program importing logx never reaches \<open>Init\<close>,
  \<open>GetLogger\<close>, \<open>logLevel\<close> or \<open>Close\<close>; their lemmas describe these
  functions as written, from a state where the package variables are set. LogxWrite:
  the front end over a \<open>LockedWriter\<close> refines the append-only log (a logging call appends
  exactly the encoded entry); \<open>logx.Close\<close> leaves an entry buffered by a
  \<open>BufferWriter\<close> out of every file. UnlockedWriter: one caller alone runs
  \<open>check_and_write\<close>; two callers and a rotation can make a write fail on the handle the
  background goroutine closed, its bytes lost.

  Modelling choices. Go's int64 is \<open>64 word\<close> where it is computed (the threshold);
  Go's int is \<open>int\<close> in the configuration. Paths and configuration strings are
  Isabelle strings, file contents lists of bytes (\<open>8 word\<close>). Time is a natural number
  of seconds. The channel \<open>fire\<close> is the list of names of blocked senders. A goroutine
  blocked for ever is \<open>None\<close>, or a program counter with no successor. A call of
  \<open>LockedWriter\<close> holds the mutex throughout, so it is one step
  (\<open>check_and_write\<close>, \<open>writer_Close\<close>); the unlocked variants are split into the
  atomic steps of their code. \<open>sync.Pool\<close> hands out the most recently returned buffer,
  one of the behaviours it allows. Nothing is assumed: the environment's functions are
  parameters, and every lemma holds for all of them.

  Not modelled: \<open>os.MkdirAll\<close> and the errors of \<open>ioutil.ReadDir\<close> (the listing is
  a parameter); the aliasing of Go slices (a buffer is a list, so concurrent in-place
  appends to one backing array are not modelled); zap's encoders' output format; the
  JSON/YAML decoding of \<open>NewWriterFromConfigFile\<close> (a parameter); gzip's encoding itself
  (a parameter), time layouts (a parameter), I/O errors other than a missing file and a
  refused creation.
\<close>


section \<open>The whole sink: writes, rotations and background tasks\<close>

text \<open>
  A run of the sink as the events the code interleaves: a call of the locked writer's
  \<open>Write\<close> (one atomic step under the mutex), a trigger of the manager sending a name on
  \<open>fire\<close> (the cron job or the size poller), and a background goroutine of \<open>Reopen\<close>
  running to its end (a task that is not pending is skipped). The second component is the
  history in rotation order, a ghost for the statements. \<open>None\<close>: a write failed.
\<close>

datatype sys_event = SWrite bytes | STrigger path | STask nat

fun sys_run :: "env \<Rightarrow> config \<Rightarrow> sys_event list \<Rightarrow> sink \<times> path list \<Rightarrow> (sink \<times> path list) option" where
  "sys_run e c [] sh = Some sh"
| "sys_run e c (SWrite b # evs) (st, hist) =
     (case check_and_write b st of
        (Inl _, _) \<Rightarrow> None
      | (Inr _, st') \<Rightarrow> sys_run e c evs (st', rotated_next st hist))"
| "sys_run e c (STrigger n # evs) (st, hist) =
     sys_run e c evs (st\<lparr>sk_mgr := (sk_mgr st)\<lparr>fire := fire (sk_mgr st) @ [n]\<rparr>\<rparr>, hist)"
| "sys_run e c (STask i # evs) (st, hist) =
     (if i < length (sk_tasks st) then
        (case run_task e c i st of None \<Rightarrow> None | Some st' \<Rightarrow> sys_run e c evs (st', hist))
      else sys_run e c evs (st, hist))"

text \<open>The bytes the run writes and the names its triggers send.\<close>

fun written :: "sys_event list \<Rightarrow> bytes" where
  "written [] = []"
| "written (SWrite b # evs) = b @ written evs"
| "written (_ # evs) = written evs"

fun triggered :: "sys_event list \<Rightarrow> path list" where
  "triggered [] = []"
| "triggered (STrigger n # evs) = n # triggered evs"
| "triggered (_ # evs) = triggered evs"


text \<open>
  The run's invariant: the segment invariant, distinct handles of the pending tasks, an active
  file that can be created again, and names still to come (pending or sent later) that are
  distinct, absent from the directory and not the active path.
\<close>

definition sys_inv :: "sink \<Rightarrow> path list \<Rightarrow> path list \<Rightarrow> bool" where
  "sys_inv st hist ns \<longleftrightarrow>
     seg_inv st hist \<and> distinct (map fst (sk_tasks st)) \<and>
     w_absPath (sk_w st) \<notin> set (fs_denied (sk_fs st)) \<and>
     distinct (fire (sk_mgr st) @ ns) \<and>
     (\<forall>n \<in> set (fire (sk_mgr st) @ ns). fs_dir (sk_fs st) n = None \<and> n \<noteq> w_absPath (sk_w st))"

lemma sys_write_step:
  assumes inv: "sys_inv st hist ns"
  shows "\<exists>st'. check_and_write b st = (Inr (length b), st') \<and> sys_inv st' (rotated_next st hist) ns \<and>
               log_of st' (rotated_next st hist) = log_of st hist @ b"
proof -
  let ?h = "rotated_next st hist" and ?abs = "w_absPath (sk_w st)" and ?F = "fire (sk_mgr st)"
  have s: "seg_inv st hist" using inv by (simp add: sys_inv_def)
  have fp: "fresh_pending st"
    using inv by (auto simp: sys_inv_def fresh_pending_def fire_recv_def split: list.splits)
  obtain st0 where p: "poll_fire st = (Inr (), st0)" and s0: "seg_inv st0 ?h"
    and l0: "log_of st0 ?h = log_of st hist"
    using poll_fire_refines [OF s fp] by blast
  obtain st1 where w: "file_write b st0 = (Inr (length b), st1)" and s1: "seg_inv st1 ?h"
    and l1: "log_of st1 ?h = log_of st0 ?h @ b"
    using file_write_log [OF s0] by blast
  have fr0: "fire (sk_mgr st0) = drop 1 ?F"
    "sk_tasks st0 = sk_tasks st @ (case ?F of [] \<Rightarrow> [] | n # _ \<Rightarrow> [(w_file (sk_w st), n)])"
    "\<And>p. p \<noteq> ?abs \<Longrightarrow> p \<notin> set (take 1 ?F) \<Longrightarrow> fs_dir (sk_fs st0) p = fs_dir (sk_fs st) p"
    "fs_denied (sk_fs st0) = fs_denied (sk_fs st)" "w_absPath (sk_w st0) = ?abs"
    using poll_fire_frame [OF p] by auto
  have fr1: "sk_mgr st1 = sk_mgr st0" "sk_tasks st1 = sk_tasks st0" "sk_w st1 = sk_w st0"
    "fs_dir (sk_fs st1) = fs_dir (sk_fs st0)" "fs_denied (sk_fs st1) = fs_denied (sk_fs st0)"
    using file_write_frame [OF w] by auto
  have cw: "check_and_write b st = (Inr (length b), st1)" using p w by (simp add: check_and_write_def)
  have tasks_ne: "\<forall>(h, q) \<in> set (sk_tasks st). h \<noteq> w_file (sk_w st)"
    using s by (auto simp: seg_inv_def writer_inv_def)
  have dt: "distinct (map fst (sk_tasks st1))"
    using inv tasks_ne fr0(2) fr1(2) by (auto simp: sys_inv_def split: list.splits)
  have "distinct (take 1 ?F @ (drop 1 ?F @ ns))"
    using inv by (simp only: append_take_drop_id append_assoc [symmetric] sys_inv_def)
  then have dF: "distinct (drop 1 ?F @ ns)" "set (drop 1 ?F @ ns) \<inter> set (take 1 ?F) = {}"
    by (simp_all only: distinct_append) blast+
  have fresh1: "\<forall>n \<in> set (fire (sk_mgr st1) @ ns). fs_dir (sk_fs st1) n = None \<and> n \<noteq> w_absPath (sk_w st1)"
  proof
    fix n assume n: "n \<in> set (fire (sk_mgr st1) @ ns)"
    then have n': "n \<in> set (drop 1 ?F @ ns)" using fr0(1) fr1(1) by simp
    then have "n \<in> set (?F @ ns)" by (auto dest: in_set_dropD)
    then have "fs_dir (sk_fs st) n = None \<and> n \<noteq> ?abs" using inv by (simp add: sys_inv_def)
    moreover have "n \<notin> set (take 1 ?F)" using n' dF(2) by blast
    ultimately show "fs_dir (sk_fs st1) n = None \<and> n \<noteq> w_absPath (sk_w st1)"
      using fr0(3) fr0(5) fr1(3,4) by simp
  qed
  have "sys_inv st1 ?h ns"
    using s1 dt dF(1) fresh1 inv fr0(1,4,5) fr1 by (simp add: sys_inv_def)
  then show ?thesis using cw l0 l1 by auto
qed

lemma sys_task_step:
  assumes inv: "sys_inv st hist ns" and c: "\<not> Compress c" "MaxRemain c \<le> 0" and i: "i < length (sk_tasks st)"
  shows "\<exists>st'. run_task e c i st = Some st' \<and> sys_inv st' hist ns \<and> log_of st' hist = log_of st hist"
proof -
  have "seg_inv st hist" "distinct (map fst (sk_tasks st))" using inv by (simp_all add: sys_inv_def)
  then obtain st' where "run_task e c i st = Some st'" "seg_inv st' hist" "distinct (map fst (sk_tasks st'))"
    "log_of st' hist = log_of st hist" "sk_w st' = sk_w st" "sk_mgr st' = sk_mgr st"
    "fs_dir (sk_fs st') = fs_dir (sk_fs st)" "fs_denied (sk_fs st') = fs_denied (sk_fs st)"
    using run_task_plain_seg [OF _ _ c i, of hist e] by blast
  then show ?thesis using inv by (simp add: sys_inv_def)
qed

lemma sys_trigger_step:
  "sys_inv st hist (n # ns) \<Longrightarrow> sys_inv (st\<lparr>sk_mgr := (sk_mgr st)\<lparr>fire := fire (sk_mgr st) @ [n]\<rparr>\<rparr>) hist ns"
  by (simp add: sys_inv_def seg_inv_def writer_inv_def)

text \<open>The invariant carries the log along any run.\<close>

lemma sys_run_log:
  assumes "sys_inv st hist (triggered evs)" and "\<not> Compress c" and "MaxRemain c \<le> 0"
  shows "\<exists>st' hist'. sys_run e c evs (st, hist) = Some (st', hist') \<and> seg_inv st' hist' \<and>
                     log_of st' hist' = log_of st hist @ written evs"
  using assms(1)
proof (induction evs arbitrary: st hist)
  case Nil
  then show ?case by (simp add: sys_inv_def)
next
  case (Cons ev evs)
  show ?case
  proof (cases ev)
    case (SWrite b)
    obtain st' where "check_and_write b st = (Inr (length b), st')" "sys_inv st' (rotated_next st hist) (triggered evs)"
      "log_of st' (rotated_next st hist) = log_of st hist @ b"
      using sys_write_step [of st hist "triggered evs" b] Cons.prems SWrite by auto
    then show ?thesis using Cons.IH SWrite by fastforce
  next
    case (STrigger n)
    then have "sys_inv (st\<lparr>sk_mgr := (sk_mgr st)\<lparr>fire := fire (sk_mgr st) @ [n]\<rparr>\<rparr>) hist (triggered evs)"
      using Cons.prems sys_trigger_step by simp
    then show ?thesis using Cons.IH STrigger by (fastforce simp: log_of_mgr)
  next
    case (STask i)
    show ?thesis
    proof (cases "i < length (sk_tasks st)")
      case True
      have si: "sys_inv st hist (triggered evs)" using Cons.prems STask by simp
      obtain st' where "run_task e c i st = Some st'" "sys_inv st' hist (triggered evs)"
        "log_of st' hist = log_of st hist"
        using sys_task_step [OF si assms(2,3) True, of e] by blast
      then show ?thesis using Cons.IH STask True by fastforce
    next
      case False
      then show ?thesis using Cons.IH Cons.prems STask by fastforce
    qed
  qed
qed

text \<open>
  C1: the central promise of the sink for the mutex-serialized writer with the default
  configuration (no compression, unbounded retention): along any interleaving of writes,
  rotation triggers with fresh names and background tasks, every write succeeds, and the
  files (history in rotation order, then the active file) hold exactly the bytes that were
  there followed by every written byte, in order: nothing is lost, duplicated or reordered.
\<close>

theorem locked_writer_keeps_every_byte:
  assumes "seg_inv st hist" and "distinct (map fst (sk_tasks st))"
    and "w_absPath (sk_w st) \<notin> set (fs_denied (sk_fs st))"
    and "distinct (fire (sk_mgr st) @ triggered evs)"
    and "\<forall>n \<in> set (fire (sk_mgr st) @ triggered evs). fs_dir (sk_fs st) n = None \<and> n \<noteq> w_absPath (sk_w st)"
    and "\<not> Compress c" and "MaxRemain c \<le> 0"
  shows "\<exists>st' hist'. sys_run e c evs (st, hist) = Some (st', hist') \<and> seg_inv st' hist' \<and>
                     log_of st' hist' = log_of st hist @ written evs"
  using assms by (intro sys_run_log) (simp_all add: sys_inv_def)

subsection \<open>Witnesses\<close>

theorem locked_writer_keeps_every_byte_witness:
  "\<exists>st' hist'. sys_run demo_env NewDefaultConfig
                  [SWrite [1], STrigger ''/l/app-2.log'', STask 0, SWrite [2], SWrite [3]] (demo_sink, []) =
                Some (st', hist') \<and> log_of st' hist' = [72, 105, 1, 2, 3]"
proof -
  have a: "seg_inv demo_sink []" "distinct (map fst (sk_tasks demo_sink))"
    "w_absPath (sk_w demo_sink) \<notin> set (fs_denied (sk_fs demo_sink))"
    "distinct (fire (sk_mgr demo_sink) @ triggered [SWrite [1], STrigger ''/l/app-2.log'', STask 0, SWrite [2], SWrite [3]])"
    "\<forall>n \<in> set (fire (sk_mgr demo_sink) @ triggered [SWrite [1], STrigger ''/l/app-2.log'', STask 0, SWrite [2], SWrite [3]]).
       fs_dir (sk_fs demo_sink) n = None \<and> n \<noteq> w_absPath (sk_w demo_sink)"
    "\<not> Compress NewDefaultConfig" "MaxRemain NewDefaultConfig \<le> 0"
    by (simp_all add: demo_sink_def seg_inv_def writer_inv_def fs_wf_def NewDefaultConfig_def)
  have l: "log_of demo_sink [] = [72, 105]"
    by (simp add: log_of_def demo_sink_def file_bytes_def file_at_def)
  show ?thesis using locked_writer_keeps_every_byte [OF a, of demo_env] l by (simp del: sys_run.simps) blast
qed

end
